theory Spec2Isabelle
  imports Main "HOL-Library.Word"
begin

section \<open>The storage core of nvs_flash\<close>

text \<open>
  A shallow embedding of \<^verbatim>\<open>src/src/Storage.cpp\<close> (class \<^verbatim>\<open>nvs::Storage\<close>).
  The functions of \<^verbatim>\<open>Storage\<close> are translated from the source, branch by branch.
  \<^verbatim>\<open>Item\<close>, \<^verbatim>\<open>Page\<close> and \<^verbatim>\<open>PageManager\<close> are used by the source and are not
  among the source files: the items and the operations of a page are modelled from
  sections 3 and 4.1 of the specification, and \<^verbatim>\<open>PageManager::requestNewPage\<close> and
  \<^verbatim>\<open>PageManager::load\<close> are parameters (\<open>rnp\<close>, \<open>load\<close>) of the functions that call
  them.

  Conventions.
  \<^item> A \<^verbatim>\<open>Page*\<close> is a page number; the pages live in a store \<open>mPages\<close> from page
    numbers to pages, and \<open>mPageList\<close> is the page manager's list, oldest first, whose
    last element is the current page.
  \<^item> A function of \<^verbatim>\<open>Storage\<close> returns its \<^verbatim>\<open>bool\<close> together with the storage it
    leaves, \<open>mLastError\<close> included.
  \<^item> \<^verbatim>\<open>assert\<close> and \<^verbatim>\<open>ESP_ERROR_CHECK\<close> are debugging checks: the model evaluates
    their argument and goes on, as a build without checks does.
  \<^item> \<^verbatim>\<open>new(std::nothrow)\<close> is taken to succeed.
  \<^item> A call that does not return has the value \<open>None\<close>.
\<close>

subsection \<open>Error codes, item types, items\<close>

type_synonym u8 = "8 word"
type_synonym u32 = "32 word"

text \<open>The error codes of section 6 of the specification.\<close>

datatype esp_err_t =
    ESP_OK
  | ESP_ERR_NO_MEM
  | ESP_ERR_INVALID_ARG
  | ESP_ERR_NVS_NOT_INITIALIZED
  | ESP_ERR_NVS_NOT_FOUND
  | ESP_ERR_NVS_INVALID_STATE
  | ESP_ERR_NVS_NOT_ENOUGH_SPACE
  | ESP_ERR_NVS_PAGE_FULL
  | ESP_ERR_NVS_VALUE_TOO_LONG
  | ESP_ERR_NVS_CONTENT_DIFFERS
  | ESP_ERR_NVS_INVALID_LENGTH
  | ESP_ERR_NVS_NO_FREE_PAGES

datatype ItemType =
    U8 | I8 | U16 | I16 | U32 | I32 | U64 | I64
  | ItemType_STR | BLOB | BLOB_DATA | BLOB_IDX | ANY

text \<open>
  \<^verbatim>\<open>VerOffset\<close> is an enumeration over \<^verbatim>\<open>uint8_t\<close>; the source casts it to
  \<^verbatim>\<open>uint8_t\<close> wherever it computes with it.
\<close>

type_synonym VerOffset = u8

text \<open>
  Modelled from the spec: the constants of \<^verbatim>\<open>Item.hpp\<close> and \<^verbatim>\<open>Page.hpp\<close>, which
  are not among the sources. Section 6 gives entries of 32 bytes, scenario S4 gives 126
  entries to a page, scenario S2 gives chunks of at most 4000 bytes (8192 bytes are 3
  chunks), section 3 reserves the namespace indices 0 and 255, and the version offsets
  split the chunk indices below \<^verbatim>\<open>CHUNK_ANY\<close> in two halves.
\<close>

definition ENTRY_SIZE :: nat where
  "ENTRY_SIZE = 32"

definition ENTRY_COUNT :: nat where
  "ENTRY_COUNT = 126"

definition CHUNK_MAX_SIZE :: nat where
  "CHUNK_MAX_SIZE = ENTRY_SIZE * (ENTRY_COUNT - 1)"

definition NS_INDEX :: u8 where
  "NS_INDEX = 0"

definition NS_ANY :: u8 where
  "NS_ANY = 255"

definition CHUNK_ANY :: u8 where
  "CHUNK_ANY = 0xFF"

definition VER_0_OFFSET :: VerOffset where
  "VER_0_OFFSET = 0x0"

definition VER_1_OFFSET :: VerOffset where
  "VER_1_OFFSET = 0x80"

definition VER_ANY :: VerOffset where
  "VER_ANY = 0xFF"

text \<open>
  Modelled from the spec: \<^verbatim>\<open>Item\<close> (section 3). The payload of an item is the
  union of the source: bytes (the inline value of a fixed type, or the variable-length
  data of \<open>ItemType_STR\<close>, the type \<^verbatim>\<open>STR\<close> of the specification, of \<open>BLOB\<close> and of
  \<open>BLOB_DATA\<close>), or the record of a blob index.
\<close>

record BlobIndex =
  dataSize :: nat
  chunkCount :: u8
  chunkStart :: VerOffset

datatype Payload = Bytes "u8 list" | Index BlobIndex

record Item =
  nsIndex :: u8
  datatype' :: ItemType
  key :: string
  chunkIndex :: u8
  payload :: Payload

definition isVariableLengthType :: "ItemType \<Rightarrow> bool" where
  "isVariableLengthType t = (t = ItemType_STR \<or> t = BLOB \<or> t = BLOB_DATA)"

text \<open>
  \<open>span\<close>: 1 for the fixed-size types, and the header entry plus the entries of the
  payload for the variable-length ones.
\<close>

definition span :: "Item \<Rightarrow> nat" where
  "span it =
     (case payload it of
        Index b \<Rightarrow> 1
      | Bytes bs \<Rightarrow>
          if isVariableLengthType (datatype' it)
          then (ENTRY_SIZE + length bs + (ENTRY_SIZE - 1)) div ENTRY_SIZE
          else 1)"

text \<open>
  \<open>item.blobIndex\<close>. Read from an item whose payload is bytes, it is the reinterpreted
  bytes in the source; the model fixes a value there.
\<close>

definition blobIndex :: "Item \<Rightarrow> BlobIndex" where
  "blobIndex it =
     (case payload it of
        Index b \<Rightarrow> b
      | Bytes bs \<Rightarrow> \<lparr>dataSize = 0, chunkCount = 0, chunkStart = 0\<rparr>)"

text \<open>
  \<open>item.varLength.dataSize\<close>, the 16-bit field at the start of the union (the
  "length or value" of the header entry, section 6 of the specification). For a
  variable-length item it is the length of the data. For an item of a fixed type it
  overlays the inline value: the field reads the first two bytes of the value, low byte
  first, a byte behind the value being the \<open>0xFF\<close> that the item is filled with before
  the value is copied in (as line 241 does for the blob index). For a blob index it
  overlays the low 16 bits of \<open>blobIndex.dataSize\<close>.
\<close>

definition le16 :: "u8 list \<Rightarrow> nat" where
  "le16 bs = unat ((bs @ [0xFF, 0xFF]) ! 0) + 256 * unat ((bs @ [0xFF, 0xFF]) ! 1)"

definition varLength_dataSize :: "Item \<Rightarrow> nat" where
  "varLength_dataSize it =
     (case payload it of
        Bytes bs \<Rightarrow> if isVariableLengthType (datatype' it) then length bs else le16 bs
      | Index b \<Rightarrow> dataSize b mod 65536)"

subsection \<open>Pages\<close>

datatype EntryState = EMPTY | WRITING | WRITTEN | ERASED

datatype PageState =
  UNINITIALIZED | PageState_ACTIVE | FULL | FREEING | CORRUPT | PageState_INVALID

text \<open>
  Modelled from the spec: \<^verbatim>\<open>Page\<close> (sections 3 and 4.1). \<open>mEntries\<close> lists the items
  placed on the page with the state of their entries, in the order of the entry table;
  an item at entry index \<open>i\<close> occupies the entries \<open>i\<close> to \<open>i + span - 1\<close>, and the
  entries behind the last item are \<open>EMPTY\<close>.
\<close>

record Page =
  state :: PageState
  mEntries :: "(EntryState \<times> Item) list"

definition usedEntries :: "(EntryState \<times> Item) list \<Rightarrow> nat" where
  "usedEntries es = sum_list (map (\<lambda>e. span (snd e)) es)"

text \<open>
  Modelled from the spec: \<^verbatim>\<open>Page::getVarDataTailroom\<close>, the room for payload behind
  the header entry of a new item. The source compares it with sizes in bytes.
\<close>

definition getVarDataTailroom :: "Page \<Rightarrow> nat" where
  "getVarDataTailroom p = (ENTRY_COUNT - usedEntries (mEntries p) - 1) * ENTRY_SIZE"

text \<open>
  Matching on the fields that are not wildcards: \<open>NS_ANY\<close>, \<open>ANY\<close>, no key,
  \<open>CHUNK_ANY\<close> and \<open>VER_ANY\<close> match everything.
\<close>

definition itemMatches ::
  "u8 \<Rightarrow> ItemType \<Rightarrow> string option \<Rightarrow> u8 \<Rightarrow> VerOffset \<Rightarrow> Item \<Rightarrow> bool" where
  "itemMatches ns dt k chunkIdx chunkSt it =
     ((ns = NS_ANY \<or> nsIndex it = ns) \<and>
      (dt = ANY \<or> datatype' it = dt) \<and>
      (case k of None \<Rightarrow> True | Some k' \<Rightarrow> key it = k') \<and>
      (chunkIdx = CHUNK_ANY \<or> chunkIndex it = chunkIdx) \<and>
      (chunkSt = VER_ANY \<or> chunkStart (blobIndex it) = chunkSt))"

text \<open>
  The linear scan: \<open>findFrom P start i es\<close> walks the items \<open>es\<close>, the first of them
  at entry index \<open>i\<close>, and returns the first \<open>WRITTEN\<close> item at index \<open>start\<close> or
  later that satisfies \<open>P\<close>, with its index.
\<close>

fun findFrom ::
  "(Item \<Rightarrow> bool) \<Rightarrow> nat \<Rightarrow> nat \<Rightarrow> (EntryState \<times> Item) list \<Rightarrow> (nat \<times> Item) option" where
  "findFrom P start i [] = None"
| "findFrom P start i (e # es) =
     (if start \<le> i \<and> fst e = WRITTEN \<and> P (snd e) then Some (i, snd e)
      else findFrom P start (i + span (snd e)) es)"

text \<open>
  Modelled from the spec: \<^verbatim>\<open>Page::findItem\<close>. \<open>Some (i, item)\<close> is \<open>ESP_OK\<close> with
  the index of the hit and the item; \<open>None\<close> is \<open>ESP_ERR_NVS_NOT_FOUND\<close>.
\<close>

definition Page_findItem ::
  "Page \<Rightarrow> u8 \<Rightarrow> ItemType \<Rightarrow> string option \<Rightarrow> nat \<Rightarrow> u8 \<Rightarrow> VerOffset \<Rightarrow> (nat \<times> Item) option" where
  "Page_findItem p ns dt k startIdx chunkIdx chunkSt =
     findFrom (itemMatches ns dt k chunkIdx chunkSt) startIdx 0 (mEntries p)"

definition findItem_err :: "'a option \<Rightarrow> esp_err_t" where
  "findItem_err r = (case r of None \<Rightarrow> ESP_ERR_NVS_NOT_FOUND | Some x \<Rightarrow> ESP_OK)"

text \<open>\<open>eraseAt j i es\<close> marks the item at entry index \<open>j\<close> erased.\<close>

fun eraseAt :: "nat \<Rightarrow> nat \<Rightarrow> (EntryState \<times> Item) list \<Rightarrow> (EntryState \<times> Item) list" where
  "eraseAt j i [] = []"
| "eraseAt j i (e # es) =
     (if i = j then (ERASED, snd e) # es else e # eraseAt j (i + span (snd e)) es)"

text \<open>Modelled from the spec: \<^verbatim>\<open>Page::eraseItem\<close>.\<close>

definition Page_eraseItem ::
  "Page \<Rightarrow> u8 \<Rightarrow> ItemType \<Rightarrow> string option \<Rightarrow> u8 \<Rightarrow> VerOffset \<Rightarrow> esp_err_t \<times> Page" where
  "Page_eraseItem p ns dt k chunkIdx chunkSt =
     (case Page_findItem p ns dt k 0 chunkIdx chunkSt of
        None \<Rightarrow> (ESP_ERR_NVS_NOT_FOUND, p)
      | Some (i, it) \<Rightarrow> (ESP_OK, p\<lparr>mEntries := eraseAt i 0 (mEntries p)\<rparr>))"

text \<open>
  Modelled from the spec: \<^verbatim>\<open>Page::writeItem\<close>. The item is appended behind the last
  one; \<open>PAGE_FULL\<close> when its span does not fit, \<open>INVALID_STATE\<close> when the page is not
  active.
\<close>

definition Page_writeItem ::
  "Page \<Rightarrow> u8 \<Rightarrow> ItemType \<Rightarrow> string \<Rightarrow> Payload \<Rightarrow> u8 \<Rightarrow> esp_err_t \<times> Page" where
  "Page_writeItem p ns dt k pl chunkIdx =
     (let it = \<lparr>nsIndex = ns, datatype' = dt, key = k, chunkIndex = chunkIdx, payload = pl\<rparr>
      in if state p \<noteq> PageState_ACTIVE then (ESP_ERR_NVS_INVALID_STATE, p)
         else if ENTRY_COUNT < usedEntries (mEntries p) + span it then (ESP_ERR_NVS_PAGE_FULL, p)
         else (ESP_OK, p\<lparr>mEntries := mEntries p @ [(WRITTEN, it)]\<rparr>))"

text \<open>
  Modelled from the spec: \<^verbatim>\<open>Page::cmpItem\<close>, \<open>ESP_OK\<close> on an exact match of the
  payload and \<open>CONTENT_DIFFERS\<close> otherwise, and \<^verbatim>\<open>Page::readItem\<close>, which the
  specification only names: the bytes of the item found.
\<close>

definition Page_cmpItem ::
  "Page \<Rightarrow> u8 \<Rightarrow> ItemType \<Rightarrow> string option \<Rightarrow> u8 list \<Rightarrow> u8 \<Rightarrow> esp_err_t" where
  "Page_cmpItem p ns dt k bs chunkIdx =
     (case Page_findItem p ns dt k 0 chunkIdx VER_ANY of
        None \<Rightarrow> ESP_ERR_NVS_NOT_FOUND
      | Some (i, it) \<Rightarrow> if payload it = Bytes bs then ESP_OK else ESP_ERR_NVS_CONTENT_DIFFERS)"

definition Page_readItem ::
  "Page \<Rightarrow> u8 \<Rightarrow> ItemType \<Rightarrow> string option \<Rightarrow> nat \<Rightarrow> u8 \<Rightarrow> esp_err_t \<times> u8 list" where
  "Page_readItem p ns dt k sz chunkIdx =
     (case Page_findItem p ns dt k 0 chunkIdx VER_ANY of
        None \<Rightarrow> (ESP_ERR_NVS_NOT_FOUND, [])
      | Some (i, it) \<Rightarrow>
          (case payload it of
             Bytes bs \<Rightarrow> if length bs = sz then (ESP_OK, bs) else (ESP_ERR_NVS_INVALID_LENGTH, [])
           | Index b \<Rightarrow> (ESP_ERR_NVS_INVALID_LENGTH, [])))"

text \<open>Modelled from the spec: \<^verbatim>\<open>Page::markFull\<close>, the transition from active to full.\<close>

definition Page_markFull :: "Page \<Rightarrow> esp_err_t \<times> Page" where
  "Page_markFull p =
     (if state p = PageState_ACTIVE then (ESP_OK, p\<lparr>state := FULL\<rparr>)
      else (ESP_ERR_NVS_INVALID_STATE, p))"

subsection \<open>The page manager and the storage\<close>

text \<open>
  Modelled from the spec: \<^verbatim>\<open>PageManager\<close> (sections 3 and 4.2), as far as
  \<^verbatim>\<open>Storage\<close> reads it: the pages, the ordered list of the pages in use and the
  number of pages of the partition (\<^verbatim>\<open>getPageCount()\<close>, unsigned).
\<close>

record PageManager =
  mPages :: "nat \<Rightarrow> Page"
  mPageList :: "nat list"
  mPageCount :: u32

datatype State = INVALID | ACTIVE

record NamespaceEntry =
  mName :: string
  mIndex :: u8

record Storage =
  mPageManager :: PageManager
  mNamespaces :: "NamespaceEntry list"
  mNamespaceUsage :: "u8 \<Rightarrow> bool"
  mState :: State
  mLastError :: esp_err_t
  mHandleCount :: nat

text \<open>\<^verbatim>\<open>getCurrentPage()\<close> is \<^verbatim>\<open>mPageManager.back()\<close>.\<close>

definition getCurrentPage :: "Storage \<Rightarrow> nat" where
  "getCurrentPage s = last (mPageList (mPageManager s))"

definition pageOf :: "Storage \<Rightarrow> nat \<Rightarrow> Page" where
  "pageOf s pid = mPages (mPageManager s) pid"

definition setPage :: "Storage \<Rightarrow> nat \<Rightarrow> Page \<Rightarrow> Storage" where
  "setPage s pid p =
     s\<lparr>mPageManager := (mPageManager s)\<lparr>mPages := (mPages (mPageManager s))(pid := p)\<rparr>\<rparr>"

subsection \<open>findItem\<close>

text \<open>
  \<^verbatim>\<open>Storage::findItem\<close> (lines 145 to 159): the first page of the list on which
  \<^verbatim>\<open>Page::findItem\<close> from index 0 returns \<open>ESP_OK\<close>. The result is the page and the
  item (the out parameters, left alone when nothing is found) and \<open>mLastError\<close>.
\<close>

fun findItem_pages ::
  "(nat \<Rightarrow> Page) \<Rightarrow> nat list \<Rightarrow> u8 \<Rightarrow> ItemType \<Rightarrow> string option \<Rightarrow> u8 \<Rightarrow> VerOffset
     \<Rightarrow> (nat \<times> Item) option" where
  "findItem_pages pages [] ns dt k chunkIdx chunkSt = None"
| "findItem_pages pages (pid # rest) ns dt k chunkIdx chunkSt =
     (case Page_findItem (pages pid) ns dt k 0 chunkIdx chunkSt of
        Some (i, it) \<Rightarrow> Some (pid, it)
      | None \<Rightarrow> findItem_pages pages rest ns dt k chunkIdx chunkSt)"

definition findItem ::
  "Storage \<Rightarrow> u8 \<Rightarrow> ItemType \<Rightarrow> string option \<Rightarrow> u8 \<Rightarrow> VerOffset
     \<Rightarrow> (nat \<times> Item) option \<times> Storage" where
  "findItem s ns dt k chunkIdx chunkSt =
     (let r = findItem_pages (mPages (mPageManager s)) (mPageList (mPageManager s))
                ns dt k chunkIdx chunkSt
      in (r, s\<lparr>mLastError := findItem_err r\<rparr>))"

subsection \<open>cmpMultiPageBlob and eraseMultiPageBlob\<close>

text \<open>
  The loop of \<^verbatim>\<open>cmpMultiPageBlob\<close> (lines 498 to 512) over the chunk numbers. The
  flag of the result says that the loop left the function with \<^verbatim>\<open>return false\<close>.
  The bytes compared with a chunk are the next \<open>item.varLength.dataSize\<close> bytes of the
  data, from \<open>offset\<close>.
\<close>

fun cmpChunks ::
  "Storage \<Rightarrow> u8 \<Rightarrow> string \<Rightarrow> u8 list \<Rightarrow> VerOffset \<Rightarrow> nat list \<Rightarrow> nat \<Rightarrow> bool \<times> Storage" where
  "cmpChunks s ns k bs chunkSt [] offset = (False, s)"
| "cmpChunks s ns k bs chunkSt (chunkNum # rest) offset =
     (case findItem s ns BLOB_DATA (Some k) (chunkSt + of_nat chunkNum) VER_ANY of
        (None, s1) \<Rightarrow>
          if mLastError s1 = ESP_ERR_NVS_NOT_FOUND then (False, s1) else (True, s1)
      | (Some (findPage, item), s1) \<Rightarrow>
          (let e = Page_cmpItem (pageOf s1 findPage) ns BLOB_DATA (Some k)
                     (take (varLength_dataSize item) (drop offset bs))
                     (chunkSt + of_nat chunkNum);
               s2 = s1\<lparr>mLastError := e\<rparr>
           in if e \<noteq> ESP_OK then (True, s2)
              else cmpChunks s2 ns k bs chunkSt rest (offset + varLength_dataSize item)))"

text \<open>\<^verbatim>\<open>Storage::cmpMultiPageBlob\<close> (lines 477 to 520).\<close>

definition cmpMultiPageBlob :: "Storage \<Rightarrow> u8 \<Rightarrow> string \<Rightarrow> u8 list \<Rightarrow> bool \<times> Storage" where
  "cmpMultiPageBlob s ns k bs =
     (case findItem s ns BLOB_IDX (Some k) CHUNK_ANY VER_ANY of
        (None, s1) \<Rightarrow> (False, s1)
      | (Some (findPage, item), s1) \<Rightarrow>
          if length bs \<noteq> dataSize (blobIndex item)
          then (False, s1\<lparr>mLastError := ESP_ERR_NVS_CONTENT_DIFFERS\<rparr>)
          else
            (case cmpChunks s1 ns k bs (chunkStart (blobIndex item))
                    [0..<unat (chunkCount (blobIndex item))] 0 of
               (True, s2) \<Rightarrow> (False, s2)
             | (False, s2) \<Rightarrow> (mLastError s2 = ESP_OK, s2)))"

text \<open>The loop of \<^verbatim>\<open>eraseMultiPageBlob\<close> (lines 577 to 589).\<close>

fun eraseChunks ::
  "Storage \<Rightarrow> u8 \<Rightarrow> string \<Rightarrow> VerOffset \<Rightarrow> nat list \<Rightarrow> bool \<times> Storage" where
  "eraseChunks s ns k chunkSt [] = (False, s)"
| "eraseChunks s ns k chunkSt (chunkNum # rest) =
     (case findItem s ns BLOB_DATA (Some k) (chunkSt + of_nat chunkNum) VER_ANY of
        (None, s1) \<Rightarrow>
          if mLastError s1 \<noteq> ESP_ERR_NVS_NOT_FOUND then (True, s1)
          else eraseChunks s1 ns k chunkSt rest
      | (Some (findPage, item), s1) \<Rightarrow>
          (case Page_eraseItem (pageOf s1 findPage) ns BLOB_DATA (Some k)
                  (chunkSt + of_nat chunkNum) VER_ANY of
             (e, p') \<Rightarrow>
               (let s2 = (setPage s1 findPage p')\<lparr>mLastError := e\<rparr>
                in if e \<noteq> ESP_OK then (True, s2)
                   else eraseChunks s2 ns k chunkSt rest)))"

text \<open>\<^verbatim>\<open>Storage::eraseMultiPageBlob\<close> (lines 548 to 593).\<close>

definition eraseMultiPageBlob :: "Storage \<Rightarrow> u8 \<Rightarrow> string \<Rightarrow> VerOffset \<Rightarrow> bool \<times> Storage" where
  "eraseMultiPageBlob s ns k chunkSt =
     (if mState s \<noteq> ACTIVE then (False, s\<lparr>mLastError := ESP_ERR_NVS_NOT_INITIALIZED\<rparr>)
      else
        (case findItem s ns BLOB_IDX (Some k) CHUNK_ANY chunkSt of
           (None, s1) \<Rightarrow> (False, s1)
         | (Some (findPage, item), s1) \<Rightarrow>
             (case Page_eraseItem (pageOf s1 findPage) ns BLOB_IDX (Some k) CHUNK_ANY chunkSt of
                (e, p') \<Rightarrow>
                  (let s2 = (setPage s1 findPage p')\<lparr>mLastError := e\<rparr>
                   in if e \<noteq> ESP_OK then (False, s2)
                      else
                        (let cnt = chunkCount (blobIndex item);
                             chunkSt' = (if chunkSt = VER_ANY then chunkStart (blobIndex item)
                                         else chunkSt)
                         in case eraseChunks s2 ns k chunkSt' [0..<unat cnt] of
                              (True, s3) \<Rightarrow> (False, s3)
                            | (False, s3) \<Rightarrow> (True, s3\<lparr>mLastError := ESP_OK\<rparr>))))))"

subsection \<open>writeMultiPageBlob\<close>

text \<open>
  The sequence of lines 183 to 191, 225 to 234 and 337 to 346: mark the page full unless
  it is full, then request a new page. Each step assigns \<open>mLastError\<close>, and the caller
  leaves when it is not \<open>ESP_OK\<close>. \<open>rnp\<close> is \<^verbatim>\<open>PageManager::requestNewPage\<close>.
\<close>

definition markFull_requestNewPage ::
  "(PageManager \<Rightarrow> esp_err_t \<times> PageManager) \<Rightarrow> Storage \<Rightarrow> nat \<Rightarrow> Storage" where
  "markFull_requestNewPage rnp s pid =
     (let s1 = (if state (pageOf s pid) \<noteq> FULL
                then (case Page_markFull (pageOf s pid) of
                        (e, p') \<Rightarrow> (setPage s pid p')\<lparr>mLastError := e\<rparr>)
                else s\<lparr>mLastError := ESP_OK\<rparr>)
      in if mLastError s1 \<noteq> ESP_OK then s1
         else (case rnp (mPageManager s1) of
                 (e2, pm2) \<Rightarrow> s1\<lparr>mPageManager := pm2, mLastError := e2\<rparr>))"

text \<open>
  One pass through the body of the \<^verbatim>\<open>do ... while(true)\<close> loop (lines 177 to 250), on
  the variables \<open>(storage, chunkCount, usedPages, remainingSize, offset)\<close>: the loop
  goes on (\<^verbatim>\<open>continue\<close> or the end of the body), is left by \<^verbatim>\<open>break\<close>, or the function
  is left by \<^verbatim>\<open>return false\<close>.
\<close>

datatype BlobLoop =
    Continue "Storage \<times> u8 \<times> nat list \<times> nat \<times> nat"
  | Break Storage "nat list"
  | ReturnFalse Storage

definition writeMultiPageBlob_body ::
  "(PageManager \<Rightarrow> esp_err_t \<times> PageManager) \<Rightarrow> u8 \<Rightarrow> string \<Rightarrow> u8 list \<Rightarrow> VerOffset
     \<Rightarrow> Storage \<times> u8 \<times> nat list \<times> nat \<times> nat \<Rightarrow> BlobLoop" where
  "writeMultiPageBlob_body rnp ns k bs chunkSt st =
     (case st of (s, chunkCnt, usedPages, remainingSize, offset) \<Rightarrow>
        (let pid = getCurrentPage s;
             tailroom = getVarDataTailroom (pageOf s pid)
         in if chunkCnt = 0 \<and> tailroom < length bs \<and> tailroom < CHUNK_MAX_SIZE div 10 then
              (let s1 = markFull_requestNewPage rnp s pid
               in if mLastError s1 \<noteq> ESP_OK then ReturnFalse s1
                  else if getVarDataTailroom (pageOf s1 (getCurrentPage s1)) = tailroom
                  then ReturnFalse (s1\<lparr>mLastError := ESP_ERR_NVS_NOT_ENOUGH_SPACE\<rparr>)
                  else Continue (s1, chunkCnt, usedPages, remainingSize, offset))
            else if tailroom = 0 then
              Break (s\<lparr>mLastError := ESP_ERR_NVS_NOT_ENOUGH_SPACE\<rparr>) usedPages
            else
              (let chunkSize = (if tailroom < remainingSize then tailroom else remainingSize);
                   remainingSize' = remainingSize - chunkSize
               in case Page_writeItem (pageOf s pid) ns BLOB_DATA k
                         (Bytes (take chunkSize (drop offset bs))) (chunkSt + chunkCnt) of
                    (e, p') \<Rightarrow>
                      (let s1 = (setPage s pid p')\<lparr>mLastError := e\<rparr>;
                           chunkCnt' = chunkCnt + 1
                       in if e \<noteq> ESP_OK then Break s1 usedPages
                          else
                            (let usedPages' = usedPages @ [pid];
                                 s2 = (if remainingSize' \<noteq> 0 \<or> tailroom - chunkSize < ENTRY_SIZE
                                       then markFull_requestNewPage rnp s1 pid else s1)
                             in if mLastError s2 \<noteq> ESP_OK then Break s2 usedPages'
                                else if remainingSize' = 0 then
                                  (case Page_writeItem (pageOf s2 (getCurrentPage s2)) ns BLOB_IDX k
                                          (Index \<lparr>dataSize = length bs, chunkCount = chunkCnt',
                                                   chunkStart = chunkSt\<rparr>) CHUNK_ANY of
                                     (e', q') \<Rightarrow>
                                       Break ((setPage s2 (getCurrentPage s2) q')\<lparr>mLastError := e'\<rparr>)
                                         usedPages')
                                else Continue (s2, chunkCnt', usedPages', remainingSize',
                                               offset + chunkSize))))))"

text \<open>
  The loop. The result is the storage and the list \<open>usedPages\<close>, with a flag that says
  that the function was left by \<^verbatim>\<open>return false\<close> inside the loop.
\<close>

partial_function (option) writeMultiPageBlob_loop ::
  "(PageManager \<Rightarrow> esp_err_t \<times> PageManager) \<Rightarrow> u8 \<Rightarrow> string \<Rightarrow> u8 list \<Rightarrow> VerOffset
     \<Rightarrow> Storage \<times> u8 \<times> nat list \<times> nat \<times> nat \<Rightarrow> (bool \<times> Storage \<times> nat list) option" where
  "writeMultiPageBlob_loop rnp ns k bs chunkSt st =
     (case writeMultiPageBlob_body rnp ns k bs chunkSt st of
        Continue st' \<Rightarrow> writeMultiPageBlob_loop rnp ns k bs chunkSt st'
      | Break s' used \<Rightarrow> Some (False, s', used)
      | ReturnFalse s' \<Rightarrow> Some (True, s', []))"

text \<open>
  The rollback (lines 252 to 258): for the \<open>ii\<close>-th page of \<open>usedPages\<close>,
  \<^verbatim>\<open>eraseItem(nsIndex, ItemType::BLOB_DATA, key, ii++)\<close>, whose result is dropped.
\<close>

fun rollback :: "Storage \<Rightarrow> u8 \<Rightarrow> string \<Rightarrow> nat \<Rightarrow> nat list \<Rightarrow> Storage" where
  "rollback s ns k ii [] = s"
| "rollback s ns k ii (pid # rest) =
     (case Page_eraseItem (pageOf s pid) ns BLOB_DATA (Some k) (of_nat ii) VER_ANY of
        (e, p') \<Rightarrow> rollback (setPage s pid p') ns k (Suc ii) rest)"

text \<open>
  \<^verbatim>\<open>max_pages\<close> (line 165), in unsigned 32-bit arithmetic as in the source, and the
  check of line 167.
\<close>

definition max_pages :: "Storage \<Rightarrow> u32" where
  "max_pages s = min (mPageCount (mPageManager s) - 1) ((ucast CHUNK_ANY - 1) div 2)"

text \<open>
  Lines 172 to 261 of \<^verbatim>\<open>writeMultiPageBlob\<close>: the loop, the rollback and the result.
\<close>

definition writeMultiPageBlob_chunks ::
  "(PageManager \<Rightarrow> esp_err_t \<times> PageManager) \<Rightarrow> Storage \<Rightarrow> u8 \<Rightarrow> string \<Rightarrow> u8 list \<Rightarrow> VerOffset
     \<Rightarrow> (bool \<times> Storage) option" where
  "writeMultiPageBlob_chunks rnp s ns k bs chunkSt =
     (case writeMultiPageBlob_loop rnp ns k bs chunkSt (s, 0, [], length bs, 0) of
        None \<Rightarrow> None
      | Some (True, s1, used) \<Rightarrow> Some (False, s1)
      | Some (False, s1, used) \<Rightarrow>
          (let s2 = (if mLastError s1 \<noteq> ESP_OK then rollback s1 ns k 0 used else s1)
           in Some (mLastError s2 = ESP_OK, s2)))"

text \<open>\<^verbatim>\<open>Storage::writeMultiPageBlob\<close> (lines 161 to 262).\<close>

definition writeMultiPageBlob ::
  "(PageManager \<Rightarrow> esp_err_t \<times> PageManager) \<Rightarrow> Storage \<Rightarrow> u8 \<Rightarrow> string \<Rightarrow> u8 list \<Rightarrow> VerOffset
     \<Rightarrow> (bool \<times> Storage) option" where
  "writeMultiPageBlob rnp s ns k bs chunkSt =
     (if unat (max_pages s) * CHUNK_MAX_SIZE < length bs
      then Some (False, s\<lparr>mLastError := ESP_ERR_NVS_VALUE_TOO_LONG\<rparr>)
      else writeMultiPageBlob_chunks rnp s ns k bs chunkSt)"

subsection \<open>writeItem\<close>

text \<open>
  Lines 361 to 375: erase the item found before the write, finding it again when its
  page has been freed in between.
\<close>

definition writeItem_eraseOld ::
  "Storage \<Rightarrow> u8 \<Rightarrow> ItemType \<Rightarrow> string \<Rightarrow> nat option \<Rightarrow> bool \<times> Storage" where
  "writeItem_eraseOld s ns dt k findPage =
     (case findPage of
        None \<Rightarrow> (True, s\<lparr>mLastError := ESP_OK\<rparr>)
      | Some pg \<Rightarrow>
          (case (if state (pageOf s pg) = UNINITIALIZED \<or> state (pageOf s pg) = PageState_INVALID
                 then (case findItem s ns dt (Some k) CHUNK_ANY VER_ANY of
                         (Some (pg2, it2), s') \<Rightarrow> (pg2, s')
                       | (None, s') \<Rightarrow> (pg, s'))
                 else (pg, s)) of
             (pg', s1) \<Rightarrow>
               (case Page_eraseItem (pageOf s1 pg') ns dt (Some k) CHUNK_ANY VER_ANY of
                  (e, p') \<Rightarrow>
                    (let s2 = (setPage s1 pg' p')\<lparr>mLastError := e\<rparr>
                     in if e \<noteq> ESP_OK then (False, s2)
                        else (True, s2\<lparr>mLastError := ESP_OK\<rparr>)))))"

text \<open>
  Lines 325 to 359, the types other than \<open>BLOB\<close>. \<open>Inl\<close> is a \<^verbatim>\<open>return\<close> inside the
  branch; \<open>Inr\<close> goes on to line 361 with \<open>findPage\<close>.
\<close>

definition writeItem_other ::
  "(PageManager \<Rightarrow> esp_err_t \<times> PageManager) \<Rightarrow> Storage \<Rightarrow> u8 \<Rightarrow> ItemType \<Rightarrow> string \<Rightarrow> u8 list
     \<Rightarrow> nat option \<Rightarrow> (bool \<times> Storage) + (Storage \<times> nat option)" where
  "writeItem_other rnp s ns dt k bs findPage =
     (if (case findPage of
            None \<Rightarrow> False
          | Some pg \<Rightarrow> Page_cmpItem (pageOf s pg) ns dt (Some k) bs CHUNK_ANY = ESP_OK)
      then Inl (True, s\<lparr>mLastError := ESP_OK\<rparr>)
      else
        (let pid = getCurrentPage s
         in case Page_writeItem (pageOf s pid) ns dt k (Bytes bs) CHUNK_ANY of
              (e, p') \<Rightarrow>
                (let s1 = (setPage s pid p')\<lparr>mLastError := e\<rparr>
                 in if e = ESP_ERR_NVS_PAGE_FULL then
                      (let s2 = markFull_requestNewPage rnp s1 pid
                       in if mLastError s2 \<noteq> ESP_OK then Inl (False, s2)
                          else
                            (case Page_writeItem (pageOf s2 (getCurrentPage s2)) ns dt k
                                    (Bytes bs) CHUNK_ANY of
                               (e2, q') \<Rightarrow>
                                 (let s3 = (setPage s2 (getCurrentPage s2) q')\<lparr>mLastError := e2\<rparr>
                                  in if e2 = ESP_ERR_NVS_PAGE_FULL
                                     then Inl (False, s3\<lparr>mLastError := ESP_ERR_NVS_NOT_ENOUGH_SPACE\<rparr>)
                                     else if e2 \<noteq> ESP_OK then Inl (False, s3)
                                     else Inr (s3, findPage))))
                    else if e \<noteq> ESP_OK then Inl (False, s1)
                    else Inr (s1, findPage))))"

text \<open>
  Lines 280 to 324, the type \<open>BLOB\<close>. \<open>r0\<close> is what the search for the blob index
  found (\<open>findPage\<close> and \<open>item\<close>).
\<close>

definition writeItem_blob ::
  "(PageManager \<Rightarrow> esp_err_t \<times> PageManager) \<Rightarrow> Storage \<Rightarrow> u8 \<Rightarrow> string \<Rightarrow> u8 list
     \<Rightarrow> (nat \<times> Item) option \<Rightarrow> ((bool \<times> Storage) + (Storage \<times> nat option)) option" where
  "writeItem_blob rnp s ns k bs r0 =
     (case r0 of
        Some (findPage, item) \<Rightarrow>
          (case cmpMultiPageBlob s ns k bs of
             (True, s1) \<Rightarrow> Some (Inl (True, s1))
           | (False, s1) \<Rightarrow>
               (case (if state (pageOf s1 findPage) = UNINITIALIZED
                         \<or> state (pageOf s1 findPage) = PageState_INVALID
                      then (case findItem s1 ns BLOB (Some k) CHUNK_ANY VER_ANY of
                              (Some (pg2, it2), s') \<Rightarrow> (it2, s')
                            | (None, s') \<Rightarrow> (item, s'))
                      else (item, s1)) of
                  (item', s2) \<Rightarrow>
                    (let prevStart = chunkStart (blobIndex item');
                         nextStart = (if prevStart = VER_1_OFFSET then VER_0_OFFSET
                                      else VER_1_OFFSET)
                     in case writeMultiPageBlob rnp s2 ns k bs nextStart of
                          None \<Rightarrow> None
                        | Some (False, s3) \<Rightarrow>
                            Some (Inl (False,
                              if mLastError s3 = ESP_ERR_NVS_PAGE_FULL
                              then s3\<lparr>mLastError := ESP_ERR_NVS_NOT_ENOUGH_SPACE\<rparr> else s3))
                        | Some (True, s3) \<Rightarrow>
                            (case eraseMultiPageBlob s3 ns k prevStart of
                               (False, s4) \<Rightarrow> Some (Inl (False, s4))
                             | (True, s4) \<Rightarrow> Some (Inr (s4, None))))))
      | None \<Rightarrow>
          (case writeMultiPageBlob rnp s ns k bs VER_0_OFFSET of
             None \<Rightarrow> None
           | Some (False, s3) \<Rightarrow>
               Some (Inl (False,
                 if mLastError s3 = ESP_ERR_NVS_PAGE_FULL
                 then s3\<lparr>mLastError := ESP_ERR_NVS_NOT_ENOUGH_SPACE\<rparr> else s3))
           | Some (True, s3) \<Rightarrow>
               (case findItem s3 ns BLOB (Some k) CHUNK_ANY VER_ANY of
                  (None, s4) \<Rightarrow>
                    if mLastError s4 \<noteq> ESP_ERR_NVS_NOT_FOUND then Some (Inl (False, s4))
                    else Some (Inr (s4, None))
                | (Some (pg, it), s4) \<Rightarrow> Some (Inr (s4, Some pg)))))"

text \<open>\<^verbatim>\<open>Storage::writeItem\<close> (lines 264 to 376).\<close>

definition writeItem ::
  "(PageManager \<Rightarrow> esp_err_t \<times> PageManager) \<Rightarrow> Storage \<Rightarrow> u8 \<Rightarrow> ItemType \<Rightarrow> string \<Rightarrow> u8 list
     \<Rightarrow> (bool \<times> Storage) option" where
  "writeItem rnp s ns dt k bs =
     (if mState s \<noteq> ACTIVE then Some (False, s\<lparr>mLastError := ESP_ERR_NVS_NOT_INITIALIZED\<rparr>)
      else
        (case findItem s ns (if dt = BLOB then BLOB_IDX else dt) (Some k) CHUNK_ANY VER_ANY of
           (r0, s0) \<Rightarrow>
             if r0 = None \<and> mLastError s0 \<noteq> ESP_ERR_NVS_NOT_FOUND then Some (False, s0)
             else
               (case (if dt = BLOB then writeItem_blob rnp s0 ns k bs r0
                      else Some (writeItem_other rnp s0 ns dt k bs (map_option fst r0))) of
                  None \<Rightarrow> None
                | Some (Inl res) \<Rightarrow> Some res
                | Some (Inr (s1, findPage)) \<Rightarrow> Some (writeItem_eraseOld s1 ns dt k findPage))))"

subsection \<open>createOrOpenNamespace\<close>

text \<open>
  \<^verbatim>\<open>Storage::createOrOpenNamespace\<close> (lines 378 to 428). The result carries the value
  assigned to the out parameter \<open>nsIndex\<close>, if any. \<^verbatim>\<open>std::find\<close> compares the name of
  an entry with \<open>nsName\<close>; the loop of lines 393 to 397 is the search for the first
  index from 1 to 254 whose usage bit is clear, and \<open>ns == 255\<close> says there is none;
  \<^verbatim>\<open>strncpy\<close> keeps the first 15 characters of the name.
\<close>

definition createOrOpenNamespace ::
  "(PageManager \<Rightarrow> esp_err_t \<times> PageManager) \<Rightarrow> Storage \<Rightarrow> string \<Rightarrow> bool
     \<Rightarrow> (bool \<times> Storage \<times> u8 option) option" where
  "createOrOpenNamespace rnp s nsName canCreate =
     (if mState s \<noteq> ACTIVE
      then Some (False, s\<lparr>mLastError := ESP_ERR_NVS_NOT_INITIALIZED\<rparr>, None)
      else
        (case find (\<lambda>e. mName e = nsName) (mNamespaces s) of
           Some e \<Rightarrow> Some (True, s\<lparr>mLastError := ESP_OK\<rparr>, Some (mIndex e))
         | None \<Rightarrow>
             if \<not> canCreate then Some (False, s\<lparr>mLastError := ESP_ERR_NVS_NOT_FOUND\<rparr>, None)
             else
               (case find (\<lambda>ns. \<not> mNamespaceUsage s ns) (map of_nat [1..<255]) of
                  None \<Rightarrow> Some (False, s\<lparr>mLastError := ESP_ERR_NVS_NOT_ENOUGH_SPACE\<rparr>, None)
                | Some ns \<Rightarrow>
                    (case writeItem rnp s NS_INDEX U8 nsName [ns] of
                       None \<Rightarrow> None
                     | Some (False, s1) \<Rightarrow> Some (False, s1, None)
                     | Some (True, s1) \<Rightarrow>
                         Some (True,
                               s1\<lparr>mNamespaceUsage := (mNamespaceUsage s1)(ns := True),
                                  mNamespaces := mNamespaces s1 @ [\<lparr>mName = take 15 nsName, mIndex = ns\<rparr>],
                                  mLastError := ESP_OK\<rparr>,
                               Some ns)))))"

subsection \<open>readItem, eraseItem, getItemDataSize\<close>

text \<open>
  The loop of \<^verbatim>\<open>readMultiPageBlob\<close> (lines 448 to 462); the bytes read so far are the
  buffer up to \<open>offset\<close>.
\<close>

fun readChunks ::
  "Storage \<Rightarrow> u8 \<Rightarrow> string \<Rightarrow> VerOffset \<Rightarrow> nat list \<Rightarrow> u8 list \<Rightarrow> bool \<times> Storage \<times> u8 list" where
  "readChunks s ns k chunkSt [] buf = (False, s, buf)"
| "readChunks s ns k chunkSt (chunkNum # rest) buf =
     (case findItem s ns BLOB_DATA (Some k) (chunkSt + of_nat chunkNum) VER_ANY of
        (None, s1) \<Rightarrow>
          if mLastError s1 = ESP_ERR_NVS_NOT_FOUND then (False, s1, buf) else (True, s1, buf)
      | (Some (findPage, item), s1) \<Rightarrow>
          (case Page_readItem (pageOf s1 findPage) ns BLOB_DATA (Some k)
                  (varLength_dataSize item) (chunkSt + of_nat chunkNum) of
             (e, bs) \<Rightarrow>
               (let s2 = s1\<lparr>mLastError := e\<rparr>
                in if e \<noteq> ESP_OK then (True, s2, buf)
                   else readChunks s2 ns k chunkSt rest (buf @ bs))))"

text \<open>\<^verbatim>\<open>Storage::readMultiPageBlob\<close> (lines 430 to 475).\<close>

definition readMultiPageBlob :: "Storage \<Rightarrow> u8 \<Rightarrow> string \<Rightarrow> nat \<Rightarrow> bool \<times> Storage \<times> u8 list" where
  "readMultiPageBlob s ns k sz =
     (case findItem s ns BLOB_IDX (Some k) CHUNK_ANY VER_ANY of
        (None, s1) \<Rightarrow> (False, s1, [])
      | (Some (findPage, item), s1) \<Rightarrow>
          (case readChunks s1 ns k (chunkStart (blobIndex item))
                  [0..<unat (chunkCount (blobIndex item))] [] of
             (True, s2, buf) \<Rightarrow> (False, s2, buf)
           | (False, s2, buf) \<Rightarrow>
               if mLastError s2 = ESP_OK then (True, s2, buf)
               else
                 (let s3 = (if mLastError s2 = ESP_ERR_NVS_NOT_FOUND
                            then snd (eraseMultiPageBlob s2 ns k VER_ANY) else s2)
                  in (False, s3\<lparr>mLastError := ESP_ERR_NVS_NOT_FOUND\<rparr>, buf))))"

text \<open>\<^verbatim>\<open>Storage::readItem\<close> (lines 522 to 546).\<close>

definition readItem ::
  "Storage \<Rightarrow> u8 \<Rightarrow> ItemType \<Rightarrow> string \<Rightarrow> nat \<Rightarrow> bool \<times> Storage \<times> u8 list" where
  "readItem s ns dt k sz =
     (if mState s \<noteq> ACTIVE then (False, s\<lparr>mLastError := ESP_ERR_NVS_NOT_INITIALIZED\<rparr>, [])
      else
        (case (if dt = BLOB then readMultiPageBlob s ns k sz else (False, s, [])) of
           (True, s1, buf) \<Rightarrow> (True, s1, buf)
         | (False, s1, buf) \<Rightarrow>
             if dt = BLOB \<and> mLastError s1 \<noteq> ESP_ERR_NVS_NOT_FOUND then (False, s1, buf)
             else
               (case findItem s1 ns dt (Some k) CHUNK_ANY VER_ANY of
                  (None, s2) \<Rightarrow> (False, s2, buf)
                | (Some (findPage, item), s2) \<Rightarrow>
                    (case Page_readItem (pageOf s2 findPage) ns dt (Some k) sz CHUNK_ANY of
                       (e, bs) \<Rightarrow> (e = ESP_OK, s2\<lparr>mLastError := e\<rparr>, bs)))))"

text \<open>\<^verbatim>\<open>Storage::eraseItem\<close> (lines 595 to 618).\<close>

definition eraseItem :: "Storage \<Rightarrow> u8 \<Rightarrow> ItemType \<Rightarrow> string \<Rightarrow> bool \<times> Storage" where
  "eraseItem s ns dt k =
     (if mState s \<noteq> ACTIVE then (False, s\<lparr>mLastError := ESP_ERR_NVS_NOT_INITIALIZED\<rparr>)
      else if dt = BLOB then eraseMultiPageBlob s ns k VER_ANY
      else
        (case findItem s ns dt (Some k) CHUNK_ANY VER_ANY of
           (None, s1) \<Rightarrow> (False, s1)
         | (Some (findPage, item), s1) \<Rightarrow>
             if datatype' item = BLOB_DATA \<or> datatype' item = BLOB_IDX
             then eraseMultiPageBlob s1 ns k VER_ANY
             else
               (case Page_eraseItem (pageOf s1 findPage) ns dt (Some k) CHUNK_ANY VER_ANY of
                  (e, p') \<Rightarrow> (e = ESP_OK, (setPage s1 findPage p')\<lparr>mLastError := e\<rparr>))))"

text \<open>
  \<^verbatim>\<open>Storage::getItemDataSize\<close> (lines 645 to 669); the result carries the value
  assigned to the out parameter \<open>dataSize\<close>, if any.
\<close>

definition getItemDataSize ::
  "Storage \<Rightarrow> u8 \<Rightarrow> ItemType \<Rightarrow> string \<Rightarrow> bool \<times> Storage \<times> nat option" where
  "getItemDataSize s ns dt k =
     (if mState s \<noteq> ACTIVE then (False, s\<lparr>mLastError := ESP_ERR_NVS_NOT_INITIALIZED\<rparr>, None)
      else
        (case findItem s ns dt (Some k) CHUNK_ANY VER_ANY of
           (Some (findPage, item), s1) \<Rightarrow> (True, s1, Some (varLength_dataSize item))
         | (None, s1) \<Rightarrow>
             if dt \<noteq> BLOB then (False, s1, None)
             else
               (case findItem s1 ns BLOB_IDX (Some k) CHUNK_ANY VER_ANY of
                  (Some (findPage, item), s2) \<Rightarrow> (True, s2, Some (dataSize (blobIndex item)))
                | (None, s2) \<Rightarrow> (False, s2, None))))"

subsection \<open>Loops over the entries of a page\<close>

text \<open>
  The loops of the source that walk a page call \<^verbatim>\<open>findItem\<close> from an entry index and
  go on behind the item found (\<^verbatim>\<open>itemIndex += item.span\<close>). They end because a span
  is positive and a hit lies inside the entries in use.
\<close>

lemma span_pos: "0 < span it"
  by (auto simp add: span_def ENTRY_SIZE_def div_greater_zero_iff split: Payload.splits)

lemma findFrom_bounds:
  "findFrom P start i es = Some (j, it) \<Longrightarrow>
     start \<le> j \<and> i \<le> j \<and> j + span it \<le> i + usedEntries es"
proof (induction es arbitrary: i)
  case Nil
  then show ?case by simp
next
  case (Cons e es)
  show ?case
  proof (cases "start \<le> i \<and> fst e = WRITTEN \<and> P (snd e)")
    case True
    with Cons.prems show ?thesis by (auto simp: usedEntries_def)
  next
    case False
    with Cons.prems have f: "findFrom P start (i + span (snd e)) es = Some (j, it)" by simp
    from Cons.IH [OF f] show ?thesis by (simp add: usedEntries_def)
  qed
qed

lemma Page_findItem_bounds:
  "Page_findItem p ns dt k start ci cs = Some (i, it) \<Longrightarrow>
     start \<le> i \<and> i + span it \<le> usedEntries (mEntries p)"
  using findFrom_bounds [of _ start 0 "mEntries p" i it] by (auto simp: Page_findItem_def)

lemma Page_findItem_measure:
  assumes "Page_findItem p ns dt k start ci cs = Some (i, it)"
  shows "usedEntries (mEntries p) - (i + span it) < usedEntries (mEntries p) - start"
  using Page_findItem_bounds [OF assms] span_pos [of it] by arith

lemma usedEntries_eraseAt: "usedEntries (eraseAt j i es) = usedEntries es"
  by (induction es arbitrary: i) (auto simp: usedEntries_def)

lemma Page_eraseItem_usedEntries:
  "usedEntries (mEntries (snd (Page_eraseItem p ns dt k ci cs))) = usedEntries (mEntries p)"
  by (auto simp: Page_eraseItem_def usedEntries_eraseAt split: option.splits)

definition writtenCount :: "(EntryState \<times> Item) list \<Rightarrow> nat" where
  "writtenCount es = length (filter (\<lambda>e. fst e = WRITTEN) es)"

lemma writtenCount_eraseAt:
  "findFrom P start i es = Some (j, it) \<Longrightarrow> writtenCount (eraseAt j i es) < writtenCount es"
proof (induction es arbitrary: i)
  case Nil
  then show ?case by simp
next
  case (Cons e es)
  show ?case
  proof (cases "start \<le> i \<and> fst e = WRITTEN \<and> P (snd e)")
    case True
    with Cons.prems show ?thesis by (simp add: writtenCount_def)
  next
    case False
    with Cons.prems have f: "findFrom P start (i + span (snd e)) es = Some (j, it)" by simp
    from findFrom_bounds [OF f] span_pos [of "snd e"] have "i \<noteq> j" by simp
    with Cons.IH [OF f] show ?thesis by (simp add: writtenCount_def)
  qed
qed

lemma Page_eraseItem_OK_written:
  "Page_eraseItem p ns dt k ci cs = (ESP_OK, p') \<Longrightarrow>
     writtenCount (mEntries p') < writtenCount (mEntries p)"
  by (auto simp: Page_eraseItem_def Page_findItem_def split: option.splits
      dest: writtenCount_eraseAt)

subsection \<open>eraseNamespace, calcEntriesInNamespace, fillStats\<close>

text \<open>
  The inner loop of \<^verbatim>\<open>eraseNamespace\<close> (lines 628 to 638) on one page: erase items of
  the namespace until \<^verbatim>\<open>eraseItem\<close> reports something else than \<open>ESP_OK\<close>.
\<close>

function eraseAllIn :: "Page \<Rightarrow> u8 \<Rightarrow> esp_err_t \<times> Page" where
  "eraseAllIn p ns =
     (case Page_eraseItem p ns ANY None CHUNK_ANY VER_ANY of
        (err, p') \<Rightarrow>
          if err = ESP_ERR_NVS_NOT_FOUND then (err, p')
          else if err \<noteq> ESP_OK then (err, p')
          else eraseAllIn p' ns)"
  by pat_completeness auto
termination
  by (relation "measure (\<lambda>(p, ns). writtenCount (mEntries p))")
     (auto dest: Page_eraseItem_OK_written [OF sym])

declare eraseAllIn.simps [simp del]

fun eraseNamespace_pages :: "Storage \<Rightarrow> u8 \<Rightarrow> nat list \<Rightarrow> bool \<times> Storage" where
  "eraseNamespace_pages s ns [] = (True, s\<lparr>mLastError := ESP_OK\<rparr>)"
| "eraseNamespace_pages s ns (pid # rest) =
     (case eraseAllIn (pageOf s pid) ns of
        (err, p') \<Rightarrow>
          if err = ESP_ERR_NVS_NOT_FOUND then eraseNamespace_pages (setPage s pid p') ns rest
          else (False, (setPage s pid p')\<lparr>mLastError := err\<rparr>))"

text \<open>\<^verbatim>\<open>Storage::eraseNamespace\<close> (lines 620 to 643).\<close>

definition eraseNamespace :: "Storage \<Rightarrow> u8 \<Rightarrow> bool \<times> Storage" where
  "eraseNamespace s ns =
     (if mState s \<noteq> ACTIVE then (False, s\<lparr>mLastError := ESP_ERR_NVS_NOT_INITIALIZED\<rparr>)
      else eraseNamespace_pages s ns (mPageList (mPageManager s)))"

text \<open>
  The inner loop of \<^verbatim>\<open>calcEntriesInNamespace\<close> (lines 725 to 740) on one page, from
  \<open>itemIndex\<close> with the count \<open>usedEntries\<close> so far. \<^verbatim>\<open>Page::findItem\<close> of the model
  reports \<open>ESP_OK\<close> or \<open>NOT_FOUND\<close>, so the branch of line 730 for another error is
  not taken and the loop ends without an error.
\<close>

function calcEntriesFrom :: "Page \<Rightarrow> u8 \<Rightarrow> nat \<Rightarrow> nat \<Rightarrow> nat" where
  "calcEntriesFrom p ns itemIndex used =
     (case Page_findItem p ns ANY None itemIndex CHUNK_ANY VER_ANY of
        None \<Rightarrow> used
      | Some (i, item) \<Rightarrow>
          if ENTRY_COUNT \<le> i + span item then used + span item
          else calcEntriesFrom p ns (i + span item) (used + span item))"
  by pat_completeness auto
termination
  by (relation "measure (\<lambda>(p, ns, itemIndex, used). usedEntries (mEntries p) - itemIndex)")
     (auto intro: Page_findItem_measure)

declare calcEntriesFrom.simps [simp del]

text \<open>
  \<^verbatim>\<open>Storage::calcEntriesInNamespace\<close> (lines 713 to 745); the result carries the out
  parameter \<open>usedEntries\<close>, which is set to 0 before the state is looked at.
\<close>

definition calcEntriesInNamespace :: "Storage \<Rightarrow> u8 \<Rightarrow> bool \<times> Storage \<times> nat" where
  "calcEntriesInNamespace s ns =
     (if mState s \<noteq> ACTIVE then (False, s\<lparr>mLastError := ESP_ERR_NVS_NOT_INITIALIZED\<rparr>, 0)
      else (True, s\<lparr>mLastError := ESP_OK\<rparr>,
            fold (\<lambda>pid used. calcEntriesFrom (pageOf s pid) ns 0 used)
              (mPageList (mPageManager s)) 0))"

text \<open>
  Modelled from the spec: \<^verbatim>\<open>PageManager::fillStats\<close>, which adds up the used, free
  and total entries of the pages and reports \<open>ESP_OK\<close>.
\<close>

record nvs_stats_t =
  used_entries :: nat
  free_entries :: nat
  total_entries :: nat
  namespace_count :: nat

definition PageManager_fillStats :: "PageManager \<Rightarrow> nvs_stats_t \<Rightarrow> esp_err_t \<times> nvs_stats_t" where
  "PageManager_fillStats pm st =
     (let used = sum_list (map (\<lambda>pid. usedEntries (filter (\<lambda>e. fst e = WRITTEN) (mEntries (mPages pm pid))))
                            (mPageList pm));
          total = unat (mPageCount pm) * ENTRY_COUNT
      in (ESP_OK, st\<lparr>used_entries := used, free_entries := total - used, total_entries := total\<rparr>))"

text \<open>\<^verbatim>\<open>Storage::fillStats\<close> (lines 706 to 711).\<close>

definition fillStats :: "Storage \<Rightarrow> nvs_stats_t \<Rightarrow> bool \<times> Storage \<times> nvs_stats_t" where
  "fillStats s nvsStats =
     (case PageManager_fillStats (mPageManager s)
             (nvsStats\<lparr>namespace_count := length (mNamespaces s)\<rparr>) of
        (e, st) \<Rightarrow> (e = ESP_OK, s\<lparr>mLastError := e\<rparr>, st))"

subsection \<open>init\<close>

record BlobIndexNode =
  node_key :: string
  node_nsIndex :: u8
  node_chunkCount :: u8
  node_chunkStart :: VerOffset

text \<open>
  The loop of \<^verbatim>\<open>populateBlobIndices\<close> on one page (lines 35 to 50). \<^verbatim>\<open>getKey\<close>
  copies at most 15 characters of the key.
\<close>

function blobIndicesFrom :: "Page \<Rightarrow> nat \<Rightarrow> BlobIndexNode list" where
  "blobIndicesFrom p itemIndex =
     (case Page_findItem p NS_ANY BLOB_IDX None itemIndex CHUNK_ANY VER_ANY of
        None \<Rightarrow> []
      | Some (i, item) \<Rightarrow>
          \<lparr>node_key = take 15 (key item), node_nsIndex = nsIndex item,
           node_chunkCount = chunkCount (blobIndex item),
           node_chunkStart = chunkStart (blobIndex item)\<rparr>
          # blobIndicesFrom p (i + span item))"
  by pat_completeness auto
termination
  by (relation "measure (\<lambda>(p, itemIndex). usedEntries (mEntries p) - itemIndex)")
     (auto intro: Page_findItem_measure)

declare blobIndicesFrom.simps [simp del]

text \<open>\<^verbatim>\<open>Storage::populateBlobIndices\<close> (lines 24 to 55); the result carries the list.\<close>

definition populateBlobIndices :: "Storage \<Rightarrow> bool \<times> Storage \<times> BlobIndexNode list" where
  "populateBlobIndices s =
     (True, s\<lparr>mLastError := ESP_OK\<rparr>,
      concat (map (\<lambda>pid. blobIndicesFrom (pageOf s pid) 0) (mPageList (mPageManager s))))"

text \<open>
  The predicate of \<^verbatim>\<open>std::find_if\<close> in \<^verbatim>\<open>eraseOrphanDataBlobs\<close> (lines 69 to 73):
  the first 15 characters of the keys agree, the namespaces agree, and the chunk index lies
  in the range of the index. The comparison of line 72 is made on \<^verbatim>\<open>int\<close>, without
  wrap-around.
\<close>

definition blobIndexCovers :: "Item \<Rightarrow> BlobIndexNode \<Rightarrow> bool" where
  "blobIndexCovers item e =
     (take 15 (key item) = take 15 (node_key e) \<and> nsIndex item = node_nsIndex e \<and>
      unat (node_chunkStart e) \<le> unat (chunkIndex item) \<and>
      unat (chunkIndex item) < unat (node_chunkStart e) + unat (node_chunkCount e))"

text \<open>The loop of \<^verbatim>\<open>eraseOrphanDataBlobs\<close> on one page (lines 68 to 78).\<close>

function eraseOrphansFrom :: "BlobIndexNode list \<Rightarrow> Page \<Rightarrow> nat \<Rightarrow> Page" where
  "eraseOrphansFrom blobIdxList p itemIndex =
     (case Page_findItem p NS_ANY BLOB_DATA None itemIndex CHUNK_ANY VER_ANY of
        None \<Rightarrow> p
      | Some (i, item) \<Rightarrow>
          eraseOrphansFrom blobIdxList
            (if find (blobIndexCovers item) blobIdxList = None
             then snd (Page_eraseItem p (nsIndex item) (datatype' item) (Some (key item))
                         (chunkIndex item) VER_ANY)
             else p)
            (i + span item))"
  by pat_completeness auto
termination
  by (relation "measure (\<lambda>(l, p, itemIndex). usedEntries (mEntries p) - itemIndex)")
     (auto simp: Page_eraseItem_usedEntries intro: Page_findItem_measure)

declare eraseOrphansFrom.simps [simp del]

text \<open>\<^verbatim>\<open>Storage::eraseOrphanDataBlobs\<close> (lines 57 to 80).\<close>

definition eraseOrphanDataBlobs :: "Storage \<Rightarrow> BlobIndexNode list \<Rightarrow> Storage" where
  "eraseOrphanDataBlobs s blobIdxList =
     fold (\<lambda>pid s'. setPage s' pid (eraseOrphansFrom blobIdxList (pageOf s' pid) 0))
       (mPageList (mPageManager s)) s"

text \<open>
  The loop of \<^verbatim>\<open>init\<close> that loads the namespaces of one page (lines 104 to 118).
  \<^verbatim>\<open>getValue\<close> reads the byte of a \<open>U8\<close> item.
\<close>

definition getValue_u8 :: "Item \<Rightarrow> u8" where
  "getValue_u8 item = (case payload item of Bytes (b # bs) \<Rightarrow> b | _ \<Rightarrow> 0)"

function namespacesFrom :: "Page \<Rightarrow> nat \<Rightarrow> NamespaceEntry list" where
  "namespacesFrom p itemIndex =
     (case Page_findItem p NS_INDEX U8 None itemIndex CHUNK_ANY VER_ANY of
        None \<Rightarrow> []
      | Some (i, item) \<Rightarrow>
          \<lparr>mName = take 15 (key item), mIndex = getValue_u8 item\<rparr>
          # namespacesFrom p (i + span item))"
  by pat_completeness auto
termination
  by (relation "measure (\<lambda>(p, itemIndex). usedEntries (mEntries p) - itemIndex)")
     (auto intro: Page_findItem_measure)

declare namespacesFrom.simps [simp del]

text \<open>
  \<^verbatim>\<open>Storage::init\<close> (lines 82 to 143). \<open>load\<close> is \<^verbatim>\<open>PageManager::load\<close> on the
  partition of the storage.
\<close>

definition init :: "(PageManager \<Rightarrow> esp_err_t \<times> PageManager) \<Rightarrow> Storage \<Rightarrow> bool \<times> Storage" where
  "init load s =
     (if mHandleCount s \<noteq> 0 then (False, s\<lparr>mLastError := ESP_ERR_NVS_INVALID_STATE\<rparr>)
      else
        (case load (mPageManager s) of
           (e, pm1) \<Rightarrow>
             (let s1 = s\<lparr>mPageManager := pm1, mLastError := e\<rparr>
              in if e \<noteq> ESP_OK then (False, s1\<lparr>mState := INVALID\<rparr>)
                 else
                   (let entries = concat (map (\<lambda>pid. namespacesFrom (pageOf s1 pid) 0)
                                            (mPageList pm1));
                        usage = fold (\<lambda>e u. u(mIndex e := True)) entries (\<lambda>i. False);
                        s2 = s1\<lparr>mNamespaces := entries,
                                mNamespaceUsage := usage(0 := True, 255 := True),
                                mState := ACTIVE\<rparr>
                    in case populateBlobIndices s2 of
                         (False, s3, blobIdxList) \<Rightarrow> (False, s3\<lparr>mState := INVALID\<rparr>)
                       | (True, s3, blobIdxList) \<Rightarrow>
                           (True, (eraseOrphanDataBlobs s3 blobIdxList)\<lparr>mLastError := ESP_OK\<rparr>)))))"

subsection \<open>The iterator\<close>

text \<open>
  \<^verbatim>\<open>Storage::ItemIterator\<close> derives from \<^verbatim>\<open>Item\<close> and declares a member
  \<^verbatim>\<open>nsIndex\<close> of its own (Storage.hpp, line 87), the namespace the iteration is bound
  to, \<open>NS_ANY\<close> when it is bound to none. \<open>base\<close> is the \<^verbatim>\<open>Item\<close> the iterator is:
  \<^verbatim>\<open>findItem\<close> writes the item found to it (\<^verbatim>\<open>*this\<close>). \<open>page\<close> is the position in
  the list of pages: the pages from the current one on, empty at \<^verbatim>\<open>end()\<close>.
\<close>

record ItemIterator =
  base :: Item
  itemType :: ItemType
  ItemIterator_nsIndex :: u8
  entryIndex :: nat
  page :: "nat list"
  done' :: bool

text \<open>
  The two lambdas of \<^verbatim>\<open>next()\<close> (lines 770 to 777). Inside a member function of
  \<^verbatim>\<open>ItemIterator\<close> the name \<^verbatim>\<open>nsIndex\<close> is the member of \<^verbatim>\<open>ItemIterator\<close>, which
  hides \<^verbatim>\<open>Item::nsIndex\<close>; \<^verbatim>\<open>datatype\<close> and \<^verbatim>\<open>chunkIndex\<close> are members of
  \<^verbatim>\<open>Item\<close> only.
\<close>

definition isIterableItem :: "u8 \<Rightarrow> Item \<Rightarrow> bool" where
  "isIterableItem itNsIndex item =
     (itNsIndex \<noteq> 0 \<and> datatype' item \<noteq> BLOB \<and> datatype' item \<noteq> BLOB_IDX)"

definition isMultipageBlob :: "Item \<Rightarrow> bool" where
  "isMultipageBlob item =
     (datatype' item = BLOB_DATA \<and> chunkIndex item \<noteq> VER_0_OFFSET \<and>
      chunkIndex item \<noteq> VER_1_OFFSET)"

text \<open>
  The \<^verbatim>\<open>do ... while\<close> loop of \<^verbatim>\<open>next()\<close> on one page (lines 781 to 787), from
  \<open>entryIndex\<close>: whether an item is yielded, the entry index and the item of the iterator
  afterwards.
\<close>

function nextInPage :: "Page \<Rightarrow> u8 \<Rightarrow> ItemType \<Rightarrow> nat \<Rightarrow> Item \<Rightarrow> bool \<times> nat \<times> Item" where
  "nextInPage p itNsIndex ty idx cur =
     (case Page_findItem p itNsIndex ty None idx CHUNK_ANY VER_ANY of
        None \<Rightarrow> (False, idx + span cur, cur)
      | Some (i, item) \<Rightarrow>
          if isIterableItem itNsIndex item \<and> \<not> isMultipageBlob item
          then (True, i + span item, item)
          else nextInPage p itNsIndex ty (i + span item) item)"
  by pat_completeness auto
termination
  by (relation "measure (\<lambda>(p, n, ty, idx, cur). usedEntries (mEntries p) - idx)")
     (auto intro: Page_findItem_measure)

declare nextInPage.simps [simp del]

text \<open>The \<^verbatim>\<open>for\<close> loop of \<^verbatim>\<open>next()\<close> over the pages (lines 779 to 790).\<close>

fun nextInPages ::
  "Storage \<Rightarrow> u8 \<Rightarrow> ItemType \<Rightarrow> nat list \<Rightarrow> nat \<Rightarrow> Item \<Rightarrow> bool \<times> nat list \<times> nat \<times> Item" where
  "nextInPages s itNsIndex ty [] idx cur = (False, [], idx, cur)"
| "nextInPages s itNsIndex ty (pid # rest) idx cur =
     (case nextInPage (pageOf s pid) itNsIndex ty idx cur of
        (True, idx', item) \<Rightarrow> (True, pid # rest, idx', item)
      | (False, idx', item) \<Rightarrow> nextInPages s itNsIndex ty rest 0 item)"

text \<open>
  \<^verbatim>\<open>operator bool\<close> of the iterator is declared in the header; the header among the
  sources tests \<^verbatim>\<open>page && err == ESP_OK\<close>, for a revision that has \<^verbatim>\<open>err\<close> where
  Storage.cpp has \<^verbatim>\<open>done\<close>. The model tests the page and \<open>done\<close>.
\<close>

definition ItemIterator_bool :: "ItemIterator \<Rightarrow> bool" where
  "ItemIterator_bool it = (page it \<noteq> [] \<and> \<not> done' it)"

text \<open>\<^verbatim>\<open>Storage::ItemIterator::next\<close> (lines 764 to 794).\<close>

definition ItemIterator_next :: "Storage \<Rightarrow> ItemIterator \<Rightarrow> bool \<times> ItemIterator" where
  "ItemIterator_next s it =
     (if \<not> ItemIterator_bool it then (False, it)
      else
        (case nextInPages s (ItemIterator_nsIndex it) (itemType it) (page it) (entryIndex it)
                (base it) of
           (True, pg, idx, item) \<Rightarrow> (True, it\<lparr>base := item, entryIndex := idx, page := pg\<rparr>)
         | (False, pg, idx, item) \<Rightarrow>
             (False, it\<lparr>base := item, entryIndex := idx, page := pg, done' := True\<rparr>)))"

text \<open>
  \<^verbatim>\<open>ItemIterator::reset\<close> (lines 757 to 762) and the constructor (lines 747 to 755),
  which \<^verbatim>\<open>findEntry\<close> calls. \<open>item0\<close> is the \<^verbatim>\<open>Item\<close> part of the new iterator,
  which the constructor leaves as it is.
\<close>

definition ItemIterator_reset :: "Storage \<Rightarrow> ItemIterator \<Rightarrow> ItemIterator" where
  "ItemIterator_reset s it = it\<lparr>entryIndex := 0, page := mPageList (mPageManager s), done' := False\<rparr>"

definition findEntry ::
  "(PageManager \<Rightarrow> esp_err_t \<times> PageManager) \<Rightarrow> Storage \<Rightarrow> Item \<Rightarrow> string option \<Rightarrow> ItemType
     \<Rightarrow> (ItemIterator \<times> Storage) option" where
  "findEntry rnp s item0 ns_name ty =
     (let it = ItemIterator_reset s
                 \<lparr>base = item0, itemType = ty, ItemIterator_nsIndex = NS_ANY, entryIndex = 0,
                  page = [], done' = False\<rparr>
      in case ns_name of
           None \<Rightarrow> Some (it, s)
         | Some name \<Rightarrow>
             (case createOrOpenNamespace rnp s name False of
                None \<Rightarrow> None
              | Some (ok, s', idx) \<Rightarrow>
                  Some (it\<lparr>ItemIterator_nsIndex := (case idx of None \<Rightarrow> NS_ANY | Some i \<Rightarrow> i),
                           done' := \<not> ok\<rparr>, s')))"

subsection \<open>Inputs of the examples\<close>

text \<open>
  A storage of two pages whose current page 0 is active and empty, and a page manager
  that has no page left to hand out.
\<close>

definition ex_page0 :: Page where
  "ex_page0 = \<lparr>state = PageState_ACTIVE, mEntries = []\<rparr>"

definition ex_storage0 :: Storage where
  "ex_storage0 =
     \<lparr>mPageManager = \<lparr>mPages = (\<lambda>i. ex_page0), mPageList = [0], mPageCount = 2\<rparr>,
      mNamespaces = [], mNamespaceUsage = (\<lambda>i. i = 0 \<or> i = 255),
      mState = ACTIVE, mLastError = ESP_OK, mHandleCount = 0\<rparr>"

definition rnp_none :: "PageManager \<Rightarrow> esp_err_t \<times> PageManager" where
  "rnp_none pm = (ESP_ERR_NVS_NOT_ENOUGH_SPACE, pm)"

text \<open>
  A storage with one namespace, \<open>cfg\<close> with index 1, whose entry under \<open>NS_INDEX\<close> is
  the only item of page 0; and the \<^verbatim>\<open>Item\<close> part of a new iterator.
\<close>

definition ex_item0 :: Item where
  "ex_item0 = \<lparr>nsIndex = 0, datatype' = ANY, key = [], chunkIndex = 0, payload = Bytes []\<rparr>"

definition ex_ns_entry :: Item where
  "ex_ns_entry =
     \<lparr>nsIndex = NS_INDEX, datatype' = U8, key = ''cfg'', chunkIndex = CHUNK_ANY,
      payload = Bytes [1]\<rparr>"

definition ex_storage_ns :: Storage where
  "ex_storage_ns =
     \<lparr>mPageManager =
        \<lparr>mPages = (\<lambda>i. \<lparr>state = PageState_ACTIVE, mEntries = [(WRITTEN, ex_ns_entry)]\<rparr>),
         mPageList = [0], mPageCount = 2\<rparr>,
      mNamespaces = [\<lparr>mName = ''cfg'', mIndex = 1\<rparr>],
      mNamespaceUsage = (\<lambda>i. i = 0 \<or> i = 1 \<or> i = 255),
      mState = ACTIVE, mLastError = ESP_OK, mHandleCount = 0\<rparr>"

text \<open>
  A storage of three pages whose current page 0 holds a blob of one byte under
  namespace 1 and key \<open>k\<close>, in version 0: its chunk 0 and its index. \<open>ex_new_chunk\<close>
  is the first chunk of a blob of 3905 zero bytes in version 1, as much of it as fits
  into the 122 entries behind the header entry.
\<close>

definition ex_old_chunk :: Item where
  "ex_old_chunk =
     \<lparr>nsIndex = 1, datatype' = BLOB_DATA, key = ''k'', chunkIndex = 0, payload = Bytes [1]\<rparr>"

definition ex_old_index :: Item where
  "ex_old_index =
     \<lparr>nsIndex = 1, datatype' = BLOB_IDX, key = ''k'', chunkIndex = CHUNK_ANY,
      payload = Index \<lparr>dataSize = 1, chunkCount = 1, chunkStart = VER_0_OFFSET\<rparr>\<rparr>"

definition ex_new_chunk :: Item where
  "ex_new_chunk =
     \<lparr>nsIndex = 1, datatype' = BLOB_DATA, key = ''k'', chunkIndex = VER_1_OFFSET,
      payload = Bytes (replicate 3904 0)\<rparr>"

definition ex_storage_blob :: Storage where
  "ex_storage_blob =
     \<lparr>mPageManager =
        \<lparr>mPages = (\<lambda>i. \<lparr>state = PageState_ACTIVE,
                          mEntries = [(WRITTEN, ex_old_chunk), (WRITTEN, ex_old_index)]\<rparr>),
         mPageList = [0], mPageCount = 3\<rparr>,
      mNamespaces = [\<lparr>mName = ''cfg'', mIndex = 1\<rparr>],
      mNamespaceUsage = (\<lambda>i. i = 0 \<or> i = 1 \<or> i = 255),
      mState = ACTIVE, mLastError = ESP_OK, mHandleCount = 0\<rparr>"

text \<open>
  A storage whose current page 0 is filled by one string of 4000 bytes (126 entries), and
  that has no namespace yet.
\<close>

definition ex_big_item :: Item where
  "ex_big_item =
     \<lparr>nsIndex = 1, datatype' = ItemType_STR, key = ''text'', chunkIndex = CHUNK_ANY,
      payload = Bytes (replicate 4000 0)\<rparr>"

definition ex_storage_full :: Storage where
  "ex_storage_full =
     \<lparr>mPageManager =
        \<lparr>mPages = (\<lambda>i. \<lparr>state = PageState_ACTIVE, mEntries = [(WRITTEN, ex_big_item)]\<rparr>),
         mPageList = [0], mPageCount = 2\<rparr>,
      mNamespaces = [], mNamespaceUsage = (\<lambda>i. i = 0 \<or> i = 255),
      mState = ACTIVE, mLastError = ESP_OK, mHandleCount = 0\<rparr>"

text \<open>The definitions that evaluate a write on a given storage.\<close>

lemmas model_defs =
  writeItem_def writeItem_blob_def writeItem_other_def writeItem_eraseOld_def
  writeMultiPageBlob_def writeMultiPageBlob_chunks_def writeMultiPageBlob_loop.simps
  writeMultiPageBlob_body_def markFull_requestNewPage_def max_pages_def
  cmpMultiPageBlob_def eraseMultiPageBlob_def findItem_def findItem_err_def
  Page_findItem_def Page_eraseItem_def Page_writeItem_def Page_cmpItem_def Page_markFull_def
  itemMatches_def blobIndex_def varLength_dataSize_def span_def isVariableLengthType_def
  getCurrentPage_def pageOf_def setPage_def getVarDataTailroom_def usedEntries_def
  CHUNK_ANY_def CHUNK_MAX_SIZE_def ENTRY_SIZE_def ENTRY_COUNT_def NS_ANY_def NS_INDEX_def
  VER_0_OFFSET_def VER_1_OFFSET_def VER_ANY_def Let_def

text \<open>
  Page managers that hand out page 1: \<open>rnp_fresh\<close> as a fresh page, active and empty,
  \<open>rnp_full_page\<close> as an active page that is full already; and a \<open>load\<close> that
  leaves the page manager as it is.
\<close>

definition rnp_fresh :: "PageManager \<Rightarrow> esp_err_t \<times> PageManager" where
  "rnp_fresh pm =
     (ESP_OK, pm\<lparr>mPages := (mPages pm)(1 := ex_page0), mPageList := mPageList pm @ [1]\<rparr>)"

definition rnp_full_page :: "PageManager \<Rightarrow> esp_err_t \<times> PageManager" where
  "rnp_full_page pm =
     (ESP_OK, pm\<lparr>mPages := (mPages pm)(1 := \<lparr>state = PageState_ACTIVE,
                                                 mEntries = [(WRITTEN, ex_big_item)]\<rparr>),
                  mPageList := mPageList pm @ [1]\<rparr>)"

definition load_ok :: "PageManager \<Rightarrow> esp_err_t \<times> PageManager" where
  "load_ok pm = (ESP_OK, pm)"

text \<open>
  A storage whose page 0 holds a blob of one byte in the format without index, under
  namespace 1 and key \<open>k\<close>.
\<close>

definition ex_legacy_blob :: Item where
  "ex_legacy_blob =
     \<lparr>nsIndex = 1, datatype' = BLOB, key = ''k'', chunkIndex = CHUNK_ANY, payload = Bytes [7]\<rparr>"

definition ex_storage_legacy :: Storage where
  "ex_storage_legacy =
     \<lparr>mPageManager =
        \<lparr>mPages = (\<lambda>i. \<lparr>state = PageState_ACTIVE, mEntries = [(WRITTEN, ex_legacy_blob)]\<rparr>),
         mPageList = [0], mPageCount = 3\<rparr>,
      mNamespaces = [\<lparr>mName = ''cfg'', mIndex = 1\<rparr>],
      mNamespaceUsage = (\<lambda>i. i = 0 \<or> i = 1 \<or> i = 255),
      mState = ACTIVE, mLastError = ESP_OK, mHandleCount = 0\<rparr>"

text \<open>
  A storage that is not mounted yet, whose page 0 holds the blob of \<open>ex_storage_blob\<close>
  and three chunks of a blob under key \<open>x\<close> that has no index.
\<close>

definition ex_orphan :: "u8 \<Rightarrow> Item" where
  "ex_orphan ci =
     \<lparr>nsIndex = 1, datatype' = BLOB_DATA, key = ''x'', chunkIndex = ci, payload = Bytes [0]\<rparr>"

definition ex_storage_orphans :: Storage where
  "ex_storage_orphans =
     \<lparr>mPageManager =
        \<lparr>mPages = (\<lambda>i. \<lparr>state = PageState_ACTIVE,
                          mEntries = [(WRITTEN, ex_orphan 0), (WRITTEN, ex_old_chunk),
                                      (WRITTEN, ex_old_index), (WRITTEN, ex_orphan 1),
                                      (WRITTEN, ex_orphan 2)]\<rparr>),
         mPageList = [0], mPageCount = 3\<rparr>,
      mNamespaces = [], mNamespaceUsage = (\<lambda>i. False),
      mState = INVALID, mLastError = ESP_OK, mHandleCount = 0\<rparr>"


text \<open>
  A storage that is not mounted yet, whose page 0 holds the blob of \<open>ex_storage_blob\<close>
  and, behind it, a chunk of the same namespace and key with chunk index \<open>0xFF\<close> that
  no index covers. \<open>0xFF\<close> is the index \<open>VER_1_OFFSET + 127\<close> that
  \<^verbatim>\<open>writeMultiPageBlob\<close> gives to chunk 128 of a blob in version 1.
\<close>

definition ex_chunk_255 :: Item where
  "ex_chunk_255 =
     \<lparr>nsIndex = 1, datatype' = BLOB_DATA, key = ''k'', chunkIndex = 0xFF, payload = Bytes [2]\<rparr>"

definition ex_storage_255 :: Storage where
  "ex_storage_255 =
     \<lparr>mPageManager =
        \<lparr>mPages = (\<lambda>i. \<lparr>state = PageState_ACTIVE,
                          mEntries = [(WRITTEN, ex_old_chunk), (WRITTEN, ex_old_index),
                                      (WRITTEN, ex_chunk_255)]\<rparr>),
         mPageList = [0], mPageCount = 3\<rparr>,
      mNamespaces = [], mNamespaceUsage = (\<lambda>i. False),
      mState = INVALID, mLastError = ESP_OK, mHandleCount = 0\<rparr>"

subsection \<open>Notions used in the properties\<close>

text \<open>
  The errors \<^verbatim>\<open>writeMultiPageBlob\<close> can leave in \<open>mLastError\<close> behind its first
  check: those of the page operations, \<open>NOT_ENOUGH_SPACE\<close>, and what \<open>rnp\<close> reports.
\<close>

definition blobWriteErr :: "(PageManager \<Rightarrow> esp_err_t \<times> PageManager) \<Rightarrow> esp_err_t \<Rightarrow> bool" where
  "blobWriteErr rnp e =
     (e = ESP_OK \<or> e = ESP_ERR_NVS_INVALID_STATE \<or> e = ESP_ERR_NVS_PAGE_FULL \<or>
      e = ESP_ERR_NVS_NOT_ENOUGH_SPACE \<or> (\<exists>pm. e = fst (rnp pm)))"

text \<open>
  \<open>npf\<close>: the last error is not \<open>PAGE_FULL\<close>. The operations that read and erase
  set \<open>mLastError\<close> from \<^verbatim>\<open>findItem\<close>, \<^verbatim>\<open>eraseItem\<close>, \<^verbatim>\<open>cmpItem\<close> and
  \<^verbatim>\<open>readItem\<close> of a page, none of which reports \<open>PAGE_FULL\<close>.
\<close>

definition npf :: "Storage \<Rightarrow> bool" where
  "npf s = (mLastError s \<noteq> ESP_ERR_NVS_PAGE_FULL)"

text \<open>
  \<open>wmatch P e\<close>: the entry \<open>e\<close> is written and its item satisfies \<open>P\<close>. A scan
  from index 0 finds the first such entry; \<^verbatim>\<open>eraseItem\<close> marks that entry erased and
  leaves the others alone.
\<close>

definition wmatch :: "(Item \<Rightarrow> bool) \<Rightarrow> EntryState \<times> Item \<Rightarrow> bool" where
  "wmatch P e = (fst e = WRITTEN \<and> P (snd e))"

text \<open>
  \<open>pageCount Q p\<close> is the number of written items of the page \<open>p\<close> that satisfy
  \<open>Q\<close>, \<open>writtenItems Q s\<close> their number over the pages of the list. A search finds
  nothing exactly when the number of the items that match its arguments is 0.
\<close>

definition pageCount :: "(Item \<Rightarrow> bool) \<Rightarrow> Page \<Rightarrow> nat" where
  "pageCount Q p = length (filter (wmatch Q) (mEntries p))"

definition PageManager_writtenItems :: "(Item \<Rightarrow> bool) \<Rightarrow> PageManager \<Rightarrow> nat" where
  "PageManager_writtenItems Q pm =
     sum_list (map (\<lambda>pid. pageCount Q (mPages pm pid)) (mPageList pm))"

definition writtenItems :: "(Item \<Rightarrow> bool) \<Rightarrow> Storage \<Rightarrow> nat" where
  "writtenItems Q s = PageManager_writtenItems Q (mPageManager s)"

text \<open>
  The written items that a blob write leaves alone: \<open>keeps rnp Q\<close> says that
  \<^verbatim>\<open>requestNewPage\<close> keeps the number of written items that satisfy \<open>Q\<close>.
\<close>

definition keeps :: "(PageManager \<Rightarrow> esp_err_t \<times> PageManager) \<Rightarrow> (Item \<Rightarrow> bool) \<Rightarrow> bool" where
  "keeps rnp Q = (\<forall>pm. PageManager_writtenItems Q (snd (rnp pm)) = PageManager_writtenItems Q pm)"

text \<open>
  What \<^verbatim>\<open>eraseOrphanDataBlobs\<close> does to an entry, given the list of the blob indices:
  a written \<open>BLOB_DATA\<close> item that no node of the list covers becomes erased.
  \<open>noWildcard e\<close>: if \<open>e\<close> is a written \<open>BLOB_DATA\<close> item, its namespace is not
  \<open>NS_ANY\<close> and its chunk index is not \<open>CHUNK_ANY\<close>.
\<close>

definition reclaim :: "BlobIndexNode list \<Rightarrow> EntryState \<times> Item \<Rightarrow> EntryState \<times> Item" where
  "reclaim l e =
     (if fst e = WRITTEN \<and> datatype' (snd e) = BLOB_DATA \<and> find (blobIndexCovers (snd e)) l = None
      then (ERASED, snd e) else e)"

definition noWildcard :: "EntryState \<times> Item \<Rightarrow> bool" where
  "noWildcard e =
     (fst e = WRITTEN \<and> datatype' (snd e) = BLOB_DATA \<longrightarrow>
        nsIndex (snd e) \<noteq> NS_ANY \<and> chunkIndex (snd e) \<noteq> CHUNK_ANY)"

text \<open>The node that \<^verbatim>\<open>populateBlobIndices\<close> makes of a blob index (lines 43 to 46).\<close>

definition nodeOf :: "Item \<Rightarrow> BlobIndexNode" where
  "nodeOf item =
     \<lparr>node_key = take 15 (key item), node_nsIndex = nsIndex item,
      node_chunkCount = chunkCount (blobIndex item),
      node_chunkStart = chunkStart (blobIndex item)\<rparr>"

text \<open>
  \<open>inRangeOf chunk idx\<close>: the blob index \<open>idx\<close> covers the chunk, that is, namespace
  and key agree and the chunk index lies in \<open>[chunkStart, chunkStart + chunkCount)\<close>. An
  item is an orphan on the pages of a page manager when no written blob index covers it.
\<close>

definition inRangeOf :: "Item \<Rightarrow> Item \<Rightarrow> bool" where
  "inRangeOf chunk idx =
     (nsIndex chunk = nsIndex idx \<and> take 15 (key chunk) = take 15 (key idx) \<and>
      unat (chunkStart (blobIndex idx)) \<le> unat (chunkIndex chunk) \<and>
      unat (chunkIndex chunk) < unat (chunkStart (blobIndex idx)) + unat (chunkCount (blobIndex idx)))"

definition orphan :: "PageManager \<Rightarrow> Item \<Rightarrow> bool" where
  "orphan pm chunk =
     (\<forall>pid\<in>set (mPageList pm). \<forall>e\<in>set (mEntries (mPages pm pid)).
        fst e = WRITTEN \<and> datatype' (snd e) = BLOB_IDX \<longrightarrow> \<not> inRangeOf chunk (snd e))"

text \<open>The pages after \<^verbatim>\<open>eraseOrphanDataBlobs\<close>.\<close>

definition reclaimed :: "BlobIndexNode list \<Rightarrow> Page \<Rightarrow> Page" where
  "reclaimed l p = p\<lparr>mEntries := map (reclaim l) (mEntries p)\<rparr>"

section \<open>Properties\<close>

subsection \<open>The errors of a blob write\<close>

lemma blobWriteErr_consts [simp]:
  "blobWriteErr rnp ESP_OK" "blobWriteErr rnp ESP_ERR_NVS_INVALID_STATE"
  "blobWriteErr rnp ESP_ERR_NVS_PAGE_FULL" "blobWriteErr rnp ESP_ERR_NVS_NOT_ENOUGH_SPACE"
  by (simp_all add: blobWriteErr_def)

lemma markFull_requestNewPage_err [simp]:
  "blobWriteErr rnp (mLastError (markFull_requestNewPage rnp s pid))"
  apply (simp add: blobWriteErr_def markFull_requestNewPage_def Let_def Page_markFull_def
      setPage_def split: prod.splits if_splits)
  by (metis fst_conv)

lemma Page_writeItem_err:
  "Page_writeItem p ns dt k pl ci = (e, p') \<Longrightarrow> blobWriteErr rnp e"
  by (auto simp add: Page_writeItem_def Let_def blobWriteErr_def split: if_splits)

lemma writeMultiPageBlob_body_err:
  "writeMultiPageBlob_body rnp ns k bs cs st = Break s' used \<or>
   writeMultiPageBlob_body rnp ns k bs cs st = ReturnFalse s' \<Longrightarrow>
   blobWriteErr rnp (mLastError s')"
  by (cases st)
    (auto simp add: writeMultiPageBlob_body_def Let_def split: if_splits prod.splits
      dest: Page_writeItem_err)

lemma writeMultiPageBlob_loop_err:
  assumes "writeMultiPageBlob_loop rnp ns k bs cs st = Some y"
  shows "blobWriteErr rnp (mLastError (fst (snd y)))"
  by (rule writeMultiPageBlob_loop.raw_induct
      [where P = "\<lambda>rnp ns k bs cs st y. blobWriteErr rnp (mLastError (fst (snd y)))", OF _ assms])
    (auto split: BlobLoop.splits
      dest: writeMultiPageBlob_body_err [OF disjI1] writeMultiPageBlob_body_err [OF disjI2])

lemma rollback_mLastError [simp]: "mLastError (rollback s ns k ii used) = mLastError s"
  by (induction s ns k ii used rule: rollback.induct) (auto simp: setPage_def split: prod.splits)

lemma writeMultiPageBlob_chunks_err:
  "writeMultiPageBlob_chunks rnp s ns k bs cs = Some (ok, s') \<Longrightarrow>
     blobWriteErr rnp (mLastError s')"
  by (auto simp: writeMultiPageBlob_chunks_def Let_def
      split: option.splits prod.splits bool.splits if_splits dest: writeMultiPageBlob_loop_err)

lemma max_pages_unat:
  "unat (max_pages s) =
     min (unat (mPageCount (mPageManager s) - 1)) ((unat CHUNK_ANY - 1) div 2)"
  by (simp add: max_pages_def CHUNK_ANY_def min_def word_le_nat_alt)

subsection \<open>C6: the size check of writeMultiPageBlob\<close>

text \<open>
  C6. \<^verbatim>\<open>writeMultiPageBlob\<close> computes \<open>max_pages\<close> as the smaller of
  \<open>pageCount - 1\<close> (unsigned, as in the source) and \<open>(CHUNK_ANY - 1) / 2\<close>. For data
  longer than \<open>max_pages * CHUNK_MAX_SIZE\<close> it fails with \<open>VALUE_TOO_LONG\<close> and
  leaves the storage as it was but for \<open>mLastError\<close>. Data of at most that length passes
  the check: the result is that of the rest of the function, and \<open>VALUE_TOO_LONG\<close> is
  then not reported unless \<^verbatim>\<open>requestNewPage\<close> reports it.
\<close>

theorem writeMultiPageBlob_value_too_long:
  "unat (max_pages s) =
     min (unat (mPageCount (mPageManager s) - 1)) ((unat CHUNK_ANY - 1) div 2) \<and>
   (unat (max_pages s) * CHUNK_MAX_SIZE < length bs \<longrightarrow>
      writeMultiPageBlob rnp s ns k bs cs
        = Some (False, s\<lparr>mLastError := ESP_ERR_NVS_VALUE_TOO_LONG\<rparr>)) \<and>
   (length bs \<le> unat (max_pages s) * CHUNK_MAX_SIZE \<longrightarrow>
      writeMultiPageBlob rnp s ns k bs cs = writeMultiPageBlob_chunks rnp s ns k bs cs \<and>
      ((\<forall>pm. fst (rnp pm) \<noteq> ESP_ERR_NVS_VALUE_TOO_LONG) \<longrightarrow>
       (\<forall>ok s'. writeMultiPageBlob rnp s ns k bs cs = Some (ok, s') \<longrightarrow>
                 mLastError s' \<noteq> ESP_ERR_NVS_VALUE_TOO_LONG)))"
proof (intro conjI impI allI)
  show "unat (max_pages s) =
          min (unat (mPageCount (mPageManager s) - 1)) ((unat CHUNK_ANY - 1) div 2)"
    by (rule max_pages_unat)
next
  assume "unat (max_pages s) * CHUNK_MAX_SIZE < length bs"
  then show "writeMultiPageBlob rnp s ns k bs cs
               = Some (False, s\<lparr>mLastError := ESP_ERR_NVS_VALUE_TOO_LONG\<rparr>)"
    by (simp add: writeMultiPageBlob_def)
next
  assume le: "length bs \<le> unat (max_pages s) * CHUNK_MAX_SIZE"
  then show eq: "writeMultiPageBlob rnp s ns k bs cs = writeMultiPageBlob_chunks rnp s ns k bs cs"
    by (simp add: writeMultiPageBlob_def)
  fix ok s'
  assume rnp: "\<forall>pm. fst (rnp pm) \<noteq> ESP_ERR_NVS_VALUE_TOO_LONG"
    and res: "writeMultiPageBlob rnp s ns k bs cs = Some (ok, s')"
  from res eq have "blobWriteErr rnp (mLastError s')"
    by (auto dest: writeMultiPageBlob_chunks_err)
  with rnp show "mLastError s' \<noteq> ESP_ERR_NVS_VALUE_TOO_LONG"
    by (auto simp: blobWriteErr_def)
qed

lemma ex_storage0_write_small:
  "\<exists>s'. writeMultiPageBlob rnp_none ex_storage0 1 ''k'' [1, 2, 3] VER_0_OFFSET = Some (True, s')"
  by (simp add: writeMultiPageBlob_def writeMultiPageBlob_chunks_def
      writeMultiPageBlob_loop.simps writeMultiPageBlob_body_def max_pages_def CHUNK_ANY_def
      CHUNK_MAX_SIZE_def ENTRY_SIZE_def ENTRY_COUNT_def ex_storage0_def ex_page0_def
      getCurrentPage_def pageOf_def setPage_def getVarDataTailroom_def usedEntries_def
      Page_writeItem_def span_def isVariableLengthType_def Let_def)

theorem writeMultiPageBlob_value_too_long_witness:
  "writeMultiPageBlob rnp_none ex_storage0 1 ''k'' (replicate 4001 0) VER_0_OFFSET
     = Some (False, ex_storage0\<lparr>mLastError := ESP_ERR_NVS_VALUE_TOO_LONG\<rparr>) \<and>
   (\<exists>ok s'. writeMultiPageBlob rnp_none ex_storage0 1 ''k'' [1, 2, 3] VER_0_OFFSET = Some (ok, s') \<and>
      mLastError s' \<noteq> ESP_ERR_NVS_VALUE_TOO_LONG)"
proof -
  have mp: "unat (max_pages ex_storage0) = 1"
    by (simp add: max_pages_def ex_storage0_def CHUNK_ANY_def)
  have big: "unat (max_pages ex_storage0) * CHUNK_MAX_SIZE < length (replicate 4001 (0::u8))"
    by (simp add: mp CHUNK_MAX_SIZE_def ENTRY_SIZE_def ENTRY_COUNT_def)
  have small: "length [1, 2, 3 :: u8] \<le> unat (max_pages ex_storage0) * CHUNK_MAX_SIZE"
    by (simp add: mp CHUNK_MAX_SIZE_def ENTRY_SIZE_def ENTRY_COUNT_def)
  have rnp: "\<forall>pm. fst (rnp_none pm) \<noteq> ESP_ERR_NVS_VALUE_TOO_LONG"
    by (simp add: rnp_none_def)
  from ex_storage0_write_small obtain s' where
    s': "writeMultiPageBlob rnp_none ex_storage0 1 ''k'' [1, 2, 3] VER_0_OFFSET = Some (True, s')" ..
  show ?thesis
    using writeMultiPageBlob_value_too_long
        [of ex_storage0 "replicate 4001 0" rnp_none 1 "''k''" VER_0_OFFSET]
      writeMultiPageBlob_value_too_long
        [of ex_storage0 "[1, 2, 3]" rnp_none 1 "''k''" VER_0_OFFSET]
      big small rnp s'
    by blast
qed

subsection \<open>C1: the rollback of a failed blob write\<close>

text \<open>
  C1. The claim: when a write of a blob fails on the way, the chunks written so far (at
  the chunk indices \<open>chunkStart + n\<close>) are erased again and the stored state is as
  before. The rollback of the source erases at the chunk indices \<open>0, 1, ...\<close> instead
  (line 256), so it does what is claimed for version 0 only. On \<open>ex_storage_blob\<close> the
  blob \<open>k\<close> is stored in version 0; writing 3905 bytes to it puts the first chunk of
  version 1 (chunk index \<open>0x80\<close>) on page 0, and no further page is to be had. The
  write fails with \<open>NOT_ENOUGH_SPACE\<close>, and it leaves the new chunk written and the
  chunk 0 of the stored blob erased, with the index of the stored blob in place.
\<close>

theorem writeItem_blob_failed_rollback:
  "\<exists>s'. writeItem rnp_none ex_storage_blob 1 BLOB ''k'' (replicate 3905 0) = Some (False, s') \<and>
     mLastError s' = ESP_ERR_NVS_NOT_ENOUGH_SPACE \<and>
     mEntries (pageOf s' 0)
       = [(ERASED, ex_old_chunk), (WRITTEN, ex_old_index), (WRITTEN, ex_new_chunk)]"
  by (simp add: model_defs ex_storage_blob_def ex_old_chunk_def ex_old_index_def
      ex_new_chunk_def rnp_none_def)

subsection \<open>C5: createOrOpenNamespace\<close>

text \<open>
  The search of lines 393 to 397 for a free index: it finds nothing exactly when the
  indices 1 to 254 are all in use, and otherwise the lowest index of them that is free.
\<close>

lemma unat_of_nat_u8: "n < 256 \<Longrightarrow> unat (of_nat n :: u8) = n"
  by (rule of_nat_inverse [OF refl]) simp

lemma find_free_None:
  "find (\<lambda>ns. \<not> u ns) (map of_nat [1..<255] :: u8 list) = None \<longleftrightarrow>
     (\<forall>m::u8. 1 \<le> unat m \<and> unat m \<le> 254 \<longrightarrow> u m)"
proof
  assume n: "find (\<lambda>ns. \<not> u ns) (map of_nat [1..<255] :: u8 list) = None"
  show "\<forall>m::u8. 1 \<le> unat m \<and> unat m \<le> 254 \<longrightarrow> u m"
  proof (intro allI impI)
    fix m :: u8
    assume m: "1 \<le> unat m \<and> unat m \<le> 254"
    then have "unat m \<in> set [1..<255]" by simp
    then have "of_nat (unat m) \<in> set (map of_nat [1..<255] :: u8 list)"
      unfolding set_map by (rule imageI)
    then have "m \<in> set (map of_nat [1..<255] :: u8 list)" by simp
    with n show "u m" by (auto simp: find_None_iff)
  qed
next
  assume a: "\<forall>m::u8. 1 \<le> unat m \<and> unat m \<le> 254 \<longrightarrow> u m"
  have "\<And>x. x \<in> set (map of_nat [1..<255] :: u8 list) \<Longrightarrow> u x"
  proof -
    fix x :: u8
    assume "x \<in> set (map of_nat [1..<255] :: u8 list)"
    then obtain n where n: "1 \<le> n" "n < 255" "x = of_nat n" by auto
    then have "unat x = n" using unat_of_nat_u8 [of n] by simp
    with n a show "u x" by auto
  qed
  then show "find (\<lambda>ns. \<not> u ns) (map of_nat [1..<255] :: u8 list) = None"
    by (auto simp: find_None_iff)
qed

lemma find_free_Some:
  "find (\<lambda>ns. \<not> u ns) (map of_nat [1..<255] :: u8 list) = Some ns \<longleftrightarrow>
     (1 \<le> unat ns \<and> unat ns \<le> 254 \<and> \<not> u ns \<and>
      (\<forall>m::u8. 1 \<le> unat m \<and> unat m < unat ns \<longrightarrow> u m))"
proof
  assume "find (\<lambda>ns. \<not> u ns) (map of_nat [1..<255] :: u8 list) = Some ns"
  then obtain i where i: "i < 254" "\<not> u ns" "ns = of_nat (Suc i)"
    and before: "\<forall>j<i. u ((map of_nat [1..<255] :: u8 list) ! j)"
    by (auto simp: find_Some_iff)
  from i have un: "unat ns = Suc i" using unat_of_nat_u8 [of "Suc i"] by simp
  have "\<forall>m::u8. 1 \<le> unat m \<and> unat m < unat ns \<longrightarrow> u m"
  proof (intro allI impI)
    fix m :: u8
    assume m: "1 \<le> unat m \<and> unat m < unat ns"
    then obtain j where j: "unat m = Suc j" by (cases "unat m") auto
    with m un have ji: "j < i" by simp
    with before have "u ((map of_nat [1..<255] :: u8 list) ! j)" by blast
    moreover from ji i have "(map of_nat [1..<255] :: u8 list) ! j = of_nat (Suc j)" by simp
    moreover have "of_nat (Suc j) = m" unfolding j [symmetric] by simp
    ultimately show "u m" by simp
  qed
  with i un show "1 \<le> unat ns \<and> unat ns \<le> 254 \<and> \<not> u ns \<and>
      (\<forall>m::u8. 1 \<le> unat m \<and> unat m < unat ns \<longrightarrow> u m)" by simp
next
  assume a: "1 \<le> unat ns \<and> unat ns \<le> 254 \<and> \<not> u ns \<and>
      (\<forall>m::u8. 1 \<le> unat m \<and> unat m < unat ns \<longrightarrow> u m)"
  then obtain i where i: "unat ns = Suc i" by (cases "unat ns") auto
  with a have i254: "i < 254" by simp
  have ns: "ns = of_nat (Suc i)" unfolding i [symmetric] by simp
  have "\<forall>j<i. u ((map of_nat [1..<255] :: u8 list) ! j)"
  proof (intro allI impI)
    fix j assume ji: "j < i"
    with i254 have e: "(map of_nat [1..<255] :: u8 list) ! j = of_nat (Suc j)" by simp
    from ji i254 have "unat (of_nat (Suc j) :: u8) = Suc j"
      using unat_of_nat_u8 [of "Suc j"] by simp
    with a i ji have "u (of_nat (Suc j))" by simp
    with e show "u ((map of_nat [1..<255] :: u8 list) ! j)" by simp
  qed
  moreover from i254 ns have "(map of_nat [1..<255] :: u8 list) ! i = ns" by simp
  ultimately show "find (\<lambda>ns. \<not> u ns) (map of_nat [1..<255] :: u8 list) = Some ns"
    using a i254 by (auto simp: find_Some_iff intro!: exI [of _ i])
qed

lemma createOrOpenNamespace_lowest:
  assumes "mState s = ACTIVE" and "nsName \<notin> mName ` set (mNamespaces s)"
    and "1 \<le> unat ns \<and> unat ns \<le> 254 \<and> \<not> mNamespaceUsage s ns \<and>
           (\<forall>m::u8. 1 \<le> unat m \<and> unat m < unat ns \<longrightarrow> mNamespaceUsage s m)"
  shows "createOrOpenNamespace rnp s nsName True
          = (case writeItem rnp s NS_INDEX U8 nsName [ns] of
               None \<Rightarrow> None
             | Some (False, s1) \<Rightarrow> Some (False, s1, None)
             | Some (True, s1) \<Rightarrow>
                 Some (True,
                       s1\<lparr>mNamespaceUsage := (mNamespaceUsage s1)(ns := True),
                          mNamespaces := mNamespaces s1 @ [\<lparr>mName = take 15 nsName, mIndex = ns\<rparr>],
                          mLastError := ESP_OK\<rparr>,
                       Some ns))"
proof -
  from assms(2) have absent: "find (\<lambda>e. mName e = nsName) (mNamespaces s) = None"
    by (auto simp: find_None_iff)
  from assms(3)
  have "find (\<lambda>ns. \<not> mNamespaceUsage s ns) (map of_nat [1..<255] :: u8 list) = Some ns"
    using find_free_Some [of "mNamespaceUsage s" ns] by blast
  with assms(1) absent show ?thesis
    by (simp add: createOrOpenNamespace_def)
qed

lemma ex_storage_full_writeItem:
  "\<exists>s'. writeItem rnp_none ex_storage_full NS_INDEX U8 ''cfg'' [1] = Some (False, s') \<and>
         mLastError s' = ESP_ERR_NVS_NOT_ENOUGH_SPACE"
  by (simp add: model_defs ex_storage_full_def ex_big_item_def rnp_none_def)

text \<open>
  C5, as stated, fails: creation fails with \<open>NOT_ENOUGH_SPACE\<close> "exactly when all
  indices 1..254 are in use". On \<open>ex_storage_full\<close> the index 1 is free, the only page
  is full and no page is to be had: \<^verbatim>\<open>writeItem\<close> fails with \<open>NOT_ENOUGH_SPACE\<close>
  (line 345), and \<^verbatim>\<open>createOrOpenNamespace\<close> hands that on (line 411).
\<close>

theorem createOrOpenNamespace_storage_full_counterexample:
  "\<not> mNamespaceUsage ex_storage_full 1 \<and>
   (\<exists>s'. createOrOpenNamespace rnp_none ex_storage_full ''cfg'' True = Some (False, s', None) \<and>
         mLastError s' = ESP_ERR_NVS_NOT_ENOUGH_SPACE)"
proof -
  have low: "1 \<le> unat (1::u8) \<and> unat (1::u8) \<le> 254 \<and> \<not> mNamespaceUsage ex_storage_full 1 \<and>
           (\<forall>m::u8. 1 \<le> unat m \<and> unat m < unat (1::u8) \<longrightarrow> mNamespaceUsage ex_storage_full m)"
    by (auto simp add: ex_storage_full_def)
  have st: "mState ex_storage_full = ACTIVE"
    "''cfg'' \<notin> mName ` set (mNamespaces ex_storage_full)"
    by (simp_all add: ex_storage_full_def)
  from ex_storage_full_writeItem obtain s' where
    "writeItem rnp_none ex_storage_full NS_INDEX U8 ''cfg'' [1] = Some (False, s')"
    "mLastError s' = ESP_ERR_NVS_NOT_ENOUGH_SPACE" by blast
  with createOrOpenNamespace_lowest [OF st low, of rnp_none] low show ?thesis
    by simp
qed

text \<open>
  C5, amended. On an active storage, for a name that is not in the namespace table and
  with \<open>canCreate\<close>: when the indices 1 to 254 are all in use, the call fails with
  \<open>NOT_ENOUGH_SPACE\<close> and leaves the storage as it was but for \<open>mLastError\<close>. Otherwise,
  with \<open>ns\<close> the lowest index from 1 to 254 whose usage bit is clear, the call writes the
  item \<open>(NS_INDEX, U8, name, ns)\<close> with \<^verbatim>\<open>writeItem\<close>; when that succeeds it marks the
  bit of \<open>ns\<close>, appends the entry to the list and returns \<open>ns\<close>; when it fails, the call
  fails with the error of \<^verbatim>\<open>writeItem\<close>.
\<close>

theorem createOrOpenNamespace_create:
  assumes "mState s = ACTIVE" and "nsName \<notin> mName ` set (mNamespaces s)"
  shows
    "((\<forall>m::u8. 1 \<le> unat m \<and> unat m \<le> 254 \<longrightarrow> mNamespaceUsage s m) \<longrightarrow>
        createOrOpenNamespace rnp s nsName True
          = Some (False, s\<lparr>mLastError := ESP_ERR_NVS_NOT_ENOUGH_SPACE\<rparr>, None)) \<and>
     (\<forall>ns. 1 \<le> unat ns \<and> unat ns \<le> 254 \<and> \<not> mNamespaceUsage s ns \<and>
           (\<forall>m::u8. 1 \<le> unat m \<and> unat m < unat ns \<longrightarrow> mNamespaceUsage s m) \<longrightarrow>
        createOrOpenNamespace rnp s nsName True
          = (case writeItem rnp s NS_INDEX U8 nsName [ns] of
               None \<Rightarrow> None
             | Some (False, s1) \<Rightarrow> Some (False, s1, None)
             | Some (True, s1) \<Rightarrow>
                 Some (True,
                       s1\<lparr>mNamespaceUsage := (mNamespaceUsage s1)(ns := True),
                          mNamespaces := mNamespaces s1 @ [\<lparr>mName = take 15 nsName, mIndex = ns\<rparr>],
                          mLastError := ESP_OK\<rparr>,
                       Some ns)))"
proof (intro conjI impI allI)
  from assms(2) have absent: "find (\<lambda>e. mName e = nsName) (mNamespaces s) = None"
    by (auto simp: find_None_iff)
  assume "\<forall>m::u8. 1 \<le> unat m \<and> unat m \<le> 254 \<longrightarrow> mNamespaceUsage s m"
  then have "find (\<lambda>ns. \<not> mNamespaceUsage s ns) (map of_nat [1..<255] :: u8 list) = None"
    using find_free_None [of "mNamespaceUsage s"] by blast
  with assms(1) absent
  show "createOrOpenNamespace rnp s nsName True
          = Some (False, s\<lparr>mLastError := ESP_ERR_NVS_NOT_ENOUGH_SPACE\<rparr>, None)"
    by (simp add: createOrOpenNamespace_def)
next
  fix ns
  assume "1 \<le> unat ns \<and> unat ns \<le> 254 \<and> \<not> mNamespaceUsage s ns \<and>
           (\<forall>m::u8. 1 \<le> unat m \<and> unat m < unat ns \<longrightarrow> mNamespaceUsage s m)"
  then show "createOrOpenNamespace rnp s nsName True
          = (case writeItem rnp s NS_INDEX U8 nsName [ns] of
               None \<Rightarrow> None
             | Some (False, s1) \<Rightarrow> Some (False, s1, None)
             | Some (True, s1) \<Rightarrow>
                 Some (True,
                       s1\<lparr>mNamespaceUsage := (mNamespaceUsage s1)(ns := True),
                          mNamespaces := mNamespaces s1 @ [\<lparr>mName = take 15 nsName, mIndex = ns\<rparr>],
                          mLastError := ESP_OK\<rparr>,
                       Some ns))"
    by (rule createOrOpenNamespace_lowest [OF assms])
qed

lemma ex_storage0_writeItem_ns:
  "\<exists>s1. writeItem rnp_none ex_storage0 NS_INDEX U8 ''cfg'' [1] = Some (True, s1) \<and>
     mNamespaces s1 = [] \<and> mEntries (pageOf s1 0) = [(WRITTEN, ex_ns_entry)]"
  by (simp add: model_defs ex_storage0_def ex_page0_def ex_ns_entry_def)

theorem createOrOpenNamespace_create_witness:
  "createOrOpenNamespace rnp_none (ex_storage0\<lparr>mNamespaceUsage := (\<lambda>i. True)\<rparr>) ''cfg'' True
     = Some (False, ex_storage0\<lparr>mNamespaceUsage := (\<lambda>i. True),
                                 mLastError := ESP_ERR_NVS_NOT_ENOUGH_SPACE\<rparr>, None) \<and>
   (\<exists>s'. createOrOpenNamespace rnp_none ex_storage0 ''cfg'' True = Some (True, s', Some 1) \<and>
         mNamespaceUsage s' 1 \<and> mNamespaces s' = [\<lparr>mName = ''cfg'', mIndex = 1\<rparr>] \<and>
         mEntries (pageOf s' 0) = [(WRITTEN, ex_ns_entry)])"
proof -
  have a: "mState (ex_storage0\<lparr>mNamespaceUsage := (\<lambda>i. True)\<rparr>) = ACTIVE"
       "''cfg'' \<notin> mName ` set (mNamespaces (ex_storage0\<lparr>mNamespaceUsage := (\<lambda>i. True)\<rparr>))"
    by (simp_all add: ex_storage0_def)
  have b: "mState ex_storage0 = ACTIVE" "''cfg'' \<notin> mName ` set (mNamespaces ex_storage0)"
    by (simp_all add: ex_storage0_def)
  have low: "1 \<le> unat (1::u8) \<and> unat (1::u8) \<le> 254 \<and> \<not> mNamespaceUsage ex_storage0 1 \<and>
           (\<forall>m::u8. 1 \<le> unat m \<and> unat m < unat (1::u8) \<longrightarrow> mNamespaceUsage ex_storage0 m)"
    by (auto simp add: ex_storage0_def)
  from ex_storage0_writeItem_ns obtain s1 where
    s1: "writeItem rnp_none ex_storage0 NS_INDEX U8 ''cfg'' [1] = Some (True, s1)"
        "mNamespaces s1 = []"
        "mEntries (pageOf s1 0) = [(WRITTEN, ex_ns_entry)]"
    by blast
  have first:
    "createOrOpenNamespace rnp_none (ex_storage0\<lparr>mNamespaceUsage := (\<lambda>i. True)\<rparr>) ''cfg'' True
       = Some (False, ex_storage0\<lparr>mNamespaceUsage := (\<lambda>i. True),
                                   mLastError := ESP_ERR_NVS_NOT_ENOUGH_SPACE\<rparr>, None)"
    using createOrOpenNamespace_create [OF a, of rnp_none] by simp
  have second: "createOrOpenNamespace rnp_none ex_storage0 ''cfg'' True
     = Some (True, s1\<lparr>mNamespaceUsage := (mNamespaceUsage s1)(1 := True),
                       mNamespaces := mNamespaces s1 @ [\<lparr>mName = take 15 ''cfg'', mIndex = 1\<rparr>],
                       mLastError := ESP_OK\<rparr>, Some 1)"
    using createOrOpenNamespace_create [OF b, of rnp_none, THEN conjunct2, THEN spec, of 1,
        THEN mp, OF low] s1(1) by simp
  show ?thesis
    using first second s1 by (simp add: pageOf_def)
qed

subsection \<open>C7: operations on a storage that is not active\<close>

text \<open>
  Eight of the nine operations of the claim look at \<open>mState\<close> first and fail with
  \<open>NOT_INITIALIZED\<close>, leaving the storage as it was but for \<open>mLastError\<close>.
\<close>

lemma not_initialized_ops:
  assumes "mState s \<noteq> ACTIVE"
  shows
    "writeItem rnp s ns dt k bs = Some (False, s\<lparr>mLastError := ESP_ERR_NVS_NOT_INITIALIZED\<rparr>) \<and>
     readItem s ns dt k sz = (False, s\<lparr>mLastError := ESP_ERR_NVS_NOT_INITIALIZED\<rparr>, []) \<and>
     eraseItem s ns dt k = (False, s\<lparr>mLastError := ESP_ERR_NVS_NOT_INITIALIZED\<rparr>) \<and>
     eraseNamespace s ns = (False, s\<lparr>mLastError := ESP_ERR_NVS_NOT_INITIALIZED\<rparr>) \<and>
     eraseMultiPageBlob s ns k cs = (False, s\<lparr>mLastError := ESP_ERR_NVS_NOT_INITIALIZED\<rparr>) \<and>
     createOrOpenNamespace rnp s k canCreate
       = Some (False, s\<lparr>mLastError := ESP_ERR_NVS_NOT_INITIALIZED\<rparr>, None) \<and>
     getItemDataSize s ns dt k = (False, s\<lparr>mLastError := ESP_ERR_NVS_NOT_INITIALIZED\<rparr>, None) \<and>
     calcEntriesInNamespace s ns = (False, s\<lparr>mLastError := ESP_ERR_NVS_NOT_INITIALIZED\<rparr>, 0)"
  using assms
  by (simp add: writeItem_def readItem_def eraseItem_def eraseNamespace_def
      eraseMultiPageBlob_def createOrOpenNamespace_def getItemDataSize_def
      calcEntriesInNamespace_def)

text \<open>
  C7. The claim: each of the nine operations, \<^verbatim>\<open>fillStats\<close> among them, fails on a
  storage that is not active and sets \<open>NOT_INITIALIZED\<close>. \<^verbatim>\<open>fillStats\<close> (lines 706 to
  711) does not look at \<open>mState\<close>: on a storage in state \<open>INVALID\<close> it returns
  \<^verbatim>\<open>true\<close> and sets \<open>ESP_OK\<close>.
\<close>

theorem fillStats_without_state_check:
  "\<exists>st'. fillStats (s\<lparr>mState := INVALID\<rparr>) st
          = (True, s\<lparr>mState := INVALID, mLastError := ESP_OK\<rparr>, st')"
  by (simp add: fillStats_def PageManager_fillStats_def Let_def)

subsection \<open>C8: the items the iterator yields\<close>

text \<open>
  C8. The claim: every item the iterator yields has \<open>nsIndex \<noteq> 0\<close>. The test
  \<^verbatim>\<open>nsIndex != 0\<close> of line 771 reads the member \<^verbatim>\<open>nsIndex\<close> of the iterator, the
  namespace it is bound to, not the namespace of the item found. An iterator over all
  namespaces (\<^verbatim>\<open>findEntry()\<close>, bound to \<open>NS_ANY\<close>) on \<open>ex_storage_ns\<close> yields the
  entry of the namespace table, whose \<open>nsIndex\<close> is 0.
\<close>

theorem iterator_yields_namespace_entry:
  "\<exists>it. findEntry rnp_none ex_storage_ns ex_item0 None ANY = Some (it, ex_storage_ns) \<and>
        (\<exists>it'. ItemIterator_next ex_storage_ns it = (True, it') \<and> base it' = ex_ns_entry \<and>
               nsIndex (base it') = 0)"
  by (simp add: findEntry_def ItemIterator_reset_def ItemIterator_next_def ItemIterator_bool_def
      ex_storage_ns_def nextInPage.simps pageOf_def Page_findItem_def itemMatches_def
      NS_ANY_def CHUNK_ANY_def VER_ANY_def isIterableItem_def isMultipageBlob_def ex_ns_entry_def
      NS_INDEX_def span_def isVariableLengthType_def)

subsection \<open>C3: PAGE_FULL does not reach the caller\<close>

lemma npf_upd [simp]: "npf (s\<lparr>mLastError := e\<rparr>) = (e \<noteq> ESP_ERR_NVS_PAGE_FULL)"
  by (simp add: npf_def)

lemma npf_setPage [simp]: "npf (setPage s pid p) = npf s"
  by (simp add: npf_def setPage_def)

lemma findItem_npf: "findItem s ns dt k ci cs = (r, s') \<Longrightarrow> npf s'"
  by (auto simp: findItem_def Let_def findItem_err_def split: option.splits)

lemma Page_eraseItem_err: "Page_eraseItem p ns dt k ci cs = (e, p') \<Longrightarrow> e \<noteq> ESP_ERR_NVS_PAGE_FULL"
  by (auto simp: Page_eraseItem_def split: option.splits)

lemma Page_cmpItem_err: "Page_cmpItem p ns dt k bs ci \<noteq> ESP_ERR_NVS_PAGE_FULL"
  by (auto simp: Page_cmpItem_def split: option.splits)

lemma Page_readItem_err: "Page_readItem p ns dt k sz ci = (e, bs) \<Longrightarrow> e \<noteq> ESP_ERR_NVS_PAGE_FULL"
  by (auto simp: Page_readItem_def split: option.splits Payload.splits if_splits)

lemma cmpChunks_npf: "cmpChunks s ns k bs cs nums off = (b, s') \<Longrightarrow> npf s \<Longrightarrow> npf s'"
  by (induction s ns k bs cs nums off rule: cmpChunks.induct)
     (auto simp: Let_def Page_cmpItem_err split: prod.splits option.splits if_splits dest: findItem_npf)

lemma cmpMultiPageBlob_npf: "cmpMultiPageBlob s ns k bs = (b, s') \<Longrightarrow> npf s'"
  by (auto simp: cmpMultiPageBlob_def split: prod.splits option.splits if_splits bool.splits
      dest: findItem_npf cmpChunks_npf)

lemma eraseChunks_npf: "eraseChunks s ns k cs nums = (b, s') \<Longrightarrow> npf s \<Longrightarrow> npf s'"
  by (induction s ns k cs nums rule: eraseChunks.induct)
     (auto simp: Let_def split: prod.splits option.splits if_splits dest: findItem_npf Page_eraseItem_err)

lemma eraseMultiPageBlob_npf: "eraseMultiPageBlob s ns k cs = (b, s') \<Longrightarrow> npf s'"
  by (auto simp: eraseMultiPageBlob_def Let_def split: prod.splits option.splits if_splits bool.splits
      dest: findItem_npf eraseChunks_npf Page_eraseItem_err)

lemma readChunks_npf: "readChunks s ns k cs nums buf = (b, s', out) \<Longrightarrow> npf s \<Longrightarrow> npf s'"
  by (induction s ns k cs nums buf rule: readChunks.induct)
     (auto simp: Let_def split: prod.splits option.splits if_splits dest: findItem_npf Page_readItem_err)

lemma readMultiPageBlob_npf: "readMultiPageBlob s ns k sz = (b, s', out) \<Longrightarrow> npf s'"
  by (auto simp: readMultiPageBlob_def Let_def split: prod.splits option.splits if_splits bool.splits
      dest: findItem_npf readChunks_npf)

lemma readItem_npf: "readItem s ns dt k sz = (b, s', out) \<Longrightarrow> npf s'"
  by (auto simp: readItem_def Let_def split: prod.splits option.splits if_splits bool.splits
      dest: findItem_npf readMultiPageBlob_npf Page_readItem_err)

lemma eraseItem_npf: "eraseItem s ns dt k = (b, s') \<Longrightarrow> npf s'"
  by (auto simp: eraseItem_def Let_def split: prod.splits option.splits if_splits bool.splits
      dest: findItem_npf eraseMultiPageBlob_npf Page_eraseItem_err)

lemma getItemDataSize_npf: "getItemDataSize s ns dt k = (b, s', out) \<Longrightarrow> npf s'"
  by (auto simp: getItemDataSize_def Let_def split: prod.splits option.splits if_splits bool.splits
      dest: findItem_npf)

lemma calcEntriesInNamespace_npf: "calcEntriesInNamespace s ns = (b, s', n) \<Longrightarrow> npf s'"
  by (auto simp: calcEntriesInNamespace_def split: if_splits)

lemma fillStats_npf: "fillStats s st = (b, s', st') \<Longrightarrow> npf s'"
  by (auto simp: fillStats_def PageManager_fillStats_def Let_def split: prod.splits)

lemma eraseAllIn_err: "eraseAllIn p ns = (e, p') \<Longrightarrow> e \<noteq> ESP_ERR_NVS_PAGE_FULL"
proof (induction p ns rule: eraseAllIn.induct)
  case (1 p ns)
  then show ?case
    by (subst (asm) (2) eraseAllIn.simps) (auto split: prod.splits if_splits dest: Page_eraseItem_err)
qed

lemma eraseNamespace_pages_npf: "eraseNamespace_pages s ns pids = (b, s') \<Longrightarrow> npf s'"
  by (induction s ns pids rule: eraseNamespace_pages.induct)
     (auto split: prod.splits if_splits dest: eraseAllIn_err)

lemma eraseNamespace_npf: "eraseNamespace s ns = (b, s') \<Longrightarrow> npf s'"
  by (auto simp: eraseNamespace_def split: if_splits dest: eraseNamespace_pages_npf)

lemma markFull_requestNewPage_npf:
  "\<forall>pm. fst (rnp pm) \<noteq> ESP_ERR_NVS_PAGE_FULL \<Longrightarrow> npf (markFull_requestNewPage rnp s pid)"
  apply (simp add: markFull_requestNewPage_def Let_def Page_markFull_def npf_def setPage_def
      split: prod.splits if_splits)
  by (metis fst_conv)

lemma writeItem_eraseOld_npf: "writeItem_eraseOld s ns dt k fp = (b, s') \<Longrightarrow> npf s'"
  by (auto simp: writeItem_eraseOld_def Let_def split: option.splits prod.splits if_splits
      dest: Page_eraseItem_err)

lemma writeItem_other_npf:
  assumes "\<forall>pm. fst (rnp pm) \<noteq> ESP_ERR_NVS_PAGE_FULL"
    and "writeItem_other rnp s ns dt k bs fp = Inl (b, s')"
  shows "npf s'"
  using assms(2) markFull_requestNewPage_npf [OF assms(1)]
  by (auto simp: writeItem_other_def Let_def split: option.splits prod.splits if_splits)

lemma writeItem_blob_npf:
  "writeItem_blob rnp s ns k bs r0 = Some (Inl (b, s')) \<Longrightarrow> npf s'"
  by (auto simp: writeItem_blob_def Let_def npf_def [symmetric]
      split: option.splits prod.splits if_splits bool.splits
      dest: cmpMultiPageBlob_npf eraseMultiPageBlob_npf findItem_npf)

lemma writeItem_npf:
  assumes "\<forall>pm. fst (rnp pm) \<noteq> ESP_ERR_NVS_PAGE_FULL"
    and "writeItem rnp s ns dt k bs = Some (b, s')"
  shows "npf s'"
  using assms(2)
  by (auto simp: writeItem_def split: option.splits prod.splits if_splits sum.splits
      dest: writeItem_blob_npf writeItem_other_npf [OF assms(1)] writeItem_eraseOld_npf findItem_npf)

lemma createOrOpenNamespace_npf:
  assumes "\<forall>pm. fst (rnp pm) \<noteq> ESP_ERR_NVS_PAGE_FULL"
    and "createOrOpenNamespace rnp s name canCreate = Some (b, s', idx)"
  shows "npf s'"
  using assms(2)
  by (auto simp: createOrOpenNamespace_def split: option.splits prod.splits if_splits bool.splits
      dest: writeItem_npf [OF assms(1)])

lemma init_npf:
  assumes "\<forall>pm. fst (load pm) \<noteq> ESP_ERR_NVS_PAGE_FULL"
    and "init load s = (b, s')"
  shows "npf s'"
  using assms(2) assms(1) [rule_format, of "mPageManager s"]
  by (auto simp: init_def Let_def populateBlobIndices_def npf_def split: prod.splits if_splits)

lemma markFull_requestNewPage_mLastError [simp]:
  "markFull_requestNewPage rnp (s\<lparr>mLastError := e\<rparr>) pid = markFull_requestNewPage rnp s pid"
  by (simp add: markFull_requestNewPage_def Let_def pageOf_def setPage_def split: prod.splits)

lemma Page_writeItem_failed:
  "fst (Page_writeItem p ns dt k pl ci) \<noteq> ESP_OK \<Longrightarrow> snd (Page_writeItem p ns dt k pl ci) = p"
  by (simp add: Page_writeItem_def Let_def split: if_splits)

lemma setPage_same [simp]: "setPage s pid (pageOf s pid) = s"
  by (simp add: setPage_def pageOf_def)

lemma pageOf_mLastError [simp]: "pageOf (s\<lparr>mLastError := e\<rparr>) pid = pageOf s pid"
  by (simp add: pageOf_def)

lemma getCurrentPage_mLastError [simp]: "getCurrentPage (s\<lparr>mLastError := e\<rparr>) = getCurrentPage s"
  by (simp add: getCurrentPage_def)

lemma setPage_mLastError [simp]:
  "setPage (s\<lparr>mLastError := e\<rparr>) pid p = (setPage s pid p)\<lparr>mLastError := e\<rparr>"
  by (simp add: setPage_def)

lemma findItem_None:
  "fst (findItem s ns dt k ci cs) = None \<Longrightarrow>
     findItem s ns dt k ci cs = (None, s\<lparr>mLastError := ESP_ERR_NVS_NOT_FOUND\<rparr>)"
  by (auto simp: findItem_def Let_def findItem_err_def)

lemma findItem_Some:
  "fst (findItem s ns dt k ci cs) = Some x \<Longrightarrow>
     findItem s ns dt k ci cs = (Some x, s\<lparr>mLastError := ESP_OK\<rparr>)"
  by (auto simp: findItem_def Let_def findItem_err_def)

lemma writeItem_retry:
  assumes "dt \<noteq> BLOB" and "mState s = ACTIVE"
    and "fst (findItem s ns dt (Some k) CHUNK_ANY VER_ANY) = None"
    and "fst (Page_writeItem (pageOf s (getCurrentPage s)) ns dt k (Bytes bs) CHUNK_ANY)
           = ESP_ERR_NVS_PAGE_FULL"
    and "s2 = markFull_requestNewPage rnp s (getCurrentPage s)"
    and "mLastError s2 = ESP_OK"
    and "Page_writeItem (pageOf s2 (getCurrentPage s2)) ns dt k (Bytes bs) CHUNK_ANY = (e2, q')"
  shows "writeItem rnp s ns dt k bs =
           Some (if e2 = ESP_ERR_NVS_PAGE_FULL
                 then (False, s2\<lparr>mLastError := ESP_ERR_NVS_NOT_ENOUGH_SPACE\<rparr>)
                 else if e2 \<noteq> ESP_OK then (False, s2\<lparr>mLastError := e2\<rparr>)
                 else (True, (setPage s2 (getCurrentPage s2) q')\<lparr>mLastError := ESP_OK\<rparr>))"
proof -
  have p: "snd (Page_writeItem (pageOf s (getCurrentPage s)) ns dt k (Bytes bs) CHUNK_ANY)
             = pageOf s (getCurrentPage s)"
    by (rule Page_writeItem_failed) (simp add: assms(4))
  have q: "e2 \<noteq> ESP_OK \<Longrightarrow> q' = pageOf s2 (getCurrentPage s2)"
    using Page_writeItem_failed [of "pageOf s2 (getCurrentPage s2)" ns dt k "Bytes bs" CHUNK_ANY] assms(7)
    by simp
  note f = findItem_None [OF assms(3)]
  obtain e1 p1 where w1: "Page_writeItem (pageOf s (getCurrentPage s)) ns dt k (Bytes bs) CHUNK_ANY = (e1, p1)"
    by (cases "Page_writeItem (pageOf s (getCurrentPage s)) ns dt k (Bytes bs) CHUNK_ANY")
  with assms(4) p have e1: "e1 = ESP_ERR_NVS_PAGE_FULL" "p1 = pageOf s (getCurrentPage s)" by simp_all
  show ?thesis
    using assms(1,2,6,7) q
    by (auto simp: writeItem_def f writeItem_other_def w1 e1 Let_def assms(5) [symmetric]
        writeItem_eraseOld_def)
qed

lemma writeItem_blob_page_full:
  assumes "mState s = ACTIVE"
    and "fst (findItem s ns BLOB_IDX (Some k) CHUNK_ANY VER_ANY) = None"
    and "writeMultiPageBlob rnp (s\<lparr>mLastError := ESP_ERR_NVS_NOT_FOUND\<rparr>) ns k bs VER_0_OFFSET
           = Some (False, s3)"
    and "mLastError s3 = ESP_ERR_NVS_PAGE_FULL"
  shows "writeItem rnp s ns BLOB k bs = Some (False, s3\<lparr>mLastError := ESP_ERR_NVS_NOT_ENOUGH_SPACE\<rparr>)"
proof -
  note f = findItem_None [OF assms(2)]
  show ?thesis
    using assms(1,3,4) by (simp add: writeItem_def f writeItem_blob_def)
qed

text \<open>
  The retry of lines 334 to 358 in terms of the pages, and the blob update of lines 283
  to 308.
\<close>

lemma markFull_requestNewPage_active:
  assumes "state (pageOf s pid) = PageState_ACTIVE"
    and "rnp ((mPageManager s)\<lparr>mPages := (mPages (mPageManager s))
                 (pid := (pageOf s pid)\<lparr>state := FULL\<rparr>)\<rparr>) = (e, pm2)"
  shows "markFull_requestNewPage rnp s pid = s\<lparr>mPageManager := pm2, mLastError := e\<rparr>"
  using assms
  by (simp add: markFull_requestNewPage_def Page_markFull_def setPage_def pageOf_def Let_def)

lemma Page_writeItem_PAGE_FULL:
  "fst (Page_writeItem p ns dt k pl ci) = ESP_ERR_NVS_PAGE_FULL \<longleftrightarrow>
     state p = PageState_ACTIVE \<and>
     ENTRY_COUNT < usedEntries (mEntries p)
        + span \<lparr>nsIndex = ns, datatype' = dt, key = k, chunkIndex = ci, payload = pl\<rparr>"
  by (simp add: Page_writeItem_def Let_def)

lemma writeItem_retry_general:
  assumes "dt \<noteq> BLOB" and "mState s = ACTIVE"
    and ne: "\<forall>pg it. fst (findItem s ns dt (Some k) CHUNK_ANY VER_ANY) = Some (pg, it) \<longrightarrow>
               Page_cmpItem (pageOf s pg) ns dt (Some k) bs CHUNK_ANY \<noteq> ESP_OK"
    and full: "fst (Page_writeItem (pageOf s (getCurrentPage s)) ns dt k (Bytes bs) CHUNK_ANY)
           = ESP_ERR_NVS_PAGE_FULL"
    and rn: "rnp ((mPageManager s)\<lparr>mPages := (mPages (mPageManager s))
                 (getCurrentPage s := (pageOf s (getCurrentPage s))\<lparr>state := FULL\<rparr>)\<rparr>) = (e, pm2)"
  shows "writeItem rnp s ns dt k bs =
           Some (if e \<noteq> ESP_OK then (False, s\<lparr>mPageManager := pm2, mLastError := e\<rparr>)
                 else if state (mPages pm2 (last (mPageList pm2))) \<noteq> PageState_ACTIVE
                 then (False, s\<lparr>mPageManager := pm2, mLastError := ESP_ERR_NVS_INVALID_STATE\<rparr>)
                 else if ENTRY_COUNT < usedEntries (mEntries (mPages pm2 (last (mPageList pm2))))
                           + span \<lparr>nsIndex = ns, datatype' = dt, key = k, chunkIndex = CHUNK_ANY,
                                   payload = Bytes bs\<rparr>
                 then (False, s\<lparr>mPageManager := pm2, mLastError := ESP_ERR_NVS_NOT_ENOUGH_SPACE\<rparr>)
                 else writeItem_eraseOld
                        (s\<lparr>mPageManager := pm2\<lparr>mPages := (mPages pm2)
                               (last (mPageList pm2) :=
                                  (mPages pm2 (last (mPageList pm2)))
                                    \<lparr>mEntries := mEntries (mPages pm2 (last (mPageList pm2))) @
                                       [(WRITTEN, \<lparr>nsIndex = ns, datatype' = dt, key = k,
                                                   chunkIndex = CHUNK_ANY, payload = Bytes bs\<rparr>)]\<rparr>)\<rparr>,
                           mLastError := ESP_OK\<rparr>)
                        ns dt k (map_option fst (fst (findItem s ns dt (Some k) CHUNK_ANY VER_ANY))))"
proof -
  let ?cur = "getCurrentPage s"
  define r0 where "r0 = fst (findItem s ns dt (Some k) CHUNK_ANY VER_ANY)"
  let ?s0 = "s\<lparr>mLastError := findItem_err r0\<rparr>"
  have act: "state (pageOf s ?cur) = PageState_ACTIVE"
    using full by (simp add: Page_writeItem_PAGE_FULL)
  have f: "findItem s ns dt (Some k) CHUNK_ANY VER_ANY = (r0, ?s0)"
    by (simp add: r0_def findItem_def Let_def)
  have w1: "Page_writeItem (pageOf s ?cur) ns dt k (Bytes bs) CHUNK_ANY
              = (ESP_ERR_NVS_PAGE_FULL, pageOf s ?cur)"
    using full Page_writeItem_failed [of "pageOf s ?cur" ns dt k "Bytes bs" CHUNK_ANY]
    by (cases "Page_writeItem (pageOf s ?cur) ns dt k (Bytes bs) CHUNK_ANY") simp
  have mf: "markFull_requestNewPage rnp s ?cur = s\<lparr>mPageManager := pm2, mLastError := e\<rparr>"
    using markFull_requestNewPage_active [of s ?cur rnp e pm2] act rn by simp
  have mf0: "markFull_requestNewPage rnp (?s0\<lparr>mLastError := ESP_ERR_NVS_PAGE_FULL\<rparr>) ?cur
              = s\<lparr>mPageManager := pm2, mLastError := e\<rparr>"
    using markFull_requestNewPage_active [of "?s0\<lparr>mLastError := ESP_ERR_NVS_PAGE_FULL\<rparr>" ?cur rnp e pm2]
      act rn by simp
  have w2: "Page_writeItem (mPages pm2 (last (mPageList pm2))) ns dt k (Bytes bs) CHUNK_ANY
      = (if state (mPages pm2 (last (mPageList pm2))) \<noteq> PageState_ACTIVE
         then (ESP_ERR_NVS_INVALID_STATE, mPages pm2 (last (mPageList pm2)))
         else if ENTRY_COUNT < usedEntries (mEntries (mPages pm2 (last (mPageList pm2))))
                 + span \<lparr>nsIndex = ns, datatype' = dt, key = k, chunkIndex = CHUNK_ANY,
                         payload = Bytes bs\<rparr>
         then (ESP_ERR_NVS_PAGE_FULL, mPages pm2 (last (mPageList pm2)))
         else (ESP_OK, (mPages pm2 (last (mPageList pm2)))
                         \<lparr>mEntries := mEntries (mPages pm2 (last (mPageList pm2))) @
                            [(WRITTEN, \<lparr>nsIndex = ns, datatype' = dt, key = k,
                                        chunkIndex = CHUNK_ANY, payload = Bytes bs\<rparr>)]\<rparr>))"
    by (simp add: Page_writeItem_def Let_def)
  have nel: "\<not> (case map_option fst r0 of None \<Rightarrow> False
               | Some pg \<Rightarrow> Page_cmpItem (pageOf ?s0 pg) ns dt (Some k) bs CHUNK_ANY = ESP_OK)"
    using ne by (cases r0) (auto simp: r0_def)
  have cur2: "getCurrentPage (s\<lparr>mPageManager := pm2\<rparr>) = last (mPageList pm2)"
    by (simp add: getCurrentPage_def)
  have pg2: "pageOf (s\<lparr>mPageManager := pm2\<rparr>) i = mPages pm2 i" for i
    by (simp add: pageOf_def)
  let ?new = "last (mPageList pm2)"
  let ?item = "\<lparr>nsIndex = ns, datatype' = dt, key = k, chunkIndex = CHUNK_ANY, payload = Bytes bs\<rparr>"
  let ?s3 = "s\<lparr>mPageManager := pm2\<lparr>mPages := (mPages pm2)
                   (?new := (mPages pm2 ?new)\<lparr>mEntries := mEntries (mPages pm2 ?new) @
                                                   [(WRITTEN, ?item)]\<rparr>)\<rparr>,
               mLastError := ESP_OK\<rparr>"
  have sp: "setPage ?s0 ?cur (pageOf s ?cur) = ?s0"
    by (simp add: setPage_def pageOf_def)
  have sp2: "setPage (s\<lparr>mPageManager := pm2\<rparr>) i p
               = s\<lparr>mPageManager := pm2\<lparr>mPages := (mPages pm2)(i := p)\<rparr>\<rparr>" for i p
    by (simp add: setPage_def)
  have first: "writeItem_other rnp ?s0 ns dt k bs (map_option fst r0) =
      (let s2 = s\<lparr>mPageManager := pm2, mLastError := e\<rparr>
       in if e \<noteq> ESP_OK then Inl (False, s2)
          else (case Page_writeItem (mPages pm2 ?new) ns dt k (Bytes bs) CHUNK_ANY of
                  (e2, q') \<Rightarrow>
                    if e2 = ESP_ERR_NVS_PAGE_FULL
                    then Inl (False, s\<lparr>mPageManager := pm2\<lparr>mPages := (mPages pm2)(?new := q')\<rparr>,
                                       mLastError := ESP_ERR_NVS_NOT_ENOUGH_SPACE\<rparr>)
                    else if e2 \<noteq> ESP_OK
                    then Inl (False, s\<lparr>mPageManager := pm2\<lparr>mPages := (mPages pm2)(?new := q')\<rparr>,
                                       mLastError := e2\<rparr>)
                    else Inr (s\<lparr>mPageManager := pm2\<lparr>mPages := (mPages pm2)(?new := q')\<rparr>,
                                mLastError := e2\<rparr>, map_option fst r0)))"
    unfolding writeItem_other_def Let_def
    using nel
    by (simp add: w1 sp mf mf0 cur2 pg2 sp2 split: prod.splits)
  have same: "pm2\<lparr>mPages := (mPages pm2)(?new := mPages pm2 ?new)\<rparr> = pm2"
    by simp
  have wo: "writeItem_other rnp ?s0 ns dt k bs (map_option fst r0) =
      (if e \<noteq> ESP_OK then Inl (False, s\<lparr>mPageManager := pm2, mLastError := e\<rparr>)
       else if state (mPages pm2 ?new) \<noteq> PageState_ACTIVE
       then Inl (False, s\<lparr>mPageManager := pm2, mLastError := ESP_ERR_NVS_INVALID_STATE\<rparr>)
       else if ENTRY_COUNT < usedEntries (mEntries (mPages pm2 ?new)) + span ?item
       then Inl (False, s\<lparr>mPageManager := pm2, mLastError := ESP_ERR_NVS_NOT_ENOUGH_SPACE\<rparr>)
       else Inr (?s3, map_option fst r0))"
  proof (cases "e = ESP_OK")
    case False
    then show ?thesis by (simp add: first Let_def)
  next
    case True
    show ?thesis
    proof (cases "state (mPages pm2 ?new) = PageState_ACTIVE")
      case False
      then show ?thesis using True by (simp add: first Let_def w2 same)
    next
      case act2: True
      show ?thesis
      proof (cases "ENTRY_COUNT < usedEntries (mEntries (mPages pm2 ?new)) + span ?item")
        case True
        then show ?thesis using \<open>e = ESP_OK\<close> act2 by (simp add: first Let_def w2 same)
      next
        case False
        then show ?thesis using \<open>e = ESP_OK\<close> act2 by (simp add: first Let_def w2)
      qed
    qed
  qed
  have g: "(r0 = None \<and> findItem_err r0 \<noteq> ESP_ERR_NVS_NOT_FOUND) = False"
    by (cases r0) (simp_all add: findItem_err_def)
  show ?thesis
    unfolding r0_def [symmetric]
    using assms(1,2) by (simp add: writeItem_def f wo g)
qed

lemma cmpMultiPageBlob_upd_mLastError:
  "cmpMultiPageBlob (s\<lparr>mLastError := e\<rparr>) ns k bs = cmpMultiPageBlob s ns k bs"
  by (simp add: cmpMultiPageBlob_def findItem_def Let_def)

lemma writeItem_blob_update_page_full:
  assumes "mState s = ACTIVE"
    and "fst (findItem s ns BLOB_IDX (Some k) CHUNK_ANY VER_ANY) = Some (pg, idx)"
    and "cmpMultiPageBlob s ns k bs = (False, s1)"
    and "(prev, s2) =
           (if state (pageOf s1 pg) = UNINITIALIZED \<or> state (pageOf s1 pg) = PageState_INVALID
            then (case findItem s1 ns BLOB (Some k) CHUNK_ANY VER_ANY of
                    (Some (pg2, it2), s') \<Rightarrow> (it2, s')
                  | (None, s') \<Rightarrow> (idx, s'))
            else (idx, s1))"
    and "writeMultiPageBlob rnp s2 ns k bs
           (if chunkStart (blobIndex prev) = VER_1_OFFSET then VER_0_OFFSET else VER_1_OFFSET)
           = Some (False, s3)"
    and "mLastError s3 = ESP_ERR_NVS_PAGE_FULL"
  shows "writeItem rnp s ns BLOB k bs = Some (False, s3\<lparr>mLastError := ESP_ERR_NVS_NOT_ENOUGH_SPACE\<rparr>)"
proof -
  note f = findItem_Some [OF assms(2)]
  have c: "cmpMultiPageBlob (s\<lparr>mLastError := ESP_OK\<rparr>) ns k bs = (False, s1)"
    using assms(3) by (simp add: cmpMultiPageBlob_upd_mLastError)
  have "writeItem_blob rnp (s\<lparr>mLastError := ESP_OK\<rparr>) ns k bs (Some (pg, idx))
          = Some (Inl (False, s3\<lparr>mLastError := ESP_ERR_NVS_NOT_ENOUGH_SPACE\<rparr>))"
    unfolding writeItem_blob_def
    using assms(5,6) by (simp add: c assms(4) [symmetric] Let_def)
  then show ?thesis
    using assms(1) by (simp add: writeItem_def f)
qed

text \<open>
  C3. No public operation of the storage (section 6 of the specification) leaves
  \<open>PAGE_FULL\<close> in \<open>mLastError\<close>, provided \<^verbatim>\<open>requestNewPage\<close> and \<^verbatim>\<open>load\<close> of the
  page manager do not report it themselves (in the specification it is the signal of
  \<^verbatim>\<open>Page::writeItem\<close> only). In \<^verbatim>\<open>writeItem\<close>, for a type other than \<open>BLOB\<close>,
  whether the key is stored or not (a stored item differing from the data): when the
  current page reports \<open>PAGE_FULL\<close>, that page is marked full and \<^verbatim>\<open>requestNewPage\<close>
  is called on the page manager with the page so marked; its error ends the call; on
  \<open>ESP_OK\<close> the item is written once more, to the last page of the page manager that
  \<^verbatim>\<open>requestNewPage\<close> returned. A second \<open>PAGE_FULL\<close> becomes
  \<open>NOT_ENOUGH_SPACE\<close>, \<open>INVALID_STATE\<close> is handed on, and on success the item is the
  last entry of that page and the call goes on to erase the item found before. For
  \<open>BLOB\<close>, a \<open>PAGE_FULL\<close> that \<^verbatim>\<open>writeMultiPageBlob\<close> leaves becomes
  \<open>NOT_ENOUGH_SPACE\<close>, for a key without blob index and for the update of a stored
  blob.
\<close>

theorem page_full_never_surfaces:
  assumes rnp: "\<forall>pm. fst (rnp pm) \<noteq> ESP_ERR_NVS_PAGE_FULL"
    and load: "\<forall>pm. fst (load pm) \<noteq> ESP_ERR_NVS_PAGE_FULL"
  shows
    "(\<forall>ok s'. writeItem rnp s ns dt k bs = Some (ok, s') \<longrightarrow>
         mLastError s' \<noteq> ESP_ERR_NVS_PAGE_FULL) \<and>
     (\<forall>ok s' idx. createOrOpenNamespace rnp s k canCreate = Some (ok, s', idx) \<longrightarrow>
         mLastError s' \<noteq> ESP_ERR_NVS_PAGE_FULL) \<and>
     mLastError (fst (snd (readItem s ns dt k sz))) \<noteq> ESP_ERR_NVS_PAGE_FULL \<and>
     mLastError (snd (eraseItem s ns dt k)) \<noteq> ESP_ERR_NVS_PAGE_FULL \<and>
     mLastError (snd (eraseNamespace s ns)) \<noteq> ESP_ERR_NVS_PAGE_FULL \<and>
     mLastError (fst (snd (getItemDataSize s ns dt k))) \<noteq> ESP_ERR_NVS_PAGE_FULL \<and>
     mLastError (fst (snd (calcEntriesInNamespace s ns))) \<noteq> ESP_ERR_NVS_PAGE_FULL \<and>
     mLastError (fst (snd (fillStats s st))) \<noteq> ESP_ERR_NVS_PAGE_FULL \<and>
     mLastError (snd (init load s)) \<noteq> ESP_ERR_NVS_PAGE_FULL \<and>
     (\<forall>e pm2.
        dt \<noteq> BLOB \<and> mState s = ACTIVE \<and>
        (\<forall>pg it. fst (findItem s ns dt (Some k) CHUNK_ANY VER_ANY) = Some (pg, it) \<longrightarrow>
                 Page_cmpItem (pageOf s pg) ns dt (Some k) bs CHUNK_ANY \<noteq> ESP_OK) \<and>
        fst (Page_writeItem (pageOf s (getCurrentPage s)) ns dt k (Bytes bs) CHUNK_ANY)
          = ESP_ERR_NVS_PAGE_FULL \<and>
        rnp ((mPageManager s)\<lparr>mPages := (mPages (mPageManager s))
               (getCurrentPage s := (pageOf s (getCurrentPage s))\<lparr>state := FULL\<rparr>)\<rparr>) = (e, pm2) \<longrightarrow>
        writeItem rnp s ns dt k bs =
           Some (if e \<noteq> ESP_OK then (False, s\<lparr>mPageManager := pm2, mLastError := e\<rparr>)
                 else if state (mPages pm2 (last (mPageList pm2))) \<noteq> PageState_ACTIVE
                 then (False, s\<lparr>mPageManager := pm2, mLastError := ESP_ERR_NVS_INVALID_STATE\<rparr>)
                 else if ENTRY_COUNT < usedEntries (mEntries (mPages pm2 (last (mPageList pm2))))
                           + span \<lparr>nsIndex = ns, datatype' = dt, key = k, chunkIndex = CHUNK_ANY,
                                   payload = Bytes bs\<rparr>
                 then (False, s\<lparr>mPageManager := pm2, mLastError := ESP_ERR_NVS_NOT_ENOUGH_SPACE\<rparr>)
                 else writeItem_eraseOld
                        (s\<lparr>mPageManager := pm2\<lparr>mPages := (mPages pm2)
                               (last (mPageList pm2) :=
                                  (mPages pm2 (last (mPageList pm2)))
                                    \<lparr>mEntries := mEntries (mPages pm2 (last (mPageList pm2))) @
                                       [(WRITTEN, \<lparr>nsIndex = ns, datatype' = dt, key = k,
                                                   chunkIndex = CHUNK_ANY, payload = Bytes bs\<rparr>)]\<rparr>)\<rparr>,
                           mLastError := ESP_OK\<rparr>)
                        ns dt k (map_option fst (fst (findItem s ns dt (Some k) CHUNK_ANY VER_ANY))))) \<and>
     (\<forall>s3. mState s = ACTIVE \<and> fst (findItem s ns BLOB_IDX (Some k) CHUNK_ANY VER_ANY) = None \<and>
           writeMultiPageBlob rnp (s\<lparr>mLastError := ESP_ERR_NVS_NOT_FOUND\<rparr>) ns k bs VER_0_OFFSET
             = Some (False, s3) \<and>
           mLastError s3 = ESP_ERR_NVS_PAGE_FULL \<longrightarrow>
        writeItem rnp s ns BLOB k bs
          = Some (False, s3\<lparr>mLastError := ESP_ERR_NVS_NOT_ENOUGH_SPACE\<rparr>)) \<and>
     (\<forall>pg idx s1 prev s2 s3.
        mState s = ACTIVE \<and>
        fst (findItem s ns BLOB_IDX (Some k) CHUNK_ANY VER_ANY) = Some (pg, idx) \<and>
        cmpMultiPageBlob s ns k bs = (False, s1) \<and>
        (prev, s2) =
           (if state (pageOf s1 pg) = UNINITIALIZED \<or> state (pageOf s1 pg) = PageState_INVALID
            then (case findItem s1 ns BLOB (Some k) CHUNK_ANY VER_ANY of
                    (Some (pg2, it2), s') \<Rightarrow> (it2, s')
                  | (None, s') \<Rightarrow> (idx, s'))
            else (idx, s1)) \<and>
        writeMultiPageBlob rnp s2 ns k bs
           (if chunkStart (blobIndex prev) = VER_1_OFFSET then VER_0_OFFSET else VER_1_OFFSET)
           = Some (False, s3) \<and>
        mLastError s3 = ESP_ERR_NVS_PAGE_FULL \<longrightarrow>
        writeItem rnp s ns BLOB k bs
          = Some (False, s3\<lparr>mLastError := ESP_ERR_NVS_NOT_ENOUGH_SPACE\<rparr>))"
proof (intro conjI allI impI)
  fix ok s'
  assume "writeItem rnp s ns dt k bs = Some (ok, s')"
  from writeItem_npf [OF rnp this] show "mLastError s' \<noteq> ESP_ERR_NVS_PAGE_FULL"
    by (simp add: npf_def)
next
  fix ok s' idx
  assume "createOrOpenNamespace rnp s k canCreate = Some (ok, s', idx)"
  from createOrOpenNamespace_npf [OF rnp this] show "mLastError s' \<noteq> ESP_ERR_NVS_PAGE_FULL"
    by (simp add: npf_def)
next
  show "mLastError (fst (snd (readItem s ns dt k sz))) \<noteq> ESP_ERR_NVS_PAGE_FULL"
    using readItem_npf [of s ns dt k sz] by (cases "readItem s ns dt k sz") (simp add: npf_def)
next
  show "mLastError (snd (eraseItem s ns dt k)) \<noteq> ESP_ERR_NVS_PAGE_FULL"
    using eraseItem_npf [of s ns dt k] by (cases "eraseItem s ns dt k") (simp add: npf_def)
next
  show "mLastError (snd (eraseNamespace s ns)) \<noteq> ESP_ERR_NVS_PAGE_FULL"
    using eraseNamespace_npf [of s ns] by (cases "eraseNamespace s ns") (simp add: npf_def)
next
  show "mLastError (fst (snd (getItemDataSize s ns dt k))) \<noteq> ESP_ERR_NVS_PAGE_FULL"
    using getItemDataSize_npf [of s ns dt k]
    by (cases "getItemDataSize s ns dt k") (simp add: npf_def)
next
  show "mLastError (fst (snd (calcEntriesInNamespace s ns))) \<noteq> ESP_ERR_NVS_PAGE_FULL"
    using calcEntriesInNamespace_npf [of s ns]
    by (cases "calcEntriesInNamespace s ns") (simp add: npf_def)
next
  show "mLastError (fst (snd (fillStats s st))) \<noteq> ESP_ERR_NVS_PAGE_FULL"
    using fillStats_npf [of s st] by (cases "fillStats s st") (simp add: npf_def)
next
  show "mLastError (snd (init load s)) \<noteq> ESP_ERR_NVS_PAGE_FULL"
    using init_npf [OF load, of s] by (cases "init load s") (simp add: npf_def)
next
  fix e pm2
  assume a: "dt \<noteq> BLOB \<and> mState s = ACTIVE \<and>
        (\<forall>pg it. fst (findItem s ns dt (Some k) CHUNK_ANY VER_ANY) = Some (pg, it) \<longrightarrow>
                 Page_cmpItem (pageOf s pg) ns dt (Some k) bs CHUNK_ANY \<noteq> ESP_OK) \<and>
        fst (Page_writeItem (pageOf s (getCurrentPage s)) ns dt k (Bytes bs) CHUNK_ANY)
          = ESP_ERR_NVS_PAGE_FULL \<and>
        rnp ((mPageManager s)\<lparr>mPages := (mPages (mPageManager s))
               (getCurrentPage s := (pageOf s (getCurrentPage s))\<lparr>state := FULL\<rparr>)\<rparr>) = (e, pm2)"
  then have a1: "dt \<noteq> BLOB" and a2: "mState s = ACTIVE"
    and a3: "\<forall>pg it. fst (findItem s ns dt (Some k) CHUNK_ANY VER_ANY) = Some (pg, it) \<longrightarrow>
                 Page_cmpItem (pageOf s pg) ns dt (Some k) bs CHUNK_ANY \<noteq> ESP_OK"
    and a4: "fst (Page_writeItem (pageOf s (getCurrentPage s)) ns dt k (Bytes bs) CHUNK_ANY)
          = ESP_ERR_NVS_PAGE_FULL"
    and a5: "rnp ((mPageManager s)\<lparr>mPages := (mPages (mPageManager s))
               (getCurrentPage s := (pageOf s (getCurrentPage s))\<lparr>state := FULL\<rparr>)\<rparr>) = (e, pm2)"
    by blast+
  show "writeItem rnp s ns dt k bs =
           Some (if e \<noteq> ESP_OK then (False, s\<lparr>mPageManager := pm2, mLastError := e\<rparr>)
                 else if state (mPages pm2 (last (mPageList pm2))) \<noteq> PageState_ACTIVE
                 then (False, s\<lparr>mPageManager := pm2, mLastError := ESP_ERR_NVS_INVALID_STATE\<rparr>)
                 else if ENTRY_COUNT < usedEntries (mEntries (mPages pm2 (last (mPageList pm2))))
                           + span \<lparr>nsIndex = ns, datatype' = dt, key = k, chunkIndex = CHUNK_ANY,
                                   payload = Bytes bs\<rparr>
                 then (False, s\<lparr>mPageManager := pm2, mLastError := ESP_ERR_NVS_NOT_ENOUGH_SPACE\<rparr>)
                 else writeItem_eraseOld
                        (s\<lparr>mPageManager := pm2\<lparr>mPages := (mPages pm2)
                               (last (mPageList pm2) :=
                                  (mPages pm2 (last (mPageList pm2)))
                                    \<lparr>mEntries := mEntries (mPages pm2 (last (mPageList pm2))) @
                                       [(WRITTEN, \<lparr>nsIndex = ns, datatype' = dt, key = k,
                                                   chunkIndex = CHUNK_ANY, payload = Bytes bs\<rparr>)]\<rparr>)\<rparr>,
                           mLastError := ESP_OK\<rparr>)
                        ns dt k (map_option fst (fst (findItem s ns dt (Some k) CHUNK_ANY VER_ANY))))"
    using writeItem_retry_general [of dt s ns k bs rnp e pm2] a1 a2 a3 a4 a5 by blast
next
  fix s3
  assume "mState s = ACTIVE \<and> fst (findItem s ns BLOB_IDX (Some k) CHUNK_ANY VER_ANY) = None \<and>
           writeMultiPageBlob rnp (s\<lparr>mLastError := ESP_ERR_NVS_NOT_FOUND\<rparr>) ns k bs VER_0_OFFSET
             = Some (False, s3) \<and>
           mLastError s3 = ESP_ERR_NVS_PAGE_FULL"
  then show "writeItem rnp s ns BLOB k bs
          = Some (False, s3\<lparr>mLastError := ESP_ERR_NVS_NOT_ENOUGH_SPACE\<rparr>)"
    by (simp add: writeItem_blob_page_full)
next
  fix pg idx s1 prev s2 s3
  assume "mState s = ACTIVE \<and>
        fst (findItem s ns BLOB_IDX (Some k) CHUNK_ANY VER_ANY) = Some (pg, idx) \<and>
        cmpMultiPageBlob s ns k bs = (False, s1) \<and>
        (prev, s2) =
           (if state (pageOf s1 pg) = UNINITIALIZED \<or> state (pageOf s1 pg) = PageState_INVALID
            then (case findItem s1 ns BLOB (Some k) CHUNK_ANY VER_ANY of
                    (Some (pg2, it2), s') \<Rightarrow> (it2, s')
                  | (None, s') \<Rightarrow> (idx, s'))
            else (idx, s1)) \<and>
        writeMultiPageBlob rnp s2 ns k bs
           (if chunkStart (blobIndex prev) = VER_1_OFFSET then VER_0_OFFSET else VER_1_OFFSET)
           = Some (False, s3) \<and>
        mLastError s3 = ESP_ERR_NVS_PAGE_FULL"
  then show "writeItem rnp s ns BLOB k bs
          = Some (False, s3\<lparr>mLastError := ESP_ERR_NVS_NOT_ENOUGH_SPACE\<rparr>)"
    using writeItem_blob_update_page_full [of s ns k pg idx bs s1 prev s2 rnp s3] by blast
qed

lemma ex_blob_page_full:
  "\<exists>s3. writeMultiPageBlob rnp_full_page (ex_storage0\<lparr>mLastError := ESP_ERR_NVS_NOT_FOUND\<rparr>) 1 ''k''
           (replicate 4000 0) VER_0_OFFSET = Some (False, s3) \<and>
         mLastError s3 = ESP_ERR_NVS_PAGE_FULL"
  by (simp add: model_defs rollback.simps ex_storage0_def ex_page0_def ex_big_item_def rnp_full_page_def)

theorem page_full_never_surfaces_witness:
  "(\<exists>s'. writeItem rnp_fresh ex_storage_full 1 ItemType_STR ''text'' (replicate 10 1) = Some (True, s') \<and>
         mPageList (mPageManager s') = [0, 1] \<and>
         pageOf s' 0 = \<lparr>state = FULL, mEntries = [(ERASED, ex_big_item)]\<rparr> \<and>
         pageOf s' 1 = \<lparr>state = PageState_ACTIVE,
                        mEntries = [(WRITTEN, \<lparr>nsIndex = 1, datatype' = ItemType_STR, key = ''text'',
                                                chunkIndex = CHUNK_ANY, payload = Bytes (replicate 10 1)\<rparr>)]\<rparr>) \<and>
   (\<exists>s'. writeItem rnp_fresh ex_storage0 1 ItemType_STR ''t'' (replicate 4001 0) = Some (False, s') \<and>
         mLastError s' = ESP_ERR_NVS_NOT_ENOUGH_SPACE \<and>
         mPageList (mPageManager s') = [0, 1] \<and> state (pageOf s' 0) = FULL) \<and>
   (\<exists>s'. writeItem rnp_full_page ex_storage0 1 BLOB ''k'' (replicate 4000 0) = Some (False, s') \<and>
         mLastError s' = ESP_ERR_NVS_NOT_ENOUGH_SPACE) \<and>
   (\<exists>s'. writeItem rnp_full_page ex_storage_blob 1 BLOB ''k'' (replicate 3904 0) = Some (False, s') \<and>
         mLastError s' = ESP_ERR_NVS_NOT_ENOUGH_SPACE)"
proof (intro conjI)
  have rnp: "\<forall>pm. fst (rnp_fresh pm) \<noteq> ESP_ERR_NVS_PAGE_FULL"
    by (simp add: rnp_fresh_def)
  have load: "\<forall>pm. fst (load_ok pm) \<noteq> ESP_ERR_NVS_PAGE_FULL"
    by (simp add: load_ok_def)
  let ?s = ex_storage_full
  let ?pm = "(mPageManager ?s)\<lparr>mPages := (mPages (mPageManager ?s))
               (getCurrentPage ?s := (pageOf ?s (getCurrentPage ?s))\<lparr>state := FULL\<rparr>)\<rparr>"
  have hyp: "ItemType_STR \<noteq> BLOB \<and> mState ?s = ACTIVE \<and>
      (\<forall>pg it. fst (findItem ?s 1 ItemType_STR (Some ''text'') CHUNK_ANY VER_ANY) = Some (pg, it) \<longrightarrow>
                 Page_cmpItem (pageOf ?s pg) 1 ItemType_STR (Some ''text'') (replicate 10 1) CHUNK_ANY
                   \<noteq> ESP_OK) \<and>
      fst (Page_writeItem (pageOf ?s (getCurrentPage ?s)) 1 ItemType_STR ''text''
             (Bytes (replicate 10 1)) CHUNK_ANY) = ESP_ERR_NVS_PAGE_FULL \<and>
      rnp_fresh ?pm = (fst (rnp_fresh ?pm), snd (rnp_fresh ?pm))"
    by (simp add: model_defs ex_storage_full_def ex_big_item_def)
  note t = page_full_never_surfaces [OF rnp load, of ?s 1 ItemType_STR "''text''" "replicate 10 1",
      THEN conjunct2, THEN conjunct2, THEN conjunct2, THEN conjunct2, THEN conjunct2,
      THEN conjunct2, THEN conjunct2, THEN conjunct2, THEN conjunct2, THEN conjunct1,
      THEN spec, THEN spec, THEN mp, OF hyp]
  show "\<exists>s'. writeItem rnp_fresh ex_storage_full 1 ItemType_STR ''text'' (replicate 10 1) = Some (True, s') \<and>
         mPageList (mPageManager s') = [0, 1] \<and>
         pageOf s' 0 = \<lparr>state = FULL, mEntries = [(ERASED, ex_big_item)]\<rparr> \<and>
         pageOf s' 1 = \<lparr>state = PageState_ACTIVE,
                        mEntries = [(WRITTEN, \<lparr>nsIndex = 1, datatype' = ItemType_STR, key = ''text'',
                                                chunkIndex = CHUNK_ANY, payload = Bytes (replicate 10 1)\<rparr>)]\<rparr>"
    unfolding t
    by (simp add: model_defs ex_storage_full_def ex_big_item_def rnp_fresh_def ex_page0_def)
next
  have rnp: "\<forall>pm. fst (rnp_fresh pm) \<noteq> ESP_ERR_NVS_PAGE_FULL"
    by (simp add: rnp_fresh_def)
  have load: "\<forall>pm. fst (load_ok pm) \<noteq> ESP_ERR_NVS_PAGE_FULL"
    by (simp add: load_ok_def)
  let ?s = ex_storage0
  let ?pm = "(mPageManager ?s)\<lparr>mPages := (mPages (mPageManager ?s))
               (getCurrentPage ?s := (pageOf ?s (getCurrentPage ?s))\<lparr>state := FULL\<rparr>)\<rparr>"
  have hyp: "ItemType_STR \<noteq> BLOB \<and> mState ?s = ACTIVE \<and>
      (\<forall>pg it. fst (findItem ?s 1 ItemType_STR (Some ''t'') CHUNK_ANY VER_ANY) = Some (pg, it) \<longrightarrow>
                 Page_cmpItem (pageOf ?s pg) 1 ItemType_STR (Some ''t'') (replicate 4001 0) CHUNK_ANY
                   \<noteq> ESP_OK) \<and>
      fst (Page_writeItem (pageOf ?s (getCurrentPage ?s)) 1 ItemType_STR ''t''
             (Bytes (replicate 4001 0)) CHUNK_ANY) = ESP_ERR_NVS_PAGE_FULL \<and>
      rnp_fresh ?pm = (fst (rnp_fresh ?pm), snd (rnp_fresh ?pm))"
    by (simp add: model_defs ex_storage0_def ex_page0_def)
  note t = page_full_never_surfaces [OF rnp load, of ?s 1 ItemType_STR "''t''" "replicate 4001 0",
      THEN conjunct2, THEN conjunct2, THEN conjunct2, THEN conjunct2, THEN conjunct2,
      THEN conjunct2, THEN conjunct2, THEN conjunct2, THEN conjunct2, THEN conjunct1,
      THEN spec, THEN spec, THEN mp, OF hyp]
  show "\<exists>s'. writeItem rnp_fresh ex_storage0 1 ItemType_STR ''t'' (replicate 4001 0) = Some (False, s') \<and>
         mLastError s' = ESP_ERR_NVS_NOT_ENOUGH_SPACE \<and>
         mPageList (mPageManager s') = [0, 1] \<and> state (pageOf s' 0) = FULL"
    unfolding t
    by (simp add: model_defs ex_storage0_def rnp_fresh_def ex_page0_def)
next
  have rnp: "\<forall>pm. fst (rnp_full_page pm) \<noteq> ESP_ERR_NVS_PAGE_FULL"
    by (simp add: rnp_full_page_def)
  have load: "\<forall>pm. fst (load_ok pm) \<noteq> ESP_ERR_NVS_PAGE_FULL"
    by (simp add: load_ok_def)
  from ex_blob_page_full obtain s3 where
    s3: "writeMultiPageBlob rnp_full_page (ex_storage0\<lparr>mLastError := ESP_ERR_NVS_NOT_FOUND\<rparr>) 1 ''k''
           (replicate 4000 0) VER_0_OFFSET = Some (False, s3)"
        "mLastError s3 = ESP_ERR_NVS_PAGE_FULL" by blast
  have hyp: "mState ex_storage0 = ACTIVE \<and>
      fst (findItem ex_storage0 1 BLOB_IDX (Some ''k'') CHUNK_ANY VER_ANY) = None"
    by (simp add: model_defs ex_storage0_def ex_page0_def)
  from page_full_never_surfaces [OF rnp load, of ex_storage0 1 BLOB "''k''" "replicate 4000 0"]
    hyp s3
  have "writeItem rnp_full_page ex_storage0 1 BLOB ''k'' (replicate 4000 0)
          = Some (False, s3\<lparr>mLastError := ESP_ERR_NVS_NOT_ENOUGH_SPACE\<rparr>)"
    by blast
  then show "\<exists>s'. writeItem rnp_full_page ex_storage0 1 BLOB ''k'' (replicate 4000 0) = Some (False, s') \<and>
         mLastError s' = ESP_ERR_NVS_NOT_ENOUGH_SPACE"
    by simp
next
  have rnp: "\<forall>pm. fst (rnp_full_page pm) \<noteq> ESP_ERR_NVS_PAGE_FULL"
    by (simp add: rnp_full_page_def)
  have load: "\<forall>pm. fst (load_ok pm) \<noteq> ESP_ERR_NVS_PAGE_FULL"
    by (simp add: load_ok_def)
  let ?s = ex_storage_blob
  let ?bs = "replicate 3904 (0 :: u8)"
  have f: "fst (findItem ?s 1 BLOB_IDX (Some ''k'') CHUNK_ANY VER_ANY) = Some (0, ex_old_index)"
    by (simp add: model_defs ex_storage_blob_def ex_old_chunk_def ex_old_index_def)
  have c: "cmpMultiPageBlob ?s 1 ''k'' ?bs = (False, ?s\<lparr>mLastError := ESP_ERR_NVS_CONTENT_DIFFERS\<rparr>)"
    by (simp add: model_defs ex_storage_blob_def ex_old_chunk_def ex_old_index_def)
  let ?s1 = "?s\<lparr>mLastError := ESP_ERR_NVS_CONTENT_DIFFERS\<rparr>"
  have p: "(ex_old_index, ?s1) =
           (if state (pageOf ?s1 0) = UNINITIALIZED \<or> state (pageOf ?s1 0) = PageState_INVALID
            then (case findItem ?s1 1 BLOB (Some ''k'') CHUNK_ANY VER_ANY of
                    (Some (pg2, it2), s') \<Rightarrow> (it2, s')
                  | (None, s') \<Rightarrow> (ex_old_index, s'))
            else (ex_old_index, ?s1))"
    by (simp add: pageOf_def ex_storage_blob_def)
  have "\<exists>s3. writeMultiPageBlob rnp_full_page ?s1 1 ''k'' ?bs
           (if chunkStart (blobIndex ex_old_index) = VER_1_OFFSET then VER_0_OFFSET else VER_1_OFFSET)
           = Some (False, s3) \<and> mLastError s3 = ESP_ERR_NVS_PAGE_FULL"
    by (simp add: model_defs rollback.simps ex_storage_blob_def ex_old_chunk_def ex_old_index_def
        ex_big_item_def rnp_full_page_def)
  then obtain s3 where
    w: "writeMultiPageBlob rnp_full_page ?s1 1 ''k'' ?bs
           (if chunkStart (blobIndex ex_old_index) = VER_1_OFFSET then VER_0_OFFSET else VER_1_OFFSET)
           = Some (False, s3)"
    and e: "mLastError s3 = ESP_ERR_NVS_PAGE_FULL" by blast
  have a: "mState ?s = ACTIVE" by (simp add: ex_storage_blob_def)
  from page_full_never_surfaces [OF rnp load, of ?s 1 BLOB "''k''" ?bs,
      THEN conjunct2, THEN conjunct2, THEN conjunct2, THEN conjunct2, THEN conjunct2,
      THEN conjunct2, THEN conjunct2, THEN conjunct2, THEN conjunct2, THEN conjunct2,
      THEN conjunct2, THEN spec, THEN spec, THEN spec, THEN spec, THEN spec, THEN spec, THEN mp,
      OF conjI [OF a conjI [OF f conjI [OF c conjI [OF p conjI [OF w e]]]]]]
  show "\<exists>s'. writeItem rnp_full_page ex_storage_blob 1 BLOB ''k'' (replicate 3904 0) = Some (False, s') \<and>
         mLastError s' = ESP_ERR_NVS_NOT_ENOUGH_SPACE"
    by simp
qed

subsection \<open>Page scans in terms of the list of entries\<close>

lemma span_neq_0 [simp]: "span it \<noteq> 0"
  using span_pos [of it] by simp

lemma usedEntries_Nil [simp]: "usedEntries [] = 0"
  by (simp add: usedEntries_def)

lemma usedEntries_Cons [simp]: "usedEntries (e # es) = span (snd e) + usedEntries es"
  by (simp add: usedEntries_def)

lemma usedEntries_append [simp]: "usedEntries (xs @ ys) = usedEntries xs + usedEntries ys"
  by (simp add: usedEntries_def)

lemma findFrom_start_le: "start \<le> i \<Longrightarrow> findFrom P start i es = findFrom P 0 i es"
  by (induction es arbitrary: i) auto

lemma findFrom0_None_iff: "findFrom P 0 i es = None \<longleftrightarrow> (\<forall>e\<in>set es. \<not> wmatch P e)"
  by (induction es arbitrary: i) (auto simp: wmatch_def)

lemma findFrom0_split:
  "\<forall>e\<in>set pre. \<not> wmatch P e \<Longrightarrow> P it \<Longrightarrow>
     findFrom P 0 i (pre @ (WRITTEN, it) # post) = Some (i + usedEntries pre, it)"
  by (induction pre arbitrary: i) (auto simp: wmatch_def)

lemma findFrom0_SomeD:
  "findFrom P 0 i es = Some (j, it) \<Longrightarrow>
     \<exists>pre post. es = pre @ (WRITTEN, it) # post \<and> P it \<and> j = i + usedEntries pre \<and>
       (\<forall>e\<in>set pre. \<not> wmatch P e)"
proof (induction es arbitrary: i)
  case Nil
  then show ?case by simp
next
  case (Cons e es)
  show ?case
  proof (cases "wmatch P e")
    case True
    with Cons.prems have "j = i" "it = snd e" "fst e = WRITTEN" "P it"
      by (auto simp: wmatch_def)
    then have "e # es = [] @ (WRITTEN, it) # es \<and> P it \<and> j = i + usedEntries [] \<and>
       (\<forall>e\<in>set []. \<not> wmatch P e)"
      by (cases e) simp
    then show ?thesis by blast
  next
    case False
    with Cons.prems have "findFrom P 0 (i + span (snd e)) es = Some (j, it)"
      by (auto simp: wmatch_def split: if_splits)
    from Cons.IH [OF this] obtain pre post where
      p: "es = pre @ (WRITTEN, it) # post" "P it" "j = i + span (snd e) + usedEntries pre"
         "\<forall>e\<in>set pre. \<not> wmatch P e" by blast
    with False have "e # es = (e # pre) @ (WRITTEN, it) # post \<and> P it \<and>
       j = i + usedEntries (e # pre) \<and> (\<forall>x\<in>set (e # pre). \<not> wmatch P x)"
      by simp
    then show ?thesis by blast
  qed
qed

lemma findFrom_skip:
  "findFrom P (i + usedEntries pre) i (pre @ post)
     = findFrom P 0 (i + usedEntries pre) post"
proof (induction pre arbitrary: i)
  case Nil
  show ?case using findFrom_start_le [of i i P post] by simp
next
  case (Cons e pre)
  have "findFrom P (i + usedEntries (e # pre)) i ((e # pre) @ post)
               = findFrom P (i + span (snd e) + usedEntries pre) (i + span (snd e)) (pre @ post)"
    by (simp add: add.assoc)
  also have "\<dots> = findFrom P 0 (i + span (snd e) + usedEntries pre) post"
    by (rule Cons.IH)
  finally show ?case by (simp add: add.assoc)
qed

lemma eraseAt_split:
  "eraseAt (i + usedEntries pre) i (pre @ e # post) = pre @ (ERASED, snd e) # post"
proof (induction pre arbitrary: i)
  case Nil
  then show ?case by simp
next
  case (Cons x pre)
  have "eraseAt (i + usedEntries (x # pre)) i ((x # pre) @ e # post)
          = x # eraseAt (i + span (snd x) + usedEntries pre) (i + span (snd x)) (pre @ e # post)"
    by (simp add: add.assoc)
  also have "\<dots> = x # pre @ (ERASED, snd e) # post"
    by (simp only: Cons.IH)
  finally show ?case by simp
qed

lemma Page_findItem0_None_iff:
  "Page_findItem p ns dt k 0 ci cs = None \<longleftrightarrow>
     (\<forall>e\<in>set (mEntries p). \<not> wmatch (itemMatches ns dt k ci cs) e)"
  by (simp add: Page_findItem_def findFrom0_None_iff)

lemma Page_findItem0_SomeD:
  "Page_findItem p ns dt k 0 ci cs = Some (j, it) \<Longrightarrow>
     \<exists>pre post. mEntries p = pre @ (WRITTEN, it) # post \<and> itemMatches ns dt k ci cs it \<and>
       j = usedEntries pre \<and> (\<forall>e\<in>set pre. \<not> wmatch (itemMatches ns dt k ci cs) e)"
  using findFrom0_SomeD [of "itemMatches ns dt k ci cs" 0 "mEntries p" j it]
  by (simp add: Page_findItem_def)

lemma Page_eraseItem_NOT_FOUND:
  "Page_findItem p ns dt k 0 ci cs = None \<Longrightarrow>
     Page_eraseItem p ns dt k ci cs = (ESP_ERR_NVS_NOT_FOUND, p)"
  by (simp add: Page_eraseItem_def)

lemma Page_eraseItem_OK:
  assumes "Page_findItem p ns dt k 0 ci cs = Some (j, it)"
  shows "\<exists>pre post. mEntries p = pre @ (WRITTEN, it) # post \<and>
           (\<forall>e\<in>set pre. \<not> wmatch (itemMatches ns dt k ci cs) e) \<and>
           Page_eraseItem p ns dt k ci cs = (ESP_OK, p\<lparr>mEntries := pre @ (ERASED, it) # post\<rparr>)"
proof -
  from Page_findItem0_SomeD [OF assms] obtain pre post where
    p: "mEntries p = pre @ (WRITTEN, it) # post" "j = usedEntries pre"
       "\<forall>e\<in>set pre. \<not> wmatch (itemMatches ns dt k ci cs) e" by blast
  have "eraseAt j 0 (mEntries p) = pre @ (ERASED, it) # post"
    using eraseAt_split [of 0 pre "(WRITTEN, it)" post] p by simp
  with assms p show ?thesis by (auto simp: Page_eraseItem_def)
qed

subsection \<open>C4: a write of the stored bytes is elided\<close>

text \<open>
  What \<^verbatim>\<open>Storage::findItem\<close> returns depends on the pages only, and the item it
  returns is the one \<^verbatim>\<open>Page::findItem\<close> returns on the page it names.
\<close>

lemma findItem_pages_SomeD:
  "findItem_pages pages pids ns dt k ci cs = Some (pg, it) \<Longrightarrow>
     pg \<in> set pids \<and> (\<exists>i. Page_findItem (pages pg) ns dt k 0 ci cs = Some (i, it))"
  by (induction pids) (auto split: option.splits)

lemma findItem_fst:
  "fst (findItem s ns dt k ci cs)
     = findItem_pages (mPages (mPageManager s)) (mPageList (mPageManager s)) ns dt k ci cs"
  by (simp add: findItem_def Let_def)

lemma findItem_snd:
  "snd (findItem s ns dt k ci cs) = s\<lparr>mLastError := findItem_err (fst (findItem s ns dt k ci cs))\<rparr>"
  by (simp add: findItem_def Let_def)


lemma findItem_SomeD:
  "fst (findItem s ns dt k ci cs) = Some (pg, it) \<Longrightarrow>
     pg \<in> set (mPageList (mPageManager s)) \<and>
     (\<exists>i. Page_findItem (pageOf s pg) ns dt k 0 ci cs = Some (i, it))"
  using findItem_pages_SomeD [of "mPages (mPageManager s)" "mPageList (mPageManager s)" ns dt k ci cs pg it]
  by (simp add: findItem_fst pageOf_def)



lemma readChunks_state:
  "readChunks s ns k cs nums buf = (b, s', out) \<Longrightarrow> s' = s\<lparr>mLastError := mLastError s'\<rparr>"
  by (induction s ns k cs nums buf rule: readChunks.induct)
     (auto simp: Let_def findItem_def split: prod.splits option.splits if_splits)









subsection \<open>Counting the written items\<close>

lemma writtenItems_sum:
  "writtenItems Q s =
     sum_list (map (\<lambda>pid. pageCount Q (pageOf s pid)) (mPageList (mPageManager s)))"
  by (simp add: writtenItems_def PageManager_writtenItems_def pageOf_def)

lemma pageCount_0_iff: "pageCount Q p = 0 \<longleftrightarrow> (\<forall>e\<in>set (mEntries p). \<not> wmatch Q e)"
  by (auto simp: pageCount_def filter_empty_conv)

lemma Page_findItem0_None_count:
  "Page_findItem p ns dt k 0 ci cs = None \<longleftrightarrow> pageCount (itemMatches ns dt k ci cs) p = 0"
  by (simp add: Page_findItem0_None_iff pageCount_0_iff)

lemma findItem_pages_None_iff:
  "findItem_pages pages pids ns dt k ci cs = None \<longleftrightarrow>
     (\<forall>pid\<in>set pids. pageCount (itemMatches ns dt k ci cs) (pages pid) = 0)"
proof (induction pids)
  case Nil
  show ?case by simp
next
  case (Cons a pids)
  show ?case
  proof (cases "Page_findItem (pages a) ns dt k 0 ci cs")
    case None
    with Cons show ?thesis by (simp add: Page_findItem0_None_count [symmetric])
  next
    case (Some x)
    then have "pageCount (itemMatches ns dt k ci cs) (pages a) \<noteq> 0"
      by (simp add: Page_findItem0_None_count [symmetric])
    with Some show ?thesis by (cases x) simp
  qed
qed

lemma findItem_None_iff:
  "fst (findItem s ns dt k ci cs) = None \<longleftrightarrow> writtenItems (itemMatches ns dt k ci cs) s = 0"
  by (simp add: findItem_fst findItem_pages_None_iff writtenItems_sum pageOf_def)

text \<open>Erasing the item found on a page takes one written item away.\<close>

lemma Page_eraseItem_count:
  assumes "Page_findItem p ns dt k 0 ci cs = Some (j, it)"
  shows "pageCount Q (snd (Page_eraseItem p ns dt k ci cs))
           = pageCount Q p - (if Q it then 1 else 0)"
proof -
  from Page_eraseItem_OK [OF assms] obtain pre post where
    "mEntries p = pre @ (WRITTEN, it) # post"
    "Page_eraseItem p ns dt k ci cs = (ESP_OK, p\<lparr>mEntries := pre @ (ERASED, it) # post\<rparr>)"
    by blast
  then show ?thesis by (simp add: pageCount_def wmatch_def)
qed

lemma sum_list_map_upd:
  "distinct xs \<Longrightarrow> x \<in> set xs \<Longrightarrow>
     sum_list (map (f(x := v)) xs) + f x = sum_list (map f xs) + (v :: nat)"
  by (induction xs) auto

lemma setPage_mPageList [simp]:
  "mPageList (mPageManager (setPage s pg p)) = mPageList (mPageManager s)"
  by (simp add: setPage_def)

lemma writtenItems_setPage:
  assumes "distinct (mPageList (mPageManager s))" and "pg \<in> set (mPageList (mPageManager s))"
  shows "writtenItems Q (setPage s pg p') + pageCount Q (pageOf s pg)
           = writtenItems Q s + pageCount Q p'"
proof -
  have "(\<lambda>pid. pageCount Q (pageOf (setPage s pg p') pid))
          = (\<lambda>pid. pageCount Q (pageOf s pid))(pg := pageCount Q p')"
    by (auto simp: pageOf_def setPage_def)
  then show ?thesis
    using sum_list_map_upd [OF assms, of "\<lambda>pid. pageCount Q (pageOf s pid)" "pageCount Q p'"]
    by (simp add: writtenItems_sum)
qed

lemma writtenItems_mLastError [simp]: "writtenItems Q (s\<lparr>mLastError := e\<rparr>) = writtenItems Q s"
  by (simp add: writtenItems_def)

lemma pageCount_le_writtenItems:
  "pg \<in> set (mPageList (mPageManager s)) \<Longrightarrow> pageCount Q (pageOf s pg) \<le> writtenItems Q s"
  by (simp add: writtenItems_sum member_le_sum_list)

text \<open>
  Erasing, on the page where \<^verbatim>\<open>Storage::findItem\<close> found it, the item that matches the
  same arguments.
\<close>

lemma erase_found_count:
  assumes "distinct (mPageList (mPageManager s))"
    and "fst (findItem s ns dt k ci cs) = Some (pg, it)"
  shows "\<exists>p'. Page_eraseItem (pageOf s pg) ns dt k ci cs = (ESP_OK, p') \<and>
           state p' = state (pageOf s pg) \<and> itemMatches ns dt k ci cs it \<and>
           (\<forall>Q. writtenItems Q (setPage s pg p') = writtenItems Q s - (if Q it then 1 else 0))"
proof -
  from findItem_SomeD [OF assms(2)] obtain j where
    pg: "pg \<in> set (mPageList (mPageManager s))"
    and j: "Page_findItem (pageOf s pg) ns dt k 0 ci cs = Some (j, it)" by blast
  from Page_eraseItem_OK [OF j] obtain pre post where
    sp: "mEntries (pageOf s pg) = pre @ (WRITTEN, it) # post"
    and er: "Page_eraseItem (pageOf s pg) ns dt k ci cs
          = (ESP_OK, (pageOf s pg)\<lparr>mEntries := pre @ (ERASED, it) # post\<rparr>)"
    by blast
  let ?p' = "(pageOf s pg)\<lparr>mEntries := pre @ (ERASED, it) # post\<rparr>"
  have m: "itemMatches ns dt k ci cs it"
    using Page_findItem0_SomeD [OF j] by blast
  have "writtenItems Q (setPage s pg ?p') = writtenItems Q s - (if Q it then 1 else 0)" for Q
  proof -
    have c: "pageCount Q ?p' = pageCount Q (pageOf s pg) - (if Q it then 1 else 0)"
      using Page_eraseItem_count [OF j, of Q] er by simp
    have ge: "Q it \<Longrightarrow> 1 \<le> pageCount Q (pageOf s pg)"
      using sp by (simp add: pageCount_def wmatch_def)
    from writtenItems_setPage [OF assms(1) pg, of Q ?p'] c ge
      pageCount_le_writtenItems [OF pg, of Q]
    show ?thesis by (auto split: if_splits)
  qed
  with er m show ?thesis by auto
qed

lemma setPage_mState [simp]: "mState (setPage s pg p) = mState s"
  by (simp add: setPage_def)

subsection \<open>C10: eraseItem on an item of a multi-page blob\<close>









lemma findItem_mLastError [simp]:
  "findItem (s\<lparr>mLastError := e\<rparr>) ns dt k ci cs = findItem s ns dt k ci cs"
  by (simp add: findItem_def Let_def)








subsection \<open>C9: a blob write erases the item of the old format\<close>

lemma writtenItems_setPage_same:
  "pageCount Q p' = pageCount Q (pageOf s pid) \<Longrightarrow>
     writtenItems Q (setPage s pid p') = writtenItems Q s"
proof -
  assume a: "pageCount Q p' = pageCount Q (pageOf s pid)"
  have "(\<lambda>i. pageCount Q (pageOf (setPage s pid p') i)) = (\<lambda>i. pageCount Q (pageOf s i))"
    using a by (auto simp: pageOf_def setPage_def)
  then show ?thesis by (simp add: writtenItems_sum)
qed

lemma Page_writeItem_count:
  "Page_writeItem p ns dt k pl ci = (e, p') \<Longrightarrow> \<forall>it. Q it \<longrightarrow> datatype' it \<noteq> dt \<Longrightarrow>
     pageCount Q p' = pageCount Q p"
  by (auto simp: Page_writeItem_def Let_def pageCount_def wmatch_def split: if_splits)

lemma Page_markFull_count: "pageCount Q (snd (Page_markFull p)) = pageCount Q p"
  by (simp add: Page_markFull_def pageCount_def)

lemma markFull_requestNewPage_count:
  assumes "keeps rnp Q"
  shows "writtenItems Q (markFull_requestNewPage rnp s pid) = writtenItems Q s"
proof -
  have k: "PageManager_writtenItems Q pm' = PageManager_writtenItems Q pm" if "rnp pm = (e, pm')"
    for pm e pm'
    using assms [unfolded keeps_def, rule_format, of pm] that by simp
  have m: "writtenItems Q (setPage s pid (snd (Page_markFull (pageOf s pid)))) = writtenItems Q s"
    by (rule writtenItems_setPage_same) (rule Page_markFull_count)
  show ?thesis
    using m
    by (auto simp: markFull_requestNewPage_def Let_def writtenItems_def split: prod.splits dest: k)
qed


lemma writeMultiPageBlob_body_count:
  assumes "keeps rnp Q"
    and "\<forall>it. Q it \<longrightarrow> datatype' it \<noteq> BLOB_DATA \<and> datatype' it \<noteq> BLOB_IDX"
  shows "writeMultiPageBlob_body rnp ns k bs cs (s, st) = Continue (s', st') \<Longrightarrow>
           writtenItems Q s' = writtenItems Q s"
    and "writeMultiPageBlob_body rnp ns k bs cs (s, st) = Break s' used \<Longrightarrow>
           writtenItems Q s' = writtenItems Q s"
    and "writeMultiPageBlob_body rnp ns k bs cs (s, st) = ReturnFalse s' \<Longrightarrow>
           writtenItems Q s' = writtenItems Q s"
proof -
  note mf = markFull_requestNewPage_count [OF assms(1)]
  have w: "writtenItems Q (setPage s0 pid p') = writtenItems Q s0"
    if "Page_writeItem (pageOf s0 pid) ns dt k' pl ci = (e, p')" "dt = BLOB_DATA \<or> dt = BLOB_IDX"
    for s0 pid dt k' pl ci e p'
    using that assms(2)
    by (intro writtenItems_setPage_same Page_writeItem_count [OF that(1)]) auto
  show "writeMultiPageBlob_body rnp ns k bs cs (s, st) = Continue (s', st') \<Longrightarrow>
           writtenItems Q s' = writtenItems Q s"
    by (cases st) (auto simp: writeMultiPageBlob_body_def Let_def mf w
        split: prod.splits if_splits)
  show "writeMultiPageBlob_body rnp ns k bs cs (s, st) = Break s' used \<Longrightarrow>
           writtenItems Q s' = writtenItems Q s"
    by (cases st) (auto simp: writeMultiPageBlob_body_def Let_def mf w
        split: prod.splits if_splits)
  show "writeMultiPageBlob_body rnp ns k bs cs (s, st) = ReturnFalse s' \<Longrightarrow>
           writtenItems Q s' = writtenItems Q s"
    by (cases st) (auto simp: writeMultiPageBlob_body_def Let_def mf w
        split: prod.splits if_splits)
qed


lemma writeMultiPageBlob_loop_count:
  assumes "writeMultiPageBlob_loop rnp ns k bs cs st = Some y"
    and "keeps rnp Q"
    and "\<forall>it. Q it \<longrightarrow> datatype' it \<noteq> BLOB_DATA \<and> datatype' it \<noteq> BLOB_IDX"
  shows "writtenItems Q (fst (snd y)) = writtenItems Q (fst st)"
proof -
  have "keeps rnp Q \<longrightarrow> writtenItems Q (fst (snd y)) = writtenItems Q (fst st)"
  proof (rule writeMultiPageBlob_loop.raw_induct
      [where P = "\<lambda>rnp ns k bs cs st y.
                    keeps rnp Q \<longrightarrow> writtenItems Q (fst (snd y)) = writtenItems Q (fst st)",
       OF _ assms(1)])
    fix f rnp' ns' k' bs' cs' st' y'
    assume ih: "\<And>rnp ns k bs cs st y. f rnp ns k bs cs st = Some y \<Longrightarrow>
                  keeps rnp Q \<longrightarrow> writtenItems Q (fst (snd y)) = writtenItems Q (fst st)"
      and st: "(case writeMultiPageBlob_body rnp' ns' k' bs' cs' st' of
                  Continue st'' \<Rightarrow> f rnp' ns' k' bs' cs' st''
                | Break s' used \<Rightarrow> Some (False, s', used)
                | ReturnFalse s' \<Rightarrow> Some (True, s', [])) = Some y'"
    show "keeps rnp' Q \<longrightarrow> writtenItems Q (fst (snd y')) = writtenItems Q (fst st')"
    proof
      assume kp: "keeps rnp' Q"
      obtain s0 r0 where st': "st' = (s0, r0)" by (cases st')
      show "writtenItems Q (fst (snd y')) = writtenItems Q (fst st')"
      proof (cases "writeMultiPageBlob_body rnp' ns' k' bs' cs' st'")
        case (Continue st'')
        obtain s1 r1 where st'': "st'' = (s1, r1)" by (cases st'')
        from writeMultiPageBlob_body_count(1) [OF kp assms(3), of ns' k' bs' cs' s0 r0 s1 r1]
          Continue st' st''
        have "writtenItems Q s1 = writtenItems Q s0" by simp
        moreover from ih [of rnp' ns' k' bs' cs' st'' y'] st Continue kp st''
        have "writtenItems Q (fst (snd y')) = writtenItems Q s1" by simp
        ultimately show ?thesis using st' by simp
      next
        case (Break s1 used)
        from writeMultiPageBlob_body_count(2) [OF kp assms(3), of ns' k' bs' cs' s0 r0 s1 used]
          Break st' st
        show ?thesis by auto
      next
        case (ReturnFalse s1)
        from writeMultiPageBlob_body_count(3) [OF kp assms(3), of ns' k' bs' cs' s0 r0 s1]
          ReturnFalse st' st
        show ?thesis by auto
      qed
    qed
  qed
  with assms(2) show ?thesis by simp
qed

lemma rollback_count:
  assumes "\<forall>it. Q it \<longrightarrow> datatype' it \<noteq> BLOB_DATA \<and> datatype' it \<noteq> BLOB_IDX"
  shows "writtenItems Q (rollback s ns k ii used) = writtenItems Q s"
proof (induction s ns k ii used rule: rollback.induct)
  case (1 s ns k ii)
  show ?case by simp
next
  case (2 s ns k ii pid rest)
  obtain e p' where e: "Page_eraseItem (pageOf s pid) ns BLOB_DATA (Some k) (of_nat ii) VER_ANY = (e, p')"
    by (cases "Page_eraseItem (pageOf s pid) ns BLOB_DATA (Some k) (of_nat ii) VER_ANY")
  have "pageCount Q p' = pageCount Q (pageOf s pid)"
  proof (cases "Page_findItem (pageOf s pid) ns BLOB_DATA (Some k) 0 (of_nat ii) VER_ANY")
    case None
    from Page_eraseItem_NOT_FOUND [OF None] e show ?thesis by simp
  next
    case (Some x)
    obtain j it where x: "x = (j, it)" by (cases x)
    from Page_findItem0_SomeD [OF Some [unfolded x]]
    have "datatype' it = BLOB_DATA" by (auto simp: itemMatches_def)
    then have "\<not> Q it" using assms by auto
    with Page_eraseItem_count [OF Some [unfolded x], of Q] e show ?thesis by simp
  qed
  then have "writtenItems Q (setPage s pid p') = writtenItems Q s"
    by (rule writtenItems_setPage_same)
  with 2 [OF e [symmetric]] e show ?case by simp
qed

lemma writeMultiPageBlob_count:
  assumes "writeMultiPageBlob rnp s ns k bs cs = Some (b, s')"
    and "keeps rnp Q"
    and "\<forall>it. Q it \<longrightarrow> datatype' it \<noteq> BLOB_DATA \<and> datatype' it \<noteq> BLOB_IDX"
  shows "writtenItems Q s' = writtenItems Q s"
  using assms(1) rollback_count [OF assms(3)]
  by (auto simp: writeMultiPageBlob_def writeMultiPageBlob_chunks_def Let_def
      split: if_splits option.splits prod.splits bool.splits
      dest!: writeMultiPageBlob_loop_count [OF _ assms(2,3)])

lemma writeItem_eraseOld_found:
  assumes "fst (findItem s ns dt (Some k) CHUNK_ANY VER_ANY) = Some (pg, it)"
  shows "\<exists>pre post.
           mEntries (pageOf s pg) = pre @ (WRITTEN, it) # post \<and>
           Page_eraseItem (pageOf s pg) ns dt (Some k) CHUNK_ANY VER_ANY
             = (ESP_OK, (pageOf s pg)\<lparr>mEntries := pre @ (ERASED, it) # post\<rparr>) \<and>
           writeItem_eraseOld (s\<lparr>mLastError := ESP_OK\<rparr>) ns dt k (Some pg)
             = (True, (setPage s pg ((pageOf s pg)\<lparr>mEntries := pre @ (ERASED, it) # post\<rparr>))
                        \<lparr>mLastError := ESP_OK\<rparr>)"
proof -
  from findItem_SomeD [OF assms] obtain j where
    j: "Page_findItem (pageOf s pg) ns dt (Some k) 0 CHUNK_ANY VER_ANY = Some (j, it)" by blast
  from Page_eraseItem_OK [OF j] obtain pre post where
    sp: "mEntries (pageOf s pg) = pre @ (WRITTEN, it) # post"
    and er: "Page_eraseItem (pageOf s pg) ns dt (Some k) CHUNK_ANY VER_ANY
          = (ESP_OK, (pageOf s pg)\<lparr>mEntries := pre @ (ERASED, it) # post\<rparr>)"
    by blast
  have "writeItem_eraseOld (s\<lparr>mLastError := ESP_OK\<rparr>) ns dt k (Some pg)
             = (True, (setPage s pg ((pageOf s pg)\<lparr>mEntries := pre @ (ERASED, it) # post\<rparr>))
                        \<lparr>mLastError := ESP_OK\<rparr>)"
    using findItem_Some [OF assms] er
    by (simp add: writeItem_eraseOld_def)
  with sp er show ?thesis by blast
qed

text \<open>
  C9. A write of type \<open>BLOB\<close> for a namespace and key that have no blob index but a
  written item of type \<open>BLOB\<close>, the format without index: when the multi-page write
  succeeds (\<open>requestNewPage\<close> keeping the written items of that kind), the search of
  line 319 finds such an item on the storage the write left, \<^verbatim>\<open>writeItem\<close> returns
  true, and its result is that storage with the item found marked erased on its page. One
  written item of the old format fewer is left than before the call, so that the search
  finds none when there was one.
\<close>

theorem writeItem_blob_erases_legacy:
  assumes "mState s = ACTIVE"
    and "fst (findItem s ns BLOB_IDX (Some k) CHUNK_ANY VER_ANY) = None"
    and "fst (findItem s ns BLOB (Some k) CHUNK_ANY VER_ANY) = Some (pg0, legacy0)"
    and "keeps rnp (itemMatches ns BLOB (Some k) CHUNK_ANY VER_ANY)"
    and "writeMultiPageBlob rnp (s\<lparr>mLastError := ESP_ERR_NVS_NOT_FOUND\<rparr>) ns k bs VER_0_OFFSET
           = Some (True, s3)"
    and "distinct (mPageList (mPageManager s3))"
  shows "\<exists>pg legacy pre post s'.
           fst (findItem s3 ns BLOB (Some k) CHUNK_ANY VER_ANY) = Some (pg, legacy) \<and>
           mEntries (pageOf s3 pg) = pre @ (WRITTEN, legacy) # post \<and>
           s' = (setPage s3 pg ((pageOf s3 pg)\<lparr>mEntries := pre @ (ERASED, legacy) # post\<rparr>))
                  \<lparr>mLastError := ESP_OK\<rparr> \<and>
           writeItem rnp s ns BLOB k bs = Some (True, s') \<and>
           writtenItems (itemMatches ns BLOB (Some k) CHUNK_ANY VER_ANY) s'
             = writtenItems (itemMatches ns BLOB (Some k) CHUNK_ANY VER_ANY) s - 1 \<and>
           (writtenItems (itemMatches ns BLOB (Some k) CHUNK_ANY VER_ANY) s \<le> 1 \<longrightarrow>
              fst (findItem s' ns BLOB (Some k) CHUNK_ANY VER_ANY) = None)"
proof -
  let ?L = "itemMatches ns BLOB (Some k) CHUNK_ANY VER_ANY"
  let ?s0 = "s\<lparr>mLastError := ESP_ERR_NVS_NOT_FOUND\<rparr>"
  have ty: "\<forall>it. ?L it \<longrightarrow> datatype' it \<noteq> BLOB_DATA \<and> datatype' it \<noteq> BLOB_IDX"
    by (auto simp: itemMatches_def)
  have c3: "writtenItems ?L s3 = writtenItems ?L s"
    using writeMultiPageBlob_count [OF assms(5,4) ty] by simp
  have "writtenItems ?L s \<noteq> 0"
    using assms(3) by (simp add: findItem_None_iff [symmetric])
  then have "fst (findItem s3 ns BLOB (Some k) CHUNK_ANY VER_ANY) \<noteq> None"
    using c3 by (simp add: findItem_None_iff)
  then obtain pg legacy where
    f3: "fst (findItem s3 ns BLOB (Some k) CHUNK_ANY VER_ANY) = Some (pg, legacy)" by auto
  from writeItem_eraseOld_found [OF f3] obtain pre post where
    sp: "mEntries (pageOf s3 pg) = pre @ (WRITTEN, legacy) # post"
    and er: "Page_eraseItem (pageOf s3 pg) ns BLOB (Some k) CHUNK_ANY VER_ANY
             = (ESP_OK, (pageOf s3 pg)\<lparr>mEntries := pre @ (ERASED, legacy) # post\<rparr>)"
    and eo: "writeItem_eraseOld (s3\<lparr>mLastError := ESP_OK\<rparr>) ns BLOB k (Some pg)
             = (True, (setPage s3 pg ((pageOf s3 pg)\<lparr>mEntries := pre @ (ERASED, legacy) # post\<rparr>))
                        \<lparr>mLastError := ESP_OK\<rparr>)"
    by blast
  let ?p' = "(pageOf s3 pg)\<lparr>mEntries := pre @ (ERASED, legacy) # post\<rparr>"
  let ?s' = "(setPage s3 pg ?p')\<lparr>mLastError := ESP_OK\<rparr>"
  have wb: "writeItem_blob rnp ?s0 ns k bs None = Some (Inr (s3\<lparr>mLastError := ESP_OK\<rparr>, Some pg))"
    using assms(5) findItem_Some [OF f3] by (simp add: writeItem_blob_def)
  have w: "writeItem rnp s ns BLOB k bs = Some (True, ?s')"
    using assms(1) findItem_None [OF assms(2)] wb eo by (simp add: writeItem_def)
  from erase_found_count [OF assms(6) f3] er
  have m: "?L legacy"
    and c: "\<And>Q. writtenItems Q (setPage s3 pg ?p') = writtenItems Q s3 - (if Q legacy then 1 else 0)"
    by auto
  have cnt: "writtenItems ?L ?s' = writtenItems ?L s - 1"
    using c [of ?L] m c3 by simp
  then have "writtenItems ?L s \<le> 1 \<longrightarrow> fst (findItem ?s' ns BLOB (Some k) CHUNK_ANY VER_ANY) = None"
    by (simp add: findItem_None_iff)
  with f3 sp w cnt show ?thesis by blast
qed

lemma keeps_rnp_none: "keeps rnp_none Q"
  by (simp add: keeps_def rnp_none_def)

theorem writeItem_blob_erases_legacy_witness:
  "mState ex_storage_legacy = ACTIVE \<and>
   fst (findItem ex_storage_legacy 1 BLOB_IDX (Some ''k'') CHUNK_ANY VER_ANY) = None \<and>
   fst (findItem ex_storage_legacy 1 BLOB (Some ''k'') CHUNK_ANY VER_ANY) = Some (0, ex_legacy_blob) \<and>
   keeps rnp_none (itemMatches 1 BLOB (Some ''k'') CHUNK_ANY VER_ANY) \<and>
   (\<exists>s3. writeMultiPageBlob rnp_none (ex_storage_legacy\<lparr>mLastError := ESP_ERR_NVS_NOT_FOUND\<rparr>)
            1 ''k'' [1, 2] VER_0_OFFSET = Some (True, s3) \<and>
         distinct (mPageList (mPageManager s3))) \<and>
   (\<exists>s'. writeItem rnp_none ex_storage_legacy 1 BLOB ''k'' [1, 2] = Some (True, s') \<and>
         fst (findItem s' 1 BLOB (Some ''k'') CHUNK_ANY VER_ANY) = None \<and>
         writtenItems (itemMatches 1 BLOB (Some ''k'') CHUNK_ANY VER_ANY) s' = 0)"
proof -
  have a: "mState ex_storage_legacy = ACTIVE" by (simp add: ex_storage_legacy_def)
  have b: "fst (findItem ex_storage_legacy 1 BLOB_IDX (Some ''k'') CHUNK_ANY VER_ANY) = None"
    by (simp add: ex_storage_legacy_def ex_legacy_blob_def model_defs)
  have c: "fst (findItem ex_storage_legacy 1 BLOB (Some ''k'') CHUNK_ANY VER_ANY) = Some (0, ex_legacy_blob)"
    by (simp add: ex_storage_legacy_def ex_legacy_blob_def model_defs)
  obtain s3 where
    d: "writeMultiPageBlob rnp_none (ex_storage_legacy\<lparr>mLastError := ESP_ERR_NVS_NOT_FOUND\<rparr>)
            1 ''k'' [1, 2] VER_0_OFFSET = Some (True, s3)"
    and e: "distinct (mPageList (mPageManager s3))"
    by (simp add: ex_storage_legacy_def ex_legacy_blob_def model_defs)
  have one: "writtenItems (itemMatches 1 BLOB (Some ''k'') CHUNK_ANY VER_ANY) ex_storage_legacy \<le> 1"
    by (simp add: writtenItems_sum pageCount_def wmatch_def ex_storage_legacy_def
        ex_legacy_blob_def model_defs)
  from writeItem_blob_erases_legacy [OF a b c keeps_rnp_none d e] one
  have "\<exists>s'. writeItem rnp_none ex_storage_legacy 1 BLOB ''k'' [1, 2] = Some (True, s') \<and>
         fst (findItem s' 1 BLOB (Some ''k'') CHUNK_ANY VER_ANY) = None \<and>
         writtenItems (itemMatches 1 BLOB (Some ''k'') CHUNK_ANY VER_ANY) s' = 0"
    by auto
  with a b c keeps_rnp_none d e show ?thesis by blast
qed

subsection \<open>C2: orphan reclamation at mount\<close>

lemma any_BLOB_DATA [simp]:
  "itemMatches NS_ANY BLOB_DATA None CHUNK_ANY VER_ANY it \<longleftrightarrow> datatype' it = BLOB_DATA"
  by (simp add: itemMatches_def)

lemma any_BLOB_IDX [simp]:
  "itemMatches NS_ANY BLOB_IDX None CHUNK_ANY VER_ANY it \<longleftrightarrow> datatype' it = BLOB_IDX"
  by (simp add: itemMatches_def)

lemma Page_findItem_split:
  "mEntries p = pre @ post \<Longrightarrow>
     Page_findItem p ns dt k (usedEntries pre) ci cs
       = findFrom (itemMatches ns dt k ci cs) 0 (usedEntries pre) post"
  using findFrom_skip [of "itemMatches ns dt k ci cs" 0 pre post]
  by (simp add: Page_findItem_def)

lemma reclaim_id: "\<not> wmatch (\<lambda>it. datatype' it = BLOB_DATA) e \<Longrightarrow> reclaim l e = e"
  by (auto simp: reclaim_def wmatch_def)

lemma map_reclaim_id:
  "\<forall>e\<in>set es. \<not> wmatch (\<lambda>it. datatype' it = BLOB_DATA) e \<Longrightarrow> map (reclaim l) es = es"
  by (induction es) (auto simp: reclaim_id)

lemma same_fields_covers:
  "nsIndex x = nsIndex it \<Longrightarrow> key x = key it \<Longrightarrow> chunkIndex x = chunkIndex it \<Longrightarrow>
     blobIndexCovers x e = blobIndexCovers it e"
  by (simp add: blobIndexCovers_def)

lemma same_fields_find:
  assumes "nsIndex x = nsIndex it" "key x = key it" "chunkIndex x = chunkIndex it"
  shows "find (blobIndexCovers x) l = find (blobIndexCovers it) l"
proof -
  have "blobIndexCovers x = blobIndexCovers it"
    using same_fields_covers [OF assms] by (intro ext)
  then show ?thesis by simp
qed

text \<open>The erase of line 75 hits the item that the scan found.\<close>

lemma erase_orphan_split:
  assumes "mEntries p = pre @ mid @ (WRITTEN, it) # rest"
    and "\<forall>e\<in>set pre. fst e = WRITTEN \<and> datatype' (snd e) = BLOB_DATA
           \<longrightarrow> find (blobIndexCovers (snd e)) l \<noteq> None"
    and "\<forall>e\<in>set mid. \<not> wmatch (\<lambda>it. datatype' it = BLOB_DATA) e"
    and "datatype' it = BLOB_DATA" and "find (blobIndexCovers it) l = None"
    and "nsIndex it \<noteq> NS_ANY" and "chunkIndex it \<noteq> CHUNK_ANY"
  shows "snd (Page_eraseItem p (nsIndex it) (datatype' it) (Some (key it)) (chunkIndex it) VER_ANY)
           = p\<lparr>mEntries := pre @ mid @ (ERASED, it) # rest\<rparr>"
proof -
  let ?M = "itemMatches (nsIndex it) BLOB_DATA (Some (key it)) (chunkIndex it) VER_ANY"
  have M: "?M x \<longleftrightarrow> nsIndex x = nsIndex it \<and> datatype' x = BLOB_DATA \<and> key x = key it \<and>
                   chunkIndex x = chunkIndex it" for x
    using assms(6,7) by (auto simp: itemMatches_def)
  have "\<not> wmatch ?M e" if "e \<in> set pre" for e
  proof
    assume w: "wmatch ?M e"
    then have "find (blobIndexCovers (snd e)) l = find (blobIndexCovers it) l"
      by (intro same_fields_find) (auto simp: wmatch_def M)
    moreover have "find (blobIndexCovers (snd e)) l \<noteq> None"
      using assms(2) that w by (auto simp: wmatch_def M)
    ultimately show False using assms(5) by simp
  qed
  moreover have "\<not> wmatch ?M e" if "e \<in> set mid" for e
    using assms(3) that by (auto simp: wmatch_def M)
  ultimately have n: "\<forall>e\<in>set (pre @ mid). \<not> wmatch ?M e" by auto
  have "?M it" using assms(4) by (simp add: M)
  from findFrom0_split [OF n this, of 0 rest]
  have f: "Page_findItem p (nsIndex it) BLOB_DATA (Some (key it)) 0 (chunkIndex it) VER_ANY
             = Some (usedEntries (pre @ mid), it)"
    using assms(1) by (simp add: Page_findItem_def)
  have "eraseAt (usedEntries (pre @ mid)) 0 (mEntries p) = (pre @ mid) @ (ERASED, it) # rest"
    using eraseAt_split [of 0 "pre @ mid" "(WRITTEN, it)" rest] assms(1) by simp
  with f assms(4) show ?thesis by (simp add: Page_eraseItem_def)
qed

lemma eraseOrphansFrom_split:
  assumes "mEntries p = pre @ post"
    and "\<forall>e\<in>set pre. fst e = WRITTEN \<and> datatype' (snd e) = BLOB_DATA
           \<longrightarrow> find (blobIndexCovers (snd e)) l \<noteq> None"
    and "\<forall>e\<in>set post. noWildcard e"
  shows "eraseOrphansFrom l p (usedEntries pre) = p\<lparr>mEntries := pre @ map (reclaim l) post\<rparr>"
  using assms
proof (induction "length post" arbitrary: pre post p rule: less_induct)
  case less
  let ?D = "\<lambda>it. datatype' it = BLOB_DATA"
  have fi: "Page_findItem p NS_ANY BLOB_DATA None (usedEntries pre) CHUNK_ANY VER_ANY
          = findFrom (itemMatches NS_ANY BLOB_DATA None CHUNK_ANY VER_ANY) 0 (usedEntries pre) post"
    by (rule Page_findItem_split [OF less.prems(1)])
  show ?case
  proof (cases "findFrom (itemMatches NS_ANY BLOB_DATA None CHUNK_ANY VER_ANY) 0 (usedEntries pre) post")
    case None
    then have "\<forall>e\<in>set post. \<not> wmatch ?D e"
      by (simp add: findFrom0_None_iff wmatch_def)
    then have "map (reclaim l) post = post" by (rule map_reclaim_id)
    then show ?thesis
      using None fi less.prems(1) by (subst eraseOrphansFrom.simps) simp
  next
    case (Some x)
    obtain j it where x: "x = (j, it)" by (cases x)
    from findFrom0_SomeD [OF Some [unfolded x]] obtain mid rest where
      post: "post = mid @ (WRITTEN, it) # rest"
      and ty: "datatype' it = BLOB_DATA"
      and j: "j = usedEntries pre + usedEntries mid"
      and mid: "\<forall>e\<in>set mid. \<not> wmatch ?D e"
      by (auto simp: wmatch_def)
    have len: "length rest < length post" using post by simp
    have nw: "\<forall>e\<in>set rest. noWildcard e" using less.prems(3) post by simp
    have mm: "map (reclaim l) mid = mid" using mid by (rule map_reclaim_id)
    have ue: "j + span it = usedEntries (pre @ mid @ [(WRITTEN, it)])"
      "j + span it = usedEntries (pre @ mid @ [(ERASED, it)])"
      using j by simp_all
    show ?thesis
    proof (cases "find (blobIndexCovers it) l = None")
      case False
      have pre': "\<forall>e\<in>set (pre @ mid @ [(WRITTEN, it)]).
                    fst e = WRITTEN \<and> datatype' (snd e) = BLOB_DATA
                      \<longrightarrow> find (blobIndexCovers (snd e)) l \<noteq> None"
        using less.prems(2) mid False by (auto simp: wmatch_def)
      have e: "mEntries p = (pre @ mid @ [(WRITTEN, it)]) @ rest"
        using less.prems(1) post by simp
      have "eraseOrphansFrom l p (usedEntries pre) = eraseOrphansFrom l p (j + span it)"
        using fi Some x False by (subst eraseOrphansFrom.simps) auto
      also have "\<dots> = p\<lparr>mEntries := (pre @ mid @ [(WRITTEN, it)]) @ map (reclaim l) rest\<rparr>"
        unfolding ue(1) by (rule less.hyps [OF len e pre' nw])
      also have "\<dots> = p\<lparr>mEntries := pre @ map (reclaim l) post\<rparr>"
        using post mm False by (simp add: reclaim_def)
      finally show ?thesis .
    next
      case True
      have w: "nsIndex it \<noteq> NS_ANY" "chunkIndex it \<noteq> CHUNK_ANY"
        using less.prems(3) post ty by (auto simp: noWildcard_def)
      let ?p' = "p\<lparr>mEntries := pre @ mid @ (ERASED, it) # rest\<rparr>"
      have er: "snd (Page_eraseItem p (nsIndex it) (datatype' it) (Some (key it)) (chunkIndex it) VER_ANY)
                  = ?p'"
        using less.prems(1) post
        by (intro erase_orphan_split [OF _ less.prems(2) mid ty True w]) simp
      have pre': "\<forall>e\<in>set (pre @ mid @ [(ERASED, it)]).
                    fst e = WRITTEN \<and> datatype' (snd e) = BLOB_DATA
                      \<longrightarrow> find (blobIndexCovers (snd e)) l \<noteq> None"
        using less.prems(2) mid by (auto simp: wmatch_def)
      have e: "mEntries ?p' = (pre @ mid @ [(ERASED, it)]) @ rest" by simp
      have "eraseOrphansFrom l p (usedEntries pre) = eraseOrphansFrom l ?p' (j + span it)"
        using fi Some x True er by (subst eraseOrphansFrom.simps) simp
      also have "\<dots> = ?p'\<lparr>mEntries := (pre @ mid @ [(ERASED, it)]) @ map (reclaim l) rest\<rparr>"
        unfolding ue(2) by (rule less.hyps [OF len e pre' nw])
      also have "\<dots> = p\<lparr>mEntries := pre @ map (reclaim l) post\<rparr>"
        using post mm True ty by (simp add: reclaim_def)
      finally show ?thesis .
    qed
  qed
qed

lemma blobIndexCovers_nodeOf: "blobIndexCovers chunk (nodeOf idx) = inRangeOf chunk idx"
  by (auto simp: blobIndexCovers_def nodeOf_def inRangeOf_def)

lemma blobIndicesFrom_split:
  assumes "mEntries p = pre @ post"
  shows "blobIndicesFrom p (usedEntries pre)
           = map (\<lambda>e. nodeOf (snd e)) (filter (wmatch (\<lambda>it. datatype' it = BLOB_IDX)) post)"
  using assms
proof (induction "length post" arbitrary: pre post rule: less_induct)
  case less
  let ?I = "\<lambda>it. datatype' it = BLOB_IDX"
  have fi: "Page_findItem p NS_ANY BLOB_IDX None (usedEntries pre) CHUNK_ANY VER_ANY
          = findFrom (itemMatches NS_ANY BLOB_IDX None CHUNK_ANY VER_ANY) 0 (usedEntries pre) post"
    by (rule Page_findItem_split [OF less.prems(1)])
  show ?case
  proof (cases "findFrom (itemMatches NS_ANY BLOB_IDX None CHUNK_ANY VER_ANY) 0 (usedEntries pre) post")
    case None
    then have "\<forall>e\<in>set post. \<not> wmatch ?I e"
      by (simp add: findFrom0_None_iff wmatch_def)
    then have "filter (wmatch ?I) post = []" by (simp add: filter_empty_conv)
    then show ?thesis
      using None fi by (subst blobIndicesFrom.simps) simp
  next
    case (Some x)
    obtain j it where x: "x = (j, it)" by (cases x)
    from findFrom0_SomeD [OF Some [unfolded x]] obtain mid rest where
      post: "post = mid @ (WRITTEN, it) # rest"
      and ty: "datatype' it = BLOB_IDX"
      and j: "j = usedEntries pre + usedEntries mid"
      and mid: "\<forall>e\<in>set mid. \<not> wmatch ?I e"
      by (auto simp: wmatch_def)
    have len: "length rest < length post" using post by simp
    have fm: "filter (wmatch ?I) mid = []" using mid by (simp add: filter_empty_conv)
    have ue: "j + span it = usedEntries (pre @ mid @ [(WRITTEN, it)])" using j by simp
    have e: "mEntries p = (pre @ mid @ [(WRITTEN, it)]) @ rest"
      using less.prems(1) post by simp
    have "blobIndicesFrom p (usedEntries pre) = nodeOf it # blobIndicesFrom p (j + span it)"
      using fi Some x by (subst blobIndicesFrom.simps) (simp add: nodeOf_def)
    also have "blobIndicesFrom p (j + span it)
                 = map (\<lambda>e. nodeOf (snd e)) (filter (wmatch ?I) rest)"
      unfolding ue by (rule less.hyps [OF len e])
    finally show ?thesis using post fm ty by (simp add: wmatch_def)
  qed
qed

lemma blobIndicesFrom_set:
  "set (blobIndicesFrom p 0)
     = (\<lambda>e. nodeOf (snd e)) `
         {e \<in> set (mEntries p). fst e = WRITTEN \<and> datatype' (snd e) = BLOB_IDX}"
  using blobIndicesFrom_split [of p "[]" "mEntries p"]
  by (simp add: wmatch_def)

lemma find_covers_None_iff:
  "find (blobIndexCovers chunk)
      (concat (map (\<lambda>pid. blobIndicesFrom (mPages pm pid) 0) (mPageList pm))) = None
     \<longleftrightarrow> orphan pm chunk"
proof -
  have "find (blobIndexCovers chunk)
          (concat (map (\<lambda>pid. blobIndicesFrom (mPages pm pid) 0) (mPageList pm))) = None
        \<longleftrightarrow> (\<forall>pid\<in>set (mPageList pm). \<forall>n\<in>set (blobIndicesFrom (mPages pm pid) 0).
               \<not> blobIndexCovers chunk n)"
    by (auto simp: find_None_iff)
  also have "\<dots> \<longleftrightarrow> (\<forall>pid\<in>set (mPageList pm). \<forall>e\<in>set (mEntries (mPages pm pid)).
        fst e = WRITTEN \<and> datatype' (snd e) = BLOB_IDX \<longrightarrow> \<not> blobIndexCovers chunk (nodeOf (snd e)))"
    by (simp only: blobIndicesFrom_set ball_simps mem_Collect_eq) blast
  finally show ?thesis by (simp add: orphan_def blobIndexCovers_nodeOf)
qed

lemma eraseOrphansFrom_0:
  "\<forall>e\<in>set (mEntries p). noWildcard e \<Longrightarrow> eraseOrphansFrom l p 0 = reclaimed l p"
  using eraseOrphansFrom_split [of p "[]" "mEntries p" l] by (simp add: reclaimed_def)

lemma reclaim_idem: "reclaim l (reclaim l e) = reclaim l e"
  by (simp add: reclaim_def)

lemma reclaimed_idem: "reclaimed l (reclaimed l p) = reclaimed l p"
  by (simp add: reclaimed_def reclaim_idem)

lemma noWildcard_reclaim: "noWildcard e \<Longrightarrow> noWildcard (reclaim l e)"
  by (simp add: noWildcard_def reclaim_def)

lemma noWildcard_reclaimed:
  "\<forall>e\<in>set (mEntries p). noWildcard e \<Longrightarrow> \<forall>e\<in>set (mEntries (reclaimed l p)). noWildcard e"
  by (auto simp: reclaimed_def noWildcard_reclaim)

lemma pageOf_setPage: "pageOf (setPage s pid p) q = (if q = pid then p else pageOf s q)"
  by (simp add: pageOf_def setPage_def)

lemma eraseOrphans_fold:
  assumes "\<forall>pid\<in>set pids. \<forall>e\<in>set (mEntries (pageOf s pid)). noWildcard e"
  shows "pageOf (fold (\<lambda>pid s'. setPage s' pid (eraseOrphansFrom l (pageOf s' pid) 0)) pids s) q
           = (if q \<in> set pids then reclaimed l (pageOf s q) else pageOf s q) \<and>
         mPageList (mPageManager
            (fold (\<lambda>pid s'. setPage s' pid (eraseOrphansFrom l (pageOf s' pid) 0)) pids s))
           = mPageList (mPageManager s)"
  using assms
proof (induction pids arbitrary: s)
  case Nil
  show ?case by simp
next
  case (Cons pid rest)
  let ?f = "\<lambda>pid s'. setPage s' pid (eraseOrphansFrom l (pageOf s' pid) 0)"
  let ?s1 = "setPage s pid (reclaimed l (pageOf s pid))"
  have s1: "?f pid s = ?s1"
    using Cons.prems by (simp add: eraseOrphansFrom_0)
  have nw: "\<forall>r\<in>set rest. \<forall>e\<in>set (mEntries (pageOf ?s1 r)). noWildcard e"
    using Cons.prems noWildcard_reclaimed [of "pageOf s pid" l]
    by (auto simp: pageOf_setPage)
  from Cons.IH [OF nw]
  have ih: "pageOf (fold ?f rest ?s1) q
              = (if q \<in> set rest then reclaimed l (pageOf ?s1 q) else pageOf ?s1 q)"
    and pl: "mPageList (mPageManager (fold ?f rest ?s1)) = mPageList (mPageManager ?s1)"
    by simp_all
  have "fold ?f (pid # rest) s = fold ?f rest ?s1" using s1 by simp
  then show ?case
    using ih pl by (simp add: pageOf_setPage reclaimed_idem)
qed

lemma init_True:
  assumes "init load s = (True, s')"
  shows "fst (load (mPageManager s)) = ESP_OK \<and>
         (\<exists>s3. mPageManager s3 = snd (load (mPageManager s)) \<and>
            s' = (eraseOrphanDataBlobs s3
                    (concat (map (\<lambda>pid. blobIndicesFrom (mPages (snd (load (mPageManager s))) pid) 0)
                       (mPageList (snd (load (mPageManager s)))))))\<lparr>mLastError := ESP_OK\<rparr>)"
proof (cases "load (mPageManager s)")
  case (Pair e pm1)
  from assms Pair have h: "mHandleCount s = 0" "e = ESP_OK"
    by (auto simp: init_def Let_def split: if_splits)
  let ?s1 = "s\<lparr>mPageManager := pm1, mLastError := ESP_OK\<rparr>"
  let ?entries = "concat (map (\<lambda>pid. namespacesFrom (pageOf ?s1 pid) 0) (mPageList pm1))"
  let ?s3 = "?s1\<lparr>mNamespaces := ?entries,
                  mNamespaceUsage := (fold (\<lambda>e u. u(mIndex e := True)) ?entries (\<lambda>i. False))
                                       (0 := True, 255 := True),
                  mState := ACTIVE, mLastError := ESP_OK\<rparr>"
  have "s' = (eraseOrphanDataBlobs ?s3
                (concat (map (\<lambda>pid. blobIndicesFrom (mPages pm1 pid) 0) (mPageList pm1))))
               \<lparr>mLastError := ESP_OK\<rparr>"
    using assms Pair h by (simp add: init_def Let_def populateBlobIndices_def pageOf_def)
  moreover have "mPageManager ?s3 = pm1" by simp
  ultimately show ?thesis using Pair h by (intro conjI exI [of _ ?s3]) simp_all
qed

lemma reclaim_orphan:
  "reclaim (concat (map (\<lambda>pid. blobIndicesFrom (mPages pm pid) 0) (mPageList pm))) e
     = (if fst e = WRITTEN \<and> datatype' (snd e) = BLOB_DATA \<and> orphan pm (snd e)
        then (ERASED, snd e) else e)"
  by (simp add: reclaim_def find_covers_None_iff)

text \<open>
  The erase of line 75 takes the namespace and the chunk index from the item found, and
  \<^verbatim>\<open>Page::eraseItem\<close> reads \<open>NS_ANY\<close> and \<open>CHUNK_ANY\<close> as wildcards. So the
  characterisation above is for pages on which no written \<open>BLOB_DATA\<close> item carries one
  of the two (index 255 is reserved, and the chunk indices of a blob lie below
  \<open>CHUNK_ANY\<close>). On a page where a chunk does carry \<open>NS_ANY\<close>, the erase can hit
  another item: here the chunk of the blob \<open>k\<close>, which its index covers.
\<close>

lemma eraseOrphansFrom_wildcard:
  "eraseOrphansFrom [nodeOf ex_old_index]
     \<lparr>state = PageState_ACTIVE,
      mEntries = [(WRITTEN, ex_old_chunk), (WRITTEN, ex_old_index),
                  (WRITTEN, ex_old_chunk\<lparr>nsIndex := NS_ANY\<rparr>)]\<rparr> 0
   = \<lparr>state = PageState_ACTIVE,
      mEntries = [(ERASED, ex_old_chunk), (WRITTEN, ex_old_index),
                  (WRITTEN, ex_old_chunk\<lparr>nsIndex := NS_ANY\<rparr>)]\<rparr>"
  by (simp add: eraseOrphansFrom.simps nodeOf_def blobIndexCovers_def ex_old_chunk_def
      ex_old_index_def model_defs)

text \<open>
  When \<^verbatim>\<open>init\<close> succeeds on pages whose written \<open>BLOB_DATA\<close> items carry neither
  the namespace \<open>NS_ANY\<close> nor the chunk index \<open>CHUNK_ANY\<close>, the pages of the storage
  are the loaded pages with every written \<open>BLOB_DATA\<close> item that no written blob index
  of the loaded pages covers marked erased, and nothing else changed. So every
  \<open>BLOB_DATA\<close> item that is still written is covered by a written \<open>BLOB_IDX\<close> item of
  the storage: same namespace, same key, chunk index in
  \<open>[chunkStart, chunkStart + chunkCount)\<close>.
\<close>

theorem init_reclaims_orphans:
  assumes "init load s = (True, s')"
    and "\<forall>pid\<in>set (mPageList (snd (load (mPageManager s)))).
           \<forall>e\<in>set (mEntries (mPages (snd (load (mPageManager s))) pid)). noWildcard e"
  shows "mPageList (mPageManager s') = mPageList (snd (load (mPageManager s))) \<and>
         (\<forall>pid\<in>set (mPageList (mPageManager s')).
            mEntries (pageOf s' pid)
              = map (\<lambda>e. if fst e = WRITTEN \<and> datatype' (snd e) = BLOB_DATA \<and>
                             orphan (snd (load (mPageManager s))) (snd e)
                          then (ERASED, snd e) else e)
                  (mEntries (mPages (snd (load (mPageManager s))) pid))) \<and>
         (\<forall>pid\<in>set (mPageList (mPageManager s')). \<forall>e\<in>set (mEntries (pageOf s' pid)).
            fst e = WRITTEN \<and> datatype' (snd e) = BLOB_DATA \<longrightarrow>
              (\<exists>pid'\<in>set (mPageList (mPageManager s')). \<exists>e'\<in>set (mEntries (pageOf s' pid')).
                 fst e' = WRITTEN \<and> datatype' (snd e') = BLOB_IDX \<and> inRangeOf (snd e) (snd e')))"
proof -
  let ?pm = "snd (load (mPageManager s))"
  let ?l = "concat (map (\<lambda>pid. blobIndicesFrom (mPages ?pm pid) 0) (mPageList ?pm))"
  let ?r = "\<lambda>e. if fst e = WRITTEN \<and> datatype' (snd e) = BLOB_DATA \<and> orphan ?pm (snd e)
                 then (ERASED, snd e) else e"
  from init_True [OF assms(1)] obtain s3 where
    pm: "mPageManager s3 = ?pm"
    and s': "s' = (eraseOrphanDataBlobs s3 ?l)\<lparr>mLastError := ESP_OK\<rparr>" by blast
  have nw: "\<forall>pid\<in>set (mPageList (mPageManager s3)). \<forall>e\<in>set (mEntries (pageOf s3 pid)). noWildcard e"
    using assms(2) pm by (simp add: pageOf_def)
  note f = eraseOrphans_fold [OF nw, of ?l]
  have pl: "mPageList (mPageManager s') = mPageList ?pm"
    using f [of 0] pm by (simp add: s' eraseOrphanDataBlobs_def)
  have pg: "mEntries (pageOf s' pid) = map ?r (mEntries (mPages ?pm pid))"
    if "pid \<in> set (mPageList ?pm)" for pid
  proof -
    have "pageOf s' pid = reclaimed ?l (pageOf s3 pid)"
      using f [of pid] that pm by (simp add: s' eraseOrphanDataBlobs_def)
    then show ?thesis
      using pm by (simp add: reclaimed_def pageOf_def reclaim_orphan [of ?pm, abs_def])
  qed
  have cov: "\<exists>pid'\<in>set (mPageList (mPageManager s')). \<exists>e'\<in>set (mEntries (pageOf s' pid')).
                 fst e' = WRITTEN \<and> datatype' (snd e') = BLOB_IDX \<and> inRangeOf (snd e) (snd e')"
    if pid: "pid \<in> set (mPageList (mPageManager s'))" and e: "e \<in> set (mEntries (pageOf s' pid))"
      and w: "fst e = WRITTEN" "datatype' (snd e) = BLOB_DATA" for pid e
  proof -
    have "e \<in> set (map ?r (mEntries (mPages ?pm pid)))"
      using e pg [of pid] pid pl by simp
    then have "e \<in> ?r ` set (mEntries (mPages ?pm pid))" by (simp only: set_map)
    then obtain e0 where
      e0: "e = ?r e0" "e0 \<in> set (mEntries (mPages ?pm pid))" by (rule imageE)
    have "\<not> orphan ?pm (snd e0)" "snd e = snd e0"
      using e0(1) w by (auto split: if_splits)
    then obtain pid' e' where
      i: "pid' \<in> set (mPageList ?pm)" "e' \<in> set (mEntries (mPages ?pm pid'))"
         "fst e' = WRITTEN" "datatype' (snd e') = BLOB_IDX" "inRangeOf (snd e) (snd e')"
      by (auto simp: orphan_def)
    have re: "?r e' = e'" using i(4) by simp
    have "?r e' \<in> ?r ` set (mEntries (mPages ?pm pid'))" using i(2) by (rule imageI)
    then have "e' \<in> set (map ?r (mEntries (mPages ?pm pid')))"
      by (simp only: re set_map)
    then have "e' \<in> set (mEntries (pageOf s' pid'))"
      by (simp only: pg [OF i(1)])
    moreover have "pid' \<in> set (mPageList (mPageManager s'))" using i(1) pl by simp
    ultimately show ?thesis using i(3,4,5) by blast
  qed
  have pg': "\<forall>pid\<in>set (mPageList (mPageManager s')).
               mEntries (pageOf s' pid) = map ?r (mEntries (mPages ?pm pid))"
    using pg pl by simp
  have cov': "\<forall>pid\<in>set (mPageList (mPageManager s')). \<forall>e\<in>set (mEntries (pageOf s' pid)).
            fst e = WRITTEN \<and> datatype' (snd e) = BLOB_DATA \<longrightarrow>
              (\<exists>pid'\<in>set (mPageList (mPageManager s')). \<exists>e'\<in>set (mEntries (pageOf s' pid')).
                 fst e' = WRITTEN \<and> datatype' (snd e') = BLOB_IDX \<and> inRangeOf (snd e) (snd e'))"
    using cov by blast
  from pl pg' cov' show ?thesis by (intro conjI)
qed


theorem init_reclaims_orphans_witness:
  "init load_ok ex_storage_orphans = (True, snd (init load_ok ex_storage_orphans)) \<and>
   mPageList (snd (load_ok (mPageManager ex_storage_orphans))) = [0] \<and>
   list_all noWildcard (mEntries (mPages (snd (load_ok (mPageManager ex_storage_orphans))) 0)) \<and>
   mEntries (pageOf (snd (init load_ok ex_storage_orphans)) 0)
     = [(ERASED, ex_orphan 0), (WRITTEN, ex_old_chunk), (WRITTEN, ex_old_index),
        (ERASED, ex_orphan 1), (ERASED, ex_orphan 2)]"
proof -
  let ?s' = "snd (init load_ok ex_storage_orphans)"
  let ?pm = "snd (load_ok (mPageManager ex_storage_orphans))"
  have "fst (init load_ok ex_storage_orphans) = True"
    by (simp add: init_def load_ok_def ex_storage_orphans_def populateBlobIndices_def Let_def)
  then have a: "init load_ok ex_storage_orphans = (True, ?s')"
    by (cases "init load_ok ex_storage_orphans") simp
  have pl: "mPageList ?pm = [0]" by (simp add: load_ok_def ex_storage_orphans_def)
  have pg: "mEntries (mPages ?pm 0)
              = [(WRITTEN, ex_orphan 0), (WRITTEN, ex_old_chunk), (WRITTEN, ex_old_index),
                 (WRITTEN, ex_orphan 1), (WRITTEN, ex_orphan 2)]"
    by (simp add: load_ok_def ex_storage_orphans_def)
  have nw: "list_all noWildcard (mEntries (mPages ?pm 0))"
    by (simp add: pg noWildcard_def ex_orphan_def ex_old_chunk_def ex_old_index_def
        NS_ANY_def CHUNK_ANY_def)
  have b: "\<forall>pid\<in>set (mPageList ?pm). \<forall>e\<in>set (mEntries (mPages ?pm pid)). noWildcard e"
    using nw by (simp add: pl list_all_iff)
  have o: "orphan ?pm (ex_orphan ci)" "\<not> orphan ?pm ex_old_chunk" for ci
    by (simp_all add: orphan_def pl pg inRangeOf_def ex_orphan_def ex_old_chunk_def
        ex_old_index_def blobIndex_def VER_0_OFFSET_def)
  from init_reclaims_orphans [OF a b, THEN conjunct2, THEN conjunct1]
    init_reclaims_orphans [OF a b, THEN conjunct1]
  have "mEntries (pageOf ?s' 0)
          = map (\<lambda>e. if fst e = WRITTEN \<and> datatype' (snd e) = BLOB_DATA \<and> orphan ?pm (snd e)
                      then (ERASED, snd e) else e) (mEntries (mPages ?pm 0))"
    by (simp add: pl)
  then have "mEntries (pageOf ?s' 0)
     = [(ERASED, ex_orphan 0), (WRITTEN, ex_old_chunk), (WRITTEN, ex_old_index),
        (ERASED, ex_orphan 1), (ERASED, ex_orphan 2)]"
    by (simp add: pg o) (simp add: ex_orphan_def ex_old_index_def)
  with a pl nw show ?thesis by simp
qed

text \<open>
  C2. The claim: after a successful \<^verbatim>\<open>init\<close> every written \<open>BLOB_DATA\<close> item is
  covered by a blob index, the others having been erased. The loop of
  \<^verbatim>\<open>eraseOrphanDataBlobs\<close> does not erase the item it found at the index where it found
  it: it searches the page again for the fields of that item (line 75), and a chunk index
  \<open>0xFF\<close> is the wildcard \<open>CHUNK_ANY\<close> in that search, although the comment of lines
  63 to 67 takes the chunk indices to lie below it. On \<open>ex_storage_255\<close> the mount
  succeeds, the chunk with index \<open>0xFF\<close>, which no index covers, is still written, and
  the chunk 0 of the stored blob, which its index covers, has been erased in its place.
\<close>

theorem init_erases_covered_chunk:
  "fst (init load_ok ex_storage_255) = True \<and>
   mPageList (mPageManager (snd (init load_ok ex_storage_255))) = [0] \<and>
   mEntries (pageOf (snd (init load_ok ex_storage_255)) 0)
     = [(ERASED, ex_old_chunk), (WRITTEN, ex_old_index), (WRITTEN, ex_chunk_255)] \<and>
   datatype' ex_chunk_255 = BLOB_DATA \<and> \<not> inRangeOf ex_chunk_255 ex_old_index \<and>
   inRangeOf ex_old_chunk ex_old_index"
  by (simp add: init_def load_ok_def ex_storage_255_def populateBlobIndices_def
      eraseOrphanDataBlobs_def namespacesFrom.simps blobIndicesFrom.simps eraseOrphansFrom.simps
      blobIndexCovers_def inRangeOf_def ex_chunk_255_def ex_old_chunk_def ex_old_index_def model_defs)

end
